(* ===== verification/Prelude.thy ===== *)
theory Prelude
  imports Main "HOL-Library.Word"
begin

text \<open>
  Shared ground of the development: the result type for code that may panic, Go's 64-bit
  signed arithmetic written over \<open>int\<close> with its wrap-around, instants of time, and the
  generic list lemmas the components use.
  Go strings and byte slices are byte sequences, so both are \<open>string\<close> here: a HOL
  \<open>char\<close> is one byte.
\<close>

named_theorems step_effects \<open>what the single steps of a handler do, for the proofs about the handler\<close>

section \<open>Types\<close>

type_synonym bytes = string

text \<open>
  An instant is the number of nanoseconds since the Unix epoch; a duration is a number of
  nanoseconds.
\<close>

type_synonym instant = int
type_synonym duration = int

abbreviation second :: duration where "second \<equiv> 1000000000"
abbreviation hour :: duration where "hour \<equiv> 3600000000000"

text \<open>A call either returns or panics (a run-time error such as an index out of range).\<close>

datatype 'a res = Panics | Returns 'a

definition bind_res :: "'a res \<Rightarrow> ('a \<Rightarrow> 'b res) \<Rightarrow> 'b res" where
  "bind_res m f = (case m of Panics \<Rightarrow> Panics | Returns x \<Rightarrow> f x)"

lemma bind_res_simps [simp]:
  "bind_res Panics f = Panics"
  "bind_res (Returns x) f = f x"
  by (simp_all add: bind_res_def)

lemma bind_res_Returns_iff:
  "bind_res m f = Returns y \<longleftrightarrow> (\<exists>x. m = Returns x \<and> f x = Returns y)"
  by (cases m) auto

section \<open>64-bit signed integers\<close>

text \<open>
  Go's \<open>int64\<close> (and \<open>int\<close> on the 64-bit targets the program is built for) wraps around.
  A value is an \<open>int\<close> in the range, and every operation of the source that can leave the
  range is wrapped by \<open>i64\<close>.
\<close>

definition i64 :: "int \<Rightarrow> int" where
  "i64 x = (x + 9223372036854775808) mod 18446744073709551616 - 9223372036854775808"

definition in_i64 :: "int \<Rightarrow> bool" where
  "in_i64 x \<longleftrightarrow> - 9223372036854775808 \<le> x \<and> x < 9223372036854775808"

lemma i64_id [simp]: "in_i64 x \<Longrightarrow> i64 x = x"
  by (simp add: i64_def in_i64_def)

lemma in_i64_i64 [simp, intro]: "in_i64 (i64 x)"
proof -
  have "(x + 9223372036854775808) mod 18446744073709551616 < 18446744073709551616"
    by simp
  moreover have "0 \<le> (x + 9223372036854775808) mod 18446744073709551616"
    by simp
  ultimately show ?thesis unfolding in_i64_def i64_def by linarith
qed

lemma in_i64I: "- 9223372036854775808 \<le> x \<Longrightarrow> x < 9223372036854775808 \<Longrightarrow> in_i64 x"
  by (simp add: in_i64_def)

lemma in_i64_between: "in_i64 a \<Longrightarrow> in_i64 b \<Longrightarrow> a \<le> x \<Longrightarrow> x \<le> b \<Longrightarrow> in_i64 x"
  by (auto simp: in_i64_def)

lemma i64_add_left [simp]: "i64 (i64 a + b) = i64 (a + b)"
proof -
  have "((a + c) mod m - c + b + c) mod m = (a + b + c) mod m" for c m :: int
    using mod_add_left_eq [of "a + c" m b] by (simp add: ac_simps)
  then show ?thesis unfolding i64_def by (simp only:)
qed

lemma i64_add_right [simp]: "i64 (a + i64 b) = i64 (a + b)"
  using i64_add_left [of b a] by (simp add: add.commute)

lemma i64_add_mid [simp]: "i64 (a + (i64 b + c)) = i64 (a + (b + c))"
  using i64_add_left [of b "a + c"] by (simp add: ac_simps)

lemma i64_add_mid2 [simp]: "i64 (a + (b + i64 c)) = i64 (a + (b + c))"
  using i64_add_right [of "a + b" c] by (simp add: ac_simps)

lemma i64_diff_right [simp]: "i64 (a - i64 b) = i64 (a - b)"
proof -
  have "(a - ((b + c) mod m - c) + c) mod m = (a - b + c) mod m" for c m :: int
    using mod_diff_right_eq [of "a + c + c" "b + c" m] by (simp add: algebra_simps)
  then show ?thesis unfolding i64_def by (simp only:)
qed

section \<open>Go's truncating division\<close>

definition quot :: "int \<Rightarrow> int \<Rightarrow> int" where
  "quot a b = sgn a * sgn b * (\<bar>a\<bar> div \<bar>b\<bar>)"

lemma quot_nonneg [simp]: "0 \<le> a \<Longrightarrow> 0 < b \<Longrightarrow> quot a b = a div b"
  by (cases "a = 0") (auto simp: quot_def)

section \<open>Transition systems\<close>

text \<open>
  A property of states that every step keeps holds in every state reached from one that has it.
\<close>

locale preserved =
  fixes step :: "'s \<Rightarrow> 's \<Rightarrow> bool"
    and inv :: "'s \<Rightarrow> bool"
  assumes keeps: "step s s' \<Longrightarrow> inv s \<Longrightarrow> inv s'"
begin

lemma reached: "step\<^sup>*\<^sup>* s s' \<Longrightarrow> inv s \<Longrightarrow> inv s'"
  by (induction rule: rtranclp_induct) (auto dest: keeps)

end

section \<open>Instants\<close>

text \<open>
  \<open>time.Time.Unix\<close> is the floor of the instant in seconds; the zero \<open>time.Time\<close> is the
  first instant of year 1; \<open>Sub\<close> saturates at the range of \<open>time.Duration\<close>.
\<close>

definition Unix :: "instant \<Rightarrow> int" where
  "Unix t = t div second"

definition zeroTime :: instant where
  "zeroTime = - 62135596800 * second"

definition time_Sub :: "instant \<Rightarrow> instant \<Rightarrow> duration" where
  "time_Sub t u = max (- 9223372036854775808) (min 9223372036854775807 (t - u))"

lemma time_Sub_less_iff [simp]:
  "in_i64 d \<Longrightarrow> d < 9223372036854775807 \<Longrightarrow> d < time_Sub t u \<longleftrightarrow> d < t - u"
  by (auto simp: time_Sub_def in_i64_def)

section \<open>Lists\<close>

lemma take_length_append [simp]: "take (length xs) (xs @ ys) = xs"
  by simp

lemma sum_list_nonneg_int: "(\<And>x. x \<in> set xs \<Longrightarrow> (0::int) \<le> x) \<Longrightarrow> 0 \<le> sum_list xs"
  by (induction xs) auto

lemma foldl_sum_list: "foldl (\<lambda>a x. a + f x) (a::int) xs = a + sum_list (map f xs)"
  by (induction xs arbitrary: a) auto

end
