(* ===== verification/GoLib.thy ===== *)
theory GoLib
  imports Prelude
begin

text \<open>
  The part of Go's standard library the program uses on strings, numbers and paths
  (packages \<open>strings\<close>, \<open>strconv\<close>, \<open>net/textproto\<close>, \<open>path\<close>, \<open>path/filepath\<close> on Unix),
  as executable functions, with the facts the components rely on: round trip of decimal
  numbers, splitting and joining, and that a cleaned rooted path has no dot-dot element.
\<close>

section \<open>Package strings\<close>

definition HasPrefix :: "string \<Rightarrow> string \<Rightarrow> bool" where
  "HasPrefix s p \<longleftrightarrow> take (length p) s = p"

definition HasSuffix :: "string \<Rightarrow> string \<Rightarrow> bool" where
  "HasSuffix s p \<longleftrightarrow> HasPrefix (rev s) (rev p)"

definition TrimPrefix :: "string \<Rightarrow> string \<Rightarrow> string" where
  "TrimPrefix s p = (if HasPrefix s p then drop (length p) s else s)"

definition TrimSuffix :: "string \<Rightarrow> string \<Rightarrow> string" where
  "TrimSuffix s p = (if HasSuffix s p then take (length s - length p) s else s)"

fun Contains :: "string \<Rightarrow> string \<Rightarrow> bool" where
  "Contains [] p = (p = [])"
| "Contains (c # s) p = (HasPrefix (c # s) p \<or> Contains s p)"

text \<open>\<open>Cut s c\<close> for a one-byte separator: the text before and after its first occurrence.\<close>

fun Cut :: "string \<Rightarrow> char \<Rightarrow> (string \<times> string) option" where
  "Cut [] c = None"
| "Cut (x # s) c =
     (if x = c then Some ([], s)
      else case Cut s c of None \<Rightarrow> None | Some (a, b) \<Rightarrow> Some (x # a, b))"

text \<open>
  \<open>Split s c\<close> for a one-byte separator (the empty string splits into one empty string),
  and \<open>FieldsFunc\<close>, which drops the empty pieces.
\<close>

fun split_by :: "(char \<Rightarrow> bool) \<Rightarrow> string \<Rightarrow> string list" where
  "split_by p [] = [[]]"
| "split_by p (x # s) =
     (if p x then [] # split_by p s
      else case split_by p s of [] \<Rightarrow> [[x]] | w # ws \<Rightarrow> (x # w) # ws)"

definition Split :: "string \<Rightarrow> char \<Rightarrow> string list" where
  "Split s c = split_by (\<lambda>x. x = c) s"

definition FieldsFunc :: "string \<Rightarrow> (char \<Rightarrow> bool) \<Rightarrow> string list" where
  "FieldsFunc s p = filter (\<lambda>w. w \<noteq> []) (split_by p s)"

fun join :: "string \<Rightarrow> string list \<Rightarrow> string" where
  "join sep [] = []"
| "join sep [w] = w"
| "join sep (w # ws) = w @ sep @ join sep ws"

text \<open>\<open>ReplaceAll s old new\<close> for a non-empty \<open>old\<close>: leftmost, non-overlapping.\<close>

function ReplaceAll :: "string \<Rightarrow> string \<Rightarrow> string \<Rightarrow> string" where
  "ReplaceAll s old new =
     (if s = [] \<or> old = [] then s
      else if HasPrefix s old then new @ ReplaceAll (drop (length old) s) old new
      else hd s # ReplaceAll (tl s) old new)"
  by pat_completeness auto
termination
  by (relation "measure (\<lambda>(s, _). length s)") auto

declare ReplaceAll.simps [simp del]

text \<open>
  \<open>TrimSpace\<close> removes white space in the sense of \<open>unicode.IsSpace\<close>. Each white space
  character has one UTF-8 encoding, listed here, so trimming is on encoded prefixes and
  suffixes.
\<close>

definition ascii_spaces :: "string list" where
  "ascii_spaces = [[CHR 0x09], [CHR 0x0A], [CHR 0x0B], [CHR 0x0C], [CHR 0x0D], [CHR '' '']]"

definition unicode_spaces :: "string list" where
  "unicode_spaces =
     [[CHR 0xC2, CHR 0x85], [CHR 0xC2, CHR 0xA0], [CHR 0xE1, CHR 0x9A, CHR 0x80],
      [CHR 0xE2, CHR 0x80, CHR 0x80], [CHR 0xE2, CHR 0x80, CHR 0x81],
      [CHR 0xE2, CHR 0x80, CHR 0x82], [CHR 0xE2, CHR 0x80, CHR 0x83],
      [CHR 0xE2, CHR 0x80, CHR 0x84], [CHR 0xE2, CHR 0x80, CHR 0x85],
      [CHR 0xE2, CHR 0x80, CHR 0x86], [CHR 0xE2, CHR 0x80, CHR 0x87],
      [CHR 0xE2, CHR 0x80, CHR 0x88], [CHR 0xE2, CHR 0x80, CHR 0x89],
      [CHR 0xE2, CHR 0x80, CHR 0x8A], [CHR 0xE2, CHR 0x80, CHR 0xA8],
      [CHR 0xE2, CHR 0x80, CHR 0xA9], [CHR 0xE2, CHR 0x80, CHR 0xAF],
      [CHR 0xE2, CHR 0x81, CHR 0x9F], [CHR 0xE3, CHR 0x80, CHR 0x80]]"

function trim_left :: "string list \<Rightarrow> string \<Rightarrow> string" where
  "trim_left ws s =
     (case find (\<lambda>w. w \<noteq> [] \<and> HasPrefix s w) ws of
        None \<Rightarrow> s
      | Some w \<Rightarrow> if s = [] then s else trim_left ws (drop (length w) s))"
  by pat_completeness auto
termination
  by (relation "measure (\<lambda>(_, s). length s)")
    (auto simp: find_Some_iff)

declare trim_left.simps [simp del]

definition trim_right :: "string list \<Rightarrow> string \<Rightarrow> string" where
  "trim_right ws s = rev (trim_left (map rev ws) (rev s))"

definition TrimSpace :: "string \<Rightarrow> string" where
  "TrimSpace s =
     trim_right (ascii_spaces @ unicode_spaces) (trim_left (ascii_spaces @ unicode_spaces) s)"

text \<open>\<open>textproto.TrimString\<close> trims space, tab, newline and carriage return.\<close>

definition isASCIISpace :: "char \<Rightarrow> bool" where
  "isASCIISpace c \<longleftrightarrow> c = CHR '' '' \<or> c = CHR 0x09 \<or> c = CHR 0x0A \<or> c = CHR 0x0D"

definition TrimString :: "string \<Rightarrow> string" where
  "TrimString s = rev (dropWhile isASCIISpace (rev (dropWhile isASCIISpace s)))"

text \<open>
  \<open>ToLower\<close> and \<open>ToUpper\<close> on ASCII letters; other bytes are kept. The program applies
  them to configuration values, which are ASCII.
\<close>

definition lower_char :: "char \<Rightarrow> char" where
  "lower_char c = (if 65 \<le> (of_char c :: nat) \<and> (of_char c :: nat) \<le> 90
                   then char_of (of_char c + 32 :: nat) else c)"

definition upper_char :: "char \<Rightarrow> char" where
  "upper_char c = (if 97 \<le> (of_char c :: nat) \<and> (of_char c :: nat) \<le> 122
                   then char_of (of_char c - 32 :: nat) else c)"

definition ToLower :: "string \<Rightarrow> string" where
  "ToLower s = map lower_char s"

definition ToUpper :: "string \<Rightarrow> string" where
  "ToUpper s = map upper_char s"

section \<open>Package strconv\<close>

definition digit :: "int \<Rightarrow> char" where
  "digit d = char_of (48 + d)"

definition digit_val :: "char \<Rightarrow> int option" where
  "digit_val c = (let n = of_char c in if 48 \<le> n \<and> n \<le> 57 then Some (n - 48) else None)"

function dec :: "int \<Rightarrow> string" where
  "dec n = (if n < 10 then [digit n] else dec (n div 10) @ [digit (n mod 10)])"
  by pat_completeness auto
termination
  by (relation "measure nat") auto

declare dec.simps [simp del]

definition FormatInt :: "int \<Rightarrow> string" where
  "FormatInt x = (if x < 0 then CHR ''-'' # dec (- x) else dec x)"

fun read_digits :: "int \<Rightarrow> int \<Rightarrow> string \<Rightarrow> int option" where
  "read_digits base acc [] = Some acc"
| "read_digits base acc (c # s) =
     (case digit_val c of
        None \<Rightarrow> None
      | Some d \<Rightarrow> if d < base then read_digits base (acc * base + d) s else None)"

text \<open>
  \<open>ParseInt base bits s\<close> for a base of at most 10, where \<open>bound\<close> is \<open>2 ^ (bits - 1)\<close>;
  \<open>None\<close> is any error it returns (syntax or range).
\<close>

definition ParseInt :: "int \<Rightarrow> int \<Rightarrow> string \<Rightarrow> int option" where
  "ParseInt base bound s =
     (let neg = HasPrefix s ''-'';
          ds = (if neg \<or> HasPrefix s ''+'' then drop 1 s else s)
      in if ds = [] then None
         else case read_digits base 0 ds of
             None \<Rightarrow> None
           | Some n \<Rightarrow>
               if neg then (if n \<le> bound then Some (- n) else None)
               else (if n < bound then Some n else None))"

abbreviation ParseInt64 :: "string \<Rightarrow> int option" where
  "ParseInt64 \<equiv> ParseInt 10 9223372036854775808"

abbreviation ParseOctal32 :: "string \<Rightarrow> int option" where
  "ParseOctal32 \<equiv> ParseInt 8 2147483648"

section \<open>Packages path and path/filepath (Unix)\<close>

definition clean_step :: "bool \<Rightarrow> string list \<Rightarrow> string \<Rightarrow> string list" where
  "clean_step rooted out c =
     (if c = [] \<or> c = ''.'' then out
      else if c = ''..'' then
        (if out \<noteq> [] \<and> last out \<noteq> ''..'' then butlast out
         else if rooted then out else out @ [''..''])
      else out @ [c])"

definition clean_comps :: "bool \<Rightarrow> string \<Rightarrow> string list" where
  "clean_comps rooted s = foldl (clean_step rooted) [] (Split s CHR ''/'')"

definition Clean :: "string \<Rightarrow> string" where
  "Clean s =
     (if s = [] then ''.''
      else if hd s = CHR ''/'' then CHR ''/'' # join ''/'' (clean_comps True s)
      else let out = clean_comps False s in if out = [] then ''.'' else join ''/'' out)"

definition Join :: "string list \<Rightarrow> string" where
  "Join elems = (let es = dropWhile (\<lambda>e. e = []) elems
                 in if es = [] then [] else Clean (join ''/'' es))"

definition Base :: "string \<Rightarrow> string" where
  "Base s =
     (if s = [] then ''.''
      else let b = rev (takeWhile (\<lambda>c. c \<noteq> CHR ''/'') (dropWhile (\<lambda>c. c = CHR ''/'') (rev s)))
           in if b = [] then ''/'' else b)"

definition Ext :: "string \<Rightarrow> string" where
  "Ext s = (let b = takeWhile (\<lambda>c. c \<noteq> CHR ''/'') (rev s)
            in if CHR ''.'' \<in> set b then CHR ''.'' # rev (takeWhile (\<lambda>c. c \<noteq> CHR ''.'') b)
               else [])"

text \<open>\<open>filepath.Split\<close>: the directory with its final slash, and the file name.\<close>

definition path_Split :: "string \<Rightarrow> string \<times> string" where
  "path_Split s = (let b = rev (takeWhile (\<lambda>c. c \<noteq> CHR ''/'') (rev s))
                   in (take (length s - length b) s, b))"

section \<open>Facts about the library functions\<close>

subsection \<open>Prefixes, cutting and splitting\<close>

lemma HasPrefix_append [simp]: "HasPrefix (p @ s) p"
  by (simp add: HasPrefix_def)

lemma HasPrefix_Nil [simp]: "HasPrefix s []"
  by (simp add: HasPrefix_def)

lemma HasPrefix_empty [simp]: "HasPrefix [] p \<longleftrightarrow> p = []"
  by (auto simp: HasPrefix_def)

lemma HasPrefix_Cons [simp]: "HasPrefix (x # s) (y # p) \<longleftrightarrow> x = y \<and> HasPrefix s p"
  by (auto simp: HasPrefix_def)

lemma HasPrefix_iff: "HasPrefix s p \<longleftrightarrow> (\<exists>r. s = p @ r)"
  unfolding HasPrefix_def by (metis append_eq_conv_conj append_take_drop_id)

lemma HasSuffix_append [simp]: "HasSuffix (s @ p) p"
  by (simp add: HasSuffix_def)

lemma HasSuffix_iff: "HasSuffix s p \<longleftrightarrow> (\<exists>r. s = r @ p)"
proof
  assume "HasSuffix s p"
  then obtain r where "rev s = rev p @ r"
    by (auto simp: HasSuffix_def HasPrefix_iff)
  then have "s = rev r @ p"
    by (metis rev_append rev_rev_ident)
  then show "\<exists>r. s = r @ p" ..
qed auto

lemma Cut_append [simp]: "c \<notin> set a \<Longrightarrow> Cut (a @ c # b) c = Some (a, b)"
  by (induction a) auto

lemma Cut_None_iff [simp]: "Cut s c = None \<longleftrightarrow> c \<notin> set s"
  by (induction s) (auto split: option.splits)

lemma Cut_SomeD: "Cut s c = Some (a, b) \<Longrightarrow> s = a @ c # b \<and> c \<notin> set a"
  by (induction s arbitrary: a) (auto split: if_splits option.splits)

lemma split_by_not_Nil [simp]: "split_by p s \<noteq> []"
  by (induction s) (auto split: list.splits)

lemma Split_not_Nil [simp]: "Split s c \<noteq> []"
  by (simp add: Split_def)

lemma split_by_no_sep: "w \<in> set (split_by p s) \<Longrightarrow> c \<in> set w \<Longrightarrow> \<not> p c"
  by (induction s arbitrary: w) (auto split: if_splits list.splits, blast)

lemma Split_no_sep: "w \<in> set (Split s c) \<Longrightarrow> c \<notin> set w"
  by (auto simp: Split_def dest: split_by_no_sep)

lemma split_by_all: "(\<And>c. c \<in> set s \<Longrightarrow> \<not> p c) \<Longrightarrow> split_by p s = [s]"
  by (induction s) auto

lemma Split_no: "c \<notin> set s \<Longrightarrow> Split s c = [s]"
  unfolding Split_def by (rule split_by_all) auto

lemma split_by_append_sep:
  "(\<And>x. x \<in> set a \<Longrightarrow> \<not> p x) \<Longrightarrow> p c \<Longrightarrow> split_by p (a @ c # b) = a # split_by p b"
  by (induction a) auto

lemma Split_append [simp]: "c \<notin> set a \<Longrightarrow> Split (a @ c # b) c = a # Split b c"
  unfolding Split_def by (rule split_by_append_sep) auto

lemma Split_Cons_sep [simp]: "Split (c # b) c = [] # Split b c"
  by (simp add: Split_def)

lemma Split_Nil [simp]: "Split [] c = [[]]"
  by (simp add: Split_def)

lemma join_Cons: "ws \<noteq> [] \<Longrightarrow> join sep (w # ws) = w @ sep @ join sep ws"
  by (cases ws) auto

lemma join_Split: "join [c] (Split s c) = s"
proof (induction s)
  case (Cons x s)
  show ?case
  proof (cases "x = c")
    case True
    with Cons show ?thesis by (simp add: join_Cons)
  next
    case False
    obtain w ws where s: "Split s c = w # ws"
      by (cases "Split s c") auto
    with False have "Split (x # s) c = (x # w) # ws"
      by (simp add: Split_def)
    with Cons s show ?thesis by (cases ws) auto
  qed
qed simp

lemma Split_join:
  "ws \<noteq> [] \<Longrightarrow> (\<And>w. w \<in> set ws \<Longrightarrow> c \<notin> set w) \<Longrightarrow> Split (join [c] ws) c = ws"
proof (induction ws)
  case (Cons w ws)
  then show ?case by (cases "ws = []") (simp_all add: Split_no join_Cons)
qed simp

lemma set_join: "c \<in> set (join sep ws) \<Longrightarrow> c \<in> set sep \<or> (\<exists>w \<in> set ws. c \<in> set w)"
  by (induction sep ws rule: join.induct) auto

lemma length_TrimString: "length (TrimString s) \<le> length s"
proof -
  have "length (TrimString s) \<le> length (dropWhile isASCIISpace s)"
    unfolding TrimString_def using length_dropWhile_le [of _ "rev (dropWhile isASCIISpace s)"]
    by simp
  then show ?thesis using length_dropWhile_le [of isASCIISpace s] by linarith
qed

lemma length_trim_left: "length (trim_left ws s) \<le> length s"
proof (induction ws s rule: trim_left.induct)
  case (1 ws s)
  then show ?case
    by (subst trim_left.simps) (force split: option.splits)
qed

subsection \<open>Decimal numbers\<close>

lemma digit_val_digit [simp]: "0 \<le> d \<Longrightarrow> d < 10 \<Longrightarrow> digit_val (digit d) = Some d"
  by (simp add: digit_def digit_val_def Let_def take_bit_eq_mod)

lemma digit_val_range: "digit_val c = Some d \<Longrightarrow> 0 \<le> d \<and> d < 10"
  by (auto simp: digit_val_def Let_def split: if_splits)

lemma read_digits_append:
  "read_digits b acc (xs @ ys) = Option.bind (read_digits b acc xs) (\<lambda>a. read_digits b a ys)"
  by (induction b acc xs rule: read_digits.induct) (auto split: option.splits)

lemma dec_not_Nil [simp]: "dec n \<noteq> []"
  by (subst dec.simps) simp

lemma read_digits_dec: "0 \<le> n \<Longrightarrow> read_digits 10 0 (dec n) = Some n"
proof (induction n rule: dec.induct)
  case (1 n)
  show ?case
  proof (cases "n < 10")
    case True
    with "1.prems" show ?thesis by (subst dec.simps) simp
  next
    case False
    with 1 show ?thesis by (subst dec.simps) (simp add: read_digits_append)
  qed
qed

lemma dec_digits: "0 \<le> n \<Longrightarrow> c \<in> set (dec n) \<Longrightarrow> \<exists>d. 0 \<le> d \<and> d < 10 \<and> c = digit d"
proof (induction n rule: dec.induct)
  case (1 n)
  show ?case
  proof (cases "n < 10")
    case True
    with "1.prems" show ?thesis by (auto simp: dec.simps [of n])
  next
    case False
    with "1.prems" have "c \<in> set (dec (n div 10)) \<or> c = digit (n mod 10)"
      by (auto simp: dec.simps [of n])
    then show ?thesis
    proof
      assume "c \<in> set (dec (n div 10))"
      with False 1 show ?thesis by simp
    next
      assume "c = digit (n mod 10)"
      then show ?thesis by (intro exI [of _ "n mod 10"]) simp
    qed
  qed
qed

lemma digit_set: "map digit [0,1,2,3,4,5,6,7,8,9] = ''0123456789''"
  by code_simp

lemma digit_cases: "0 \<le> d \<Longrightarrow> d < 10 \<Longrightarrow> digit d \<in> set ''0123456789''"
proof -
  assume "0 \<le> d" "d < 10"
  then have "d = 0 \<or> d = 1 \<or> d = 2 \<or> d = 3 \<or> d = 4 \<or> d = 5 \<or> d = 6 \<or> d = 7 \<or> d = 8 \<or> d = 9"
    by arith
  then have "d \<in> set [0,1,2,3,4,5,6,7,8,9]" by auto
  then have "digit d \<in> set (map digit [0,1,2,3,4,5,6,7,8,9])" unfolding set_map by (rule imageI)
  then show ?thesis by (simp only: digit_set)
qed

lemma set_dec: "0 \<le> n \<Longrightarrow> set (dec n) \<subseteq> set ''0123456789''"
  using dec_digits digit_cases by blast

lemma set_FormatInt: "set (FormatInt x) \<subseteq> set ''-0123456789''"
  using set_dec [of x] set_dec [of "- x"] by (auto simp: FormatInt_def)

lemma FormatInt_not_Nil [simp]: "FormatInt x \<noteq> []"
  by (simp add: FormatInt_def)

lemma dec_no_sign: "0 \<le> n \<Longrightarrow> \<not> HasPrefix (dec n) ''-'' \<and> \<not> HasPrefix (dec n) ''+''"
proof -
  assume n: "0 \<le> n"
  obtain c s where cs: "dec n = c # s" by (cases "dec n") auto
  with set_dec [OF n] have "c \<in> set ''0123456789''" by auto
  then show ?thesis by (auto simp: cs HasPrefix_def)
qed

lemma ParseInt64_FormatInt: "in_i64 x \<Longrightarrow> ParseInt64 (FormatInt x) = Some x"
proof -
  assume x: "in_i64 x"
  show ?thesis
  proof (cases "x < 0")
    case True
    with x show ?thesis
      by (simp add: FormatInt_def ParseInt_def HasPrefix_def read_digits_dec in_i64_def)
  next
    case False
    with x dec_no_sign [of x] show ?thesis
      by (simp add: FormatInt_def ParseInt_def read_digits_dec in_i64_def)
  qed
qed

lemma read_digits_nonneg:
  "read_digits b acc s = Some n \<Longrightarrow> 0 \<le> b \<Longrightarrow> 0 \<le> acc \<Longrightarrow> 0 \<le> n"
proof (induction b acc s rule: read_digits.induct)
  case (2 b acc c s)
  then obtain d where d: "digit_val c = Some d" "d < b" "read_digits b (acc * b + d) s = Some n"
    by (auto split: option.splits if_splits)
  with "2.prems" digit_val_range [OF d(1)] have "0 \<le> acc * b + d" by simp
  with "2.IH" [OF d(1,2) d(3)] "2.prems" show ?case by simp
qed simp

lemma ParseInt_range:
  "ParseInt b m s = Some x \<Longrightarrow> 0 \<le> b \<Longrightarrow> - m \<le> x \<and> (x < m \<or> 0 \<ge> x)"
  by (auto simp: ParseInt_def Let_def split: if_splits option.splits dest: read_digits_nonneg)

lemma ParseInt64_in_i64: "ParseInt64 s = Some x \<Longrightarrow> in_i64 x"
  using ParseInt_range [of 10 9223372036854775808 s x] by (auto simp: in_i64_def)

subsection \<open>Cleaned paths\<close>

definition plain_comp :: "string \<Rightarrow> bool" where
  "plain_comp c \<longleftrightarrow> c \<noteq> [] \<and> c \<noteq> ''.'' \<and> c \<noteq> ''..'' \<and> CHR ''/'' \<notin> set c"

lemma clean_step_plain:
  "(\<And>x. x \<in> set out \<Longrightarrow> plain_comp x) \<Longrightarrow> CHR ''/'' \<notin> set c \<Longrightarrow>
   x \<in> set (clean_step True out c) \<Longrightarrow> plain_comp x"
  by (auto simp: clean_step_def plain_comp_def split: if_splits dest: in_set_butlastD)

lemma clean_fold_plain:
  "(\<And>x. x \<in> set out \<Longrightarrow> plain_comp x) \<Longrightarrow> (\<And>c. c \<in> set cs \<Longrightarrow> CHR ''/'' \<notin> set c) \<Longrightarrow>
   x \<in> set (foldl (clean_step True) out cs) \<Longrightarrow> plain_comp x"
proof (induction cs arbitrary: out)
  case (Cons c cs)
  have "plain_comp y" if "y \<in> set (clean_step True out c)" for y
    using clean_step_plain [OF Cons.prems(1) _ that] Cons.prems(2) [of c] by auto
  with Cons.IH [of "clean_step True out c"] Cons.prems show ?case by simp
qed simp

lemma clean_comps_plain: "x \<in> set (clean_comps True s) \<Longrightarrow> plain_comp x"
  unfolding clean_comps_def by (rule clean_fold_plain [of "[]"]) (auto dest: Split_no_sep)

lemma Clean_rooted: "hd s = CHR ''/'' \<Longrightarrow> s \<noteq> [] \<Longrightarrow> Clean s = CHR ''/'' # join ''/'' (clean_comps True s)"
  by (simp add: Clean_def)

lemma foldl_clean_plain:
  "(\<And>c. c \<in> set cs \<Longrightarrow> plain_comp c) \<Longrightarrow> foldl (clean_step r) out cs = out @ cs"
proof (induction cs arbitrary: out)
  case (Cons c cs)
  then have "clean_step r out c = out @ [c]"
    by (simp add: clean_step_def plain_comp_def)
  with Cons show ?case by simp
qed simp

lemma clean_comps_abs:
  "(\<And>c. c \<in> set cs \<Longrightarrow> plain_comp c) \<Longrightarrow> clean_comps True (CHR ''/'' # join ''/'' cs) = cs"
proof (cases "cs = []")
  case False
  assume cs: "\<And>c. c \<in> set cs \<Longrightarrow> plain_comp c"
  then have "Split (join ''/'' cs) CHR ''/'' = cs"
    by (intro Split_join False) (auto simp: plain_comp_def)
  then show ?thesis
    using foldl_clean_plain [of cs True "[]"] cs
    by (simp add: clean_comps_def clean_step_def)
qed (simp add: clean_comps_def clean_step_def)

lemma Clean_Clean_rooted:
  "s \<noteq> [] \<Longrightarrow> hd s = CHR ''/'' \<Longrightarrow> Clean (Clean s) = Clean s"
  using clean_comps_abs [OF clean_comps_plain] by (simp add: Clean_rooted)

end
