(* ===== verification/GoHttp.thy ===== *)
theory GoHttp
  imports GoLib
begin

text \<open>
  The part of package \<open>net/http\<close> (Go 1.20) a handler sees: requests, the header map, and the
  response writer with its commit semantics. The first \<open>WriteHeader\<close> fixes the status and
  the headers that are sent; \<open>Write\<close> commits status 200 when nothing is committed yet, drops
  a body the status does not allow, and refuses bytes beyond a declared \<open>Content-Length\<close>.
  The helpers \<open>Error\<close>, \<open>NotFound\<close>, \<open>Redirect\<close> and \<open>SetCookie\<close> are modelled on top of it.
\<close>

section \<open>Headers and requests\<close>

text \<open>Header keys are in canonical form, as the program's literals are.\<close>

type_synonym header = "string \<Rightarrow> string list option"

definition header_Get :: "header \<Rightarrow> string \<Rightarrow> string" where
  "header_Get h k = (case h k of Some (v # _) \<Rightarrow> v | _ \<Rightarrow> [])"

definition header_Set :: "header \<Rightarrow> string \<Rightarrow> string \<Rightarrow> header" where
  "header_Set h k v = h(k := Some [v])"

definition header_Add :: "header \<Rightarrow> string \<Rightarrow> string \<Rightarrow> header" where
  "header_Add h k v = h(k := Some ((case h k of None \<Rightarrow> [] | Some vs \<Rightarrow> vs) @ [v]))"

definition header_Del :: "header \<Rightarrow> string \<Rightarrow> header" where
  "header_Del h k = h(k := None)"

text \<open>
  A request: \<open>Cookies\<close> holds the parsed cookies in order, \<open>FormValue\<close> the parsed form
  (the empty string for a missing field), as \<open>net/http\<close> delivers them to the handler.
\<close>

record request =
  Method :: string
  URL_Path :: string
  RawQuery :: string
  req_Header :: header
  RemoteAddr :: string
  Cookies :: "(string \<times> string) list"
  FormValue :: "string \<Rightarrow> string"

definition cookie :: "request \<Rightarrow> string \<Rightarrow> string option" where
  "cookie r name = map_of (Cookies r) name"

text \<open>
  Library services that depend on the platform's tables or are orthogonal to the program's
  logic, as parameters: the HTTP date format and its parser, the MIME table and the content
  sniffer.
\<close>

record weblib =
  FormatTime :: "instant \<Rightarrow> string"
  ParseTime :: "string \<Rightarrow> instant option"
  TypeByExtension :: "string \<Rightarrow> string"
  DetectContentType :: "bytes \<Rightarrow> string"

section \<open>The response writer\<close>

record response_writer =
  rw_header :: header
  rw_sent :: "(int \<times> header) option"
  rw_contentLength :: int
  rw_written :: int
  rw_body :: bytes

definition new_response :: response_writer where
  "new_response =
     \<lparr>rw_header = (\<lambda>_. None), rw_sent = None, rw_contentLength = - 1, rw_written = 0, rw_body = []\<rparr>"

definition status :: "response_writer \<Rightarrow> int" where
  "status w = (case rw_sent w of None \<Rightarrow> 200 | Some (c, _) \<Rightarrow> c)"

definition sent_header :: "response_writer \<Rightarrow> header" where
  "sent_header w = (case rw_sent w of None \<Rightarrow> rw_header w | Some (_, h) \<Rightarrow> h)"

definition set_header :: "string \<Rightarrow> string \<Rightarrow> response_writer \<Rightarrow> response_writer" where
  "set_header k v w = w\<lparr>rw_header := header_Set (rw_header w) k v\<rparr>"

definition del_header :: "string \<Rightarrow> response_writer \<Rightarrow> response_writer" where
  "del_header k w = w\<lparr>rw_header := header_Del (rw_header w) k\<rparr>"

definition WriteHeader :: "int \<Rightarrow> response_writer \<Rightarrow> response_writer" where
  "WriteHeader code w =
     (case rw_sent w of
        Some _ \<Rightarrow> w
      | None \<Rightarrow>
          let w' = w\<lparr>rw_sent := Some (code, rw_header w)\<rparr>;
              cl = header_Get (rw_header w) ''Content-Length''
          in if cl = [] then w'
             else case ParseInt64 cl of
                 Some v \<Rightarrow> if 0 \<le> v then w'\<lparr>rw_contentLength := v\<rparr> else del_header ''Content-Length'' w'
               | None \<Rightarrow> del_header ''Content-Length'' w')"

definition bodyAllowed :: "int \<Rightarrow> bool" where
  "bodyAllowed code \<longleftrightarrow> \<not> (100 \<le> code \<and> code \<le> 199 \<or> code = 204 \<or> code = 304)"

definition write_body :: "bytes \<Rightarrow> response_writer \<Rightarrow> response_writer" where
  "write_body b w0 =
     (let w = (if rw_sent w0 = None then WriteHeader 200 w0 else w0);
          n = i64 (rw_written w + int (length b))
      in if b = [] \<or> \<not> bodyAllowed (status w) then w
         else if rw_contentLength w \<noteq> - 1 \<and> rw_contentLength w < n then w\<lparr>rw_written := n\<rparr>
         else w\<lparr>rw_written := n, rw_body := rw_body w @ b\<rparr>)"

section \<open>Helpers\<close>

abbreviation nl :: string where "nl \<equiv> [CHR 0x0A]"
abbreviation crlf :: string where "crlf \<equiv> [CHR 0x0D, CHR 0x0A]"

definition http_Error :: "string \<Rightarrow> int \<Rightarrow> response_writer \<Rightarrow> response_writer" where
  "http_Error msg code w =
     write_body (msg @ nl)
       (WriteHeader code
         (set_header ''X-Content-Type-Options'' ''nosniff''
           (set_header ''Content-Type'' ''text/plain; charset=utf-8'' w)))"

definition NotFound :: "response_writer \<Rightarrow> response_writer" where
  "NotFound w = http_Error ''404 page not found'' 404 w"

text \<open>\<open>html.EscapeString\<close>: five characters are replaced.\<close>

definition escape_char :: "char \<Rightarrow> string" where
  "escape_char c =
     (if c = CHR ''&'' then ''&amp;''
      else if c = CHR 0x27 then ''&#39;''
      else if c = CHR ''<'' then ''&lt;''
      else if c = CHR ''>'' then ''&gt;''
      else if c = CHR 0x22 then ''&#34;''
      else [c])"

definition EscapeString :: "string \<Rightarrow> string" where
  "EscapeString s = concat (map escape_char s)"

text \<open>\<open>http.Redirect\<close> for an absolute path without a query, with status 303.\<close>

definition Redirect :: "request \<Rightarrow> string \<Rightarrow> response_writer \<Rightarrow> response_writer" where
  "Redirect r url w =
     (let u = Clean url;
          u' = (if HasSuffix url ''/'' \<and> \<not> HasSuffix u ''/'' then u @ ''/'' else u);
          hadCT = (rw_header w ''Content-Type'' \<noteq> None);
          w1 = set_header ''Location'' u' w;
          w2 = (if \<not> hadCT \<and> (Method r = ''GET'' \<or> Method r = ''HEAD'')
                then set_header ''Content-Type'' ''text/html; charset=utf-8'' w1 else w1);
          w3 = WriteHeader 303 w2
      in if \<not> hadCT \<and> Method r = ''GET''
         then write_body (''<a href='' @ [CHR 0x22] @ EscapeString u' @ [CHR 0x22] @ ''>See Other</a>.'' @ nl @ nl) w3
         else w3)"

record http_cookie =
  ck_Name :: string
  ck_Value :: string
  ck_Path :: string
  ck_MaxAge :: int
  ck_HttpOnly :: bool
  ck_Secure :: bool
  ck_SameSiteLax :: bool

definition validCookieValueByte :: "char \<Rightarrow> bool" where
  "validCookieValueByte c \<longleftrightarrow>
     (let n = (of_char c :: nat) in 32 \<le> n \<and> n < 127 \<and> n \<noteq> 34 \<and> n \<noteq> 59 \<and> n \<noteq> 92)"

definition sanitizeCookieValue :: "string \<Rightarrow> string" where
  "sanitizeCookieValue v =
     (let v' = filter validCookieValueByte v
      in if CHR '' '' \<in> set v' \<or> CHR '','' \<in> set v' then [CHR 0x22] @ v' @ [CHR 0x22] else v')"

definition cookie_String :: "http_cookie \<Rightarrow> string" where
  "cookie_String c =
     ck_Name c @ ''='' @ sanitizeCookieValue (ck_Value c)
     @ (if ck_Path c \<noteq> [] then ''; Path='' @ ck_Path c else [])
     @ (if 0 < ck_MaxAge c then ''; Max-Age='' @ FormatInt (ck_MaxAge c)
        else if ck_MaxAge c < 0 then ''; Max-Age=0'' else [])
     @ (if ck_HttpOnly c then ''; HttpOnly'' else [])
     @ (if ck_Secure c then ''; Secure'' else [])
     @ (if ck_SameSiteLax c then ''; SameSite=Lax'' else [])"

definition SetCookie :: "http_cookie \<Rightarrow> response_writer \<Rightarrow> response_writer" where
  "SetCookie c w = w\<lparr>rw_header := header_Add (rw_header w) ''Set-Cookie'' (cookie_String c)\<rparr>"

section \<open>Facts\<close>

lemma header_Get_Set [simp]: "header_Get (header_Set h k v) k' = (if k' = k then v else header_Get h k')"
  by (simp add: header_Get_def header_Set_def)

lemma header_Get_Del [simp]: "header_Get (header_Del h k) k' = (if k' = k then [] else header_Get h k')"
  by (simp add: header_Get_def header_Del_def)

lemma header_Get_empty [simp]: "header_Get (\<lambda>_. None) k = []"
  by (simp add: header_Get_def)

lemma header_Set_apply [simp]: "header_Set h k v k' = (if k' = k then Some [v] else h k')"
  by (simp add: header_Set_def)

lemma header_Del_apply [simp]: "header_Del h k k' = (if k' = k then None else h k')"
  by (simp add: header_Del_def)

lemma set_header_simps [simp]:
  "rw_header (set_header k v w) = header_Set (rw_header w) k v"
  "rw_sent (set_header k v w) = rw_sent w"
  "rw_contentLength (set_header k v w) = rw_contentLength w"
  "rw_written (set_header k v w) = rw_written w"
  "rw_body (set_header k v w) = rw_body w"
  by (simp_all add: set_header_def)

lemma del_header_simps [simp]:
  "rw_header (del_header k w) = header_Del (rw_header w) k"
  "rw_sent (del_header k w) = rw_sent w"
  "rw_contentLength (del_header k w) = rw_contentLength w"
  "rw_written (del_header k w) = rw_written w"
  "rw_body (del_header k w) = rw_body w"
  by (simp_all add: del_header_def)

lemma new_response_simps [simp]:
  "rw_header new_response = (\<lambda>_. None)"
  "rw_sent new_response = None"
  "rw_contentLength new_response = - 1"
  "rw_written new_response = 0"
  "rw_body new_response = []"
  by (simp_all add: new_response_def)

lemma rw_sent_WriteHeader [simp]:
  "rw_sent (WriteHeader c w) = (case rw_sent w of None \<Rightarrow> Some (c, rw_header w) | Some x \<Rightarrow> Some x)"
  by (simp add: WriteHeader_def Let_def split: option.splits)

lemma rw_body_WriteHeader [simp]: "rw_body (WriteHeader c w) = rw_body w"
  by (simp add: WriteHeader_def Let_def split: option.splits)

lemma rw_written_WriteHeader [simp]: "rw_written (WriteHeader c w) = rw_written w"
  by (simp add: WriteHeader_def Let_def split: option.splits)

lemma status_WriteHeader [simp]: "rw_sent w = None \<Longrightarrow> status (WriteHeader c w) = c"
  by (simp add: status_def)

lemma sent_header_WriteHeader [simp]: "rw_sent w = None \<Longrightarrow> sent_header (WriteHeader c w) = rw_header w"
  by (simp add: sent_header_def)

lemma rw_sent_write_body [simp]:
  "rw_sent (write_body b w) = (case rw_sent w of None \<Rightarrow> Some (200, rw_header w) | Some x \<Rightarrow> Some x)"
  by (simp add: write_body_def Let_def split: option.splits)

text \<open>What a write does to an already committed response.\<close>

lemma write_body_fits:
  assumes "rw_sent w = Some (c, h)" and "bodyAllowed c" and "rw_written w = 0"
    and "rw_contentLength w = - 1 \<or> int (length b) \<le> rw_contentLength w"
    and "in_i64 (int (length b))"
  shows "rw_body (write_body b w) = rw_body w @ b"
  using assms by (auto simp: write_body_def Let_def status_def)

lemma write_body_overflow:
  assumes "rw_sent w = Some (c, h)" and "rw_written w = 0"
    and "rw_contentLength w \<noteq> - 1" and "rw_contentLength w < int (length b)"
    and "in_i64 (int (length b))"
  shows "rw_body (write_body b w) = rw_body w"
  using assms by (auto simp: write_body_def Let_def status_def)

lemma write_body_not_allowed:
  "rw_sent w = Some (c, h) \<Longrightarrow> \<not> bodyAllowed c \<Longrightarrow> write_body b w = w"
  by (simp add: write_body_def Let_def status_def)

lemma status_write_body_sent [simp]:
  "rw_sent w = Some (c, h) \<Longrightarrow> status (write_body b w) = c"
  by (simp add: status_def)

lemma http_Error_sent [simp]:
  "rw_sent w = None \<Longrightarrow> rw_sent (http_Error m c w) =
     Some (c, header_Set (header_Set (rw_header w) ''Content-Type'' ''text/plain; charset=utf-8'')
              ''X-Content-Type-Options'' ''nosniff'')"
  by (simp add: http_Error_def)

lemma status_http_Error [simp]: "rw_sent w = None \<Longrightarrow> status (http_Error m c w) = c"
  by (simp add: status_def)

end
