(* ===== verification/Ranges.thy ===== *)
theory Ranges
  imports GoHttp
begin

text \<open>
  Byte ranges of \<open>src/proxy/fileserver.go\<close>: the parser of the \<open>Range\<close> header
  (\<open>parseRange\<close>), the strings a range is announced with, and the size and the bytes of a
  multipart response (\<open>rangesMIMESize\<close> against the goroutine of \<open>serveContent\<close> that
  streams the parts). The reference is RFC 7233: the grammar of the header (\<open>spells\<close>) and the meaning
  of abstract range specifications (\<open>resolve\<close>, \<open>resolve_all\<close>).
\<close>

section \<open>Definitions from the source\<close>

record httpRange =
  r_start :: int
  r_length :: int

datatype rangeErr = InvalidRange | NoOverlap

definition rangeErr_msg :: "rangeErr \<Rightarrow> string" where
  "rangeErr_msg e = (case e of InvalidRange \<Rightarrow> ''invalid range''
                     | NoOverlap \<Rightarrow> ''invalid range: failed to overlap'')"

text \<open>
  One element of the comma-separated list: skipped when blank, an error, out of the content
  (\<open>noOverlap\<close>), or a range.
\<close>

datatype elem = Blank | Bad | Outside | Range httpRange

definition parse_elem :: "string \<Rightarrow> int \<Rightarrow> elem" where
  "parse_elem ra0 sz =
     (let ra = TrimSpace ra0 in
      if ra = [] then Blank
      else case Cut ra CHR ''-'' of
        None \<Rightarrow> Bad
      | Some (s, e) \<Rightarrow>
          let start = TrimSpace s; stop = TrimSpace e in
          if start = [] then
            (case ParseInt64 stop of
               None \<Rightarrow> Bad
             | Some i0 \<Rightarrow>
                 let i = (if sz < i0 then sz else i0);
                     st = i64 (sz - i)
                 in Range \<lparr>r_start = st, r_length = i64 (sz - st)\<rparr>)
          else
            (case ParseInt64 start of
               None \<Rightarrow> Bad
             | Some i \<Rightarrow>
                 if i < 0 then Bad
                 else if sz \<le> i then Outside
                 else if stop = [] then Range \<lparr>r_start = i, r_length = i64 (sz - i)\<rparr>
                 else (case ParseInt64 stop of
                     None \<Rightarrow> Bad
                   | Some j0 \<Rightarrow>
                       if j0 < i then Bad
                       else let j = (if sz \<le> j0 then i64 (sz - 1) else j0)
                            in Range \<lparr>r_start = i, r_length = i64 (i64 (j - i) + 1)\<rparr>)))"

fun parse_list :: "string list \<Rightarrow> int \<Rightarrow> httpRange list \<Rightarrow> bool \<Rightarrow> rangeErr + httpRange list" where
  "parse_list [] sz ranges noOverlap =
     (if noOverlap \<and> ranges = [] then Inl NoOverlap else Inr ranges)"
| "parse_list (ra # ras) sz ranges noOverlap =
     (case parse_elem ra sz of
        Blank \<Rightarrow> parse_list ras sz ranges noOverlap
      | Bad \<Rightarrow> Inl InvalidRange
      | Outside \<Rightarrow> parse_list ras sz ranges True
      | Range r \<Rightarrow> parse_list ras sz (ranges @ [r]) noOverlap)"

definition parseRange :: "string \<Rightarrow> int \<Rightarrow> rangeErr + httpRange list" where
  "parseRange s sz =
     (if s = [] then Inr []
      else if \<not> HasPrefix s ''bytes='' then Inl InvalidRange
      else parse_list (Split (drop 6 s) CHR '','') sz [] False)"

definition contentRange :: "httpRange \<Rightarrow> int \<Rightarrow> string" where
  "contentRange r sz =
     ''bytes '' @ FormatInt (r_start r) @ ''-''
     @ FormatInt (i64 (i64 (r_start r + r_length r) - 1)) @ ''/'' @ FormatInt sz"

text \<open>A MIME header as the key-value pairs, in the sorted order \<open>CreatePart\<close> writes them.\<close>

definition mimeHeader :: "httpRange \<Rightarrow> string \<Rightarrow> int \<Rightarrow> (string \<times> string) list" where
  "mimeHeader r contentType sz =
     [(''Content-Range'', contentRange r sz), (''Content-Type'', contentType)]"

definition sumRangesSize :: "httpRange list \<Rightarrow> int" where
  "sumRangesSize ranges = foldl (\<lambda>sz r. i64 (sz + r_length r)) 0 ranges"

section \<open>Multipart encoding\<close>

text \<open>\<open>multipart.Writer\<close>: what \<open>CreatePart\<close> writes before a part, and what \<open>Close\<close> writes.\<close>

definition part_header :: "string \<Rightarrow> bool \<Rightarrow> (string \<times> string) list \<Rightarrow> bytes" where
  "part_header boundary first h =
     (if first then [] else crlf) @ ''--'' @ boundary @ crlf
     @ concat (map (\<lambda>(k, v). k @ '': '' @ v @ crlf) h) @ crlf"

definition part_close :: "string \<Rightarrow> bytes" where
  "part_close boundary = crlf @ ''--'' @ boundary @ ''--'' @ crlf"

text \<open>
  \<open>rangesMIMESize\<close> writes the part headers and the closing line into a \<open>countingWriter\<close>
  (an \<open>int64\<close> that adds the length of every write) and adds the range lengths.
\<close>

definition countingWriter_Write :: "int \<Rightarrow> bytes \<Rightarrow> int" where
  "countingWriter_Write w p = i64 (w + int (length p))"

fun mime_size_loop ::
  "httpRange list \<Rightarrow> string \<Rightarrow> int \<Rightarrow> string \<Rightarrow> bool \<Rightarrow> int \<Rightarrow> int \<Rightarrow> int \<times> int" where
  "mime_size_loop [] ct sz boundary first w encSize = (w, encSize)"
| "mime_size_loop (ra # ras) ct sz boundary first w encSize =
     mime_size_loop ras ct sz boundary False
       (countingWriter_Write w (part_header boundary first (mimeHeader ra ct sz)))
       (i64 (encSize + r_length ra))"

definition rangesMIMESize :: "httpRange list \<Rightarrow> string \<Rightarrow> int \<Rightarrow> string \<Rightarrow> int" where
  "rangesMIMESize ranges contentType contentSize boundary =
     (let (w, encSize) = mime_size_loop ranges contentType contentSize boundary True 0 0
      in i64 (encSize + countingWriter_Write w (part_close boundary)))"

text \<open>
  The goroutine that streams the parts: for each range it writes the part header, seeks and
  copies \<open>r_length\<close> bytes. \<open>None\<close> is a failed seek or a short copy, which closes the pipe
  with an error. \<open>io.CopyN\<close> with a count that is not positive copies nothing.
\<close>

definition copyN :: "bytes \<Rightarrow> int \<Rightarrow> int \<Rightarrow> bytes option" where
  "copyN content start n =
     (if start < 0 then None
      else let avail = drop (nat start) content
           in if n \<le> 0 then Some []
              else if int (length avail) < n then None
              else Some (take (nat n) avail))"

fun stream_parts ::
  "bytes \<Rightarrow> httpRange list \<Rightarrow> string \<Rightarrow> int \<Rightarrow> string \<Rightarrow> bool \<Rightarrow> bytes option" where
  "stream_parts content [] ct sz boundary first = Some (part_close boundary)"
| "stream_parts content (ra # ras) ct sz boundary first =
     (case copyN content (r_start ra) (r_length ra) of
        None \<Rightarrow> None
      | Some data \<Rightarrow>
          map_option (\<lambda>rest. part_header boundary first (mimeHeader ra ct sz) @ data @ rest)
            (stream_parts content ras ct sz boundary False))"

section \<open>Reference semantics of range requests\<close>

text \<open>
  A range specification of RFC 7233: an interval, an interval open to the end, or a suffix.
  \<open>resolve\<close> is its meaning on a content of the given size (section 2.1): \<open>None\<close> when it cannot be satisfied,
  which holds of a first position beyond the content and of a suffix of length zero. A set of specifications
  with an interval that ends before it begins is invalid.
\<close>

datatype byte_spec = FromTo int int | From int | LastN int

fun wf_spec :: "byte_spec \<Rightarrow> bool" where
  "wf_spec (FromTo a b) \<longleftrightarrow> 0 \<le> a \<and> a \<le> b \<and> in_i64 b"
| "wf_spec (From a) \<longleftrightarrow> 0 \<le> a \<and> in_i64 a"
| "wf_spec (LastN n) \<longleftrightarrow> 0 < n \<and> in_i64 n"

fun render :: "byte_spec \<Rightarrow> string" where
  "render (FromTo a b) = FormatInt a @ ''-'' @ FormatInt b"
| "render (From a) = FormatInt a @ ''-''"
| "render (LastN n) = ''-'' @ FormatInt n"

definition render_header :: "byte_spec list \<Rightarrow> string" where
  "render_header specs = ''bytes='' @ join '','' (map render specs)"

fun resolve :: "int \<Rightarrow> byte_spec \<Rightarrow> httpRange option" where
  "resolve sz (FromTo a b) =
     (if sz \<le> a then None else Some \<lparr>r_start = a, r_length = min b (sz - 1) - a + 1\<rparr>)"
| "resolve sz (From a) =
     (if sz \<le> a then None else Some \<lparr>r_start = a, r_length = sz - a\<rparr>)"
| "resolve sz (LastN n) =
     (if n = 0 then None else Some \<lparr>r_start = sz - min n sz, r_length = min n sz\<rparr>)"

fun disordered :: "byte_spec \<Rightarrow> bool" where
  "disordered (FromTo a b) \<longleftrightarrow> b < a"
| "disordered (From a) \<longleftrightarrow> False"
| "disordered (LastN n) \<longleftrightarrow> False"

definition resolve_all :: "int \<Rightarrow> byte_spec list \<Rightarrow> rangeErr + httpRange list" where
  "resolve_all sz specs =
     (let rs = List.map_filter (resolve sz) specs
      in if \<exists>sp \<in> set specs. disordered sp then Inl InvalidRange
         else if specs \<noteq> [] \<and> rs = [] then Inl NoOverlap else Inr rs)"






definition range_within :: "int \<Rightarrow> httpRange \<Rightarrow> bool" where
  "range_within sz r \<longleftrightarrow> 0 \<le> r_start r \<and> 0 \<le> r_length r \<and> r_start r + r_length r \<le> sz"

section \<open>White space and numerals\<close>

lemma trim_left_id:
  assumes "\<And>w. w \<in> set ws \<Longrightarrow> w \<noteq> [] \<Longrightarrow> hd w \<notin> set s"
  shows "trim_left ws s = s"
proof -
  have "find (\<lambda>w. w \<noteq> [] \<and> HasPrefix s w) ws = None"
    unfolding find_None_iff
  proof (intro notI, elim exE conjE)
    fix w assume w: "w \<in> set ws" "w \<noteq> []" "HasPrefix s w"
    then obtain r where "s = w @ r" by (auto simp: HasPrefix_iff)
    with w(2) have "hd w \<in> set s" by simp
    with assms w show False by blast
  qed
  then show ?thesis by (subst trim_left.simps) simp
qed





abbreviation num_chars :: string where "num_chars \<equiv> ''-0123456789''"

lemma spaces_heads:
  "list_all (\<lambda>w. hd w \<notin> set num_chars \<and> last w \<notin> set num_chars \<and> w \<noteq> [])
     (ascii_spaces @ unicode_spaces)"
  by code_simp

lemma TrimSpace_num: "set s \<subseteq> set num_chars \<Longrightarrow> TrimSpace s = s"
proof -
  assume s: "set s \<subseteq> set num_chars"
  have heads: "hd w \<notin> set s \<and> last w \<notin> set s \<and> w \<noteq> []"
    if "w \<in> set (ascii_spaces @ unicode_spaces)" for w
    using spaces_heads s that unfolding list_all_iff by blast
  have 1: "trim_left (ascii_spaces @ unicode_spaces) s = s"
    using heads by (intro trim_left_id) auto
  have "trim_left (map rev (ascii_spaces @ unicode_spaces)) (rev s) = rev s"
  proof (rule trim_left_id)
    fix w assume "w \<in> set (map rev (ascii_spaces @ unicode_spaces))"
    then obtain v where v: "v \<in> set (ascii_spaces @ unicode_spaces)" and w: "w = rev v"
      by (auto simp del: map_append)
    from heads [OF v] w show "hd w \<notin> set (rev s)" by (simp add: hd_rev)
  qed
  then show ?thesis by (simp add: TrimSpace_def trim_right_def 1 del: map_append)
qed


lemma TrimSpace_FormatInt [simp]: "TrimSpace (FormatInt x) = FormatInt x"
  by (rule TrimSpace_num [OF set_FormatInt])

lemma TrimSpace_Nil [simp]: "TrimSpace [] = []"
  by (rule TrimSpace_num) simp

lemma FormatInt_no_dash: "0 \<le> a \<Longrightarrow> CHR ''-'' \<notin> set (FormatInt a)"
  using set_dec [of a] by (auto simp: FormatInt_def)

lemma Cut_dash [simp]:
  "0 \<le> a \<Longrightarrow> Cut (FormatInt a @ CHR ''-'' # t) CHR ''-'' = Some (FormatInt a, t)"
  by (simp add: FormatInt_no_dash)

lemma set_render: "set (render sp) \<subseteq> set num_chars"
  using set_FormatInt by (cases sp) force+

lemma TrimSpace_render [simp]: "TrimSpace (render sp) = render sp"
  by (rule TrimSpace_num [OF set_render])

lemma render_not_Nil [simp]: "render sp \<noteq> []"
  by (cases sp) auto

section \<open>The parser against the reference semantics\<close>

lemma parse_elem_render:
  assumes "0 \<le> sz" and "in_i64 sz" and "wf_spec sp"
  shows "parse_elem (render sp) sz = (case resolve sz sp of None \<Rightarrow> Outside | Some r \<Rightarrow> Range r)"
proof (cases sp)
  case (FromTo a b)
  with assms have ab: "0 \<le> a" "a \<le> b" "in_i64 a" "in_i64 b"
    by (auto simp: in_i64_def)
  have "i64 (i64 ((if sz \<le> b then i64 (sz - 1) else b) - a) + 1) = min b (sz - 1) - a + 1"
    if "\<not> sz \<le> a"
    using that assms ab by (auto simp: in_i64_def)
  with FromTo ab show ?thesis
    by (simp add: parse_elem_def Let_def ParseInt64_FormatInt TrimSpace_render [of "FromTo a b", simplified])
next
  case (From a)
  with assms have a: "0 \<le> a" "in_i64 a" by auto
  have "i64 (sz - a) = sz - a" if "\<not> sz \<le> a"
    using that assms a by (simp add: in_i64_def)
  with From a show ?thesis
    by (simp add: parse_elem_def Let_def ParseInt64_FormatInt TrimSpace_render [of "From a", simplified])
next
  case (LastN n)
  with assms have n: "0 < n" "in_i64 n" by auto
  have "i64 (sz - min n sz) = sz - min n sz" "i64 (min n sz) = min n sz"
    using assms n by (auto simp: in_i64_def intro!: i64_id)
  with LastN n assms show ?thesis
    by (simp add: parse_elem_def Let_def ParseInt64_FormatInt TrimSpace_render [of "LastN n", simplified]
        min_def) auto
qed

lemma parse_list_render:
  assumes "0 \<le> sz" and "in_i64 sz" and "\<And>sp. sp \<in> set specs \<Longrightarrow> wf_spec sp"
  shows "parse_list (map render specs) sz acc no =
    (let rs = acc @ List.map_filter (resolve sz) specs
     in if (no \<or> (\<exists>sp \<in> set specs. resolve sz sp = None)) \<and> rs = [] then Inl NoOverlap else Inr rs)"
  using assms(3)
proof (induction specs arbitrary: acc no)
  case Nil
  then show ?case by (simp add: map_filter_simps)
next
  case (Cons sp specs)
  then have "parse_elem (render sp) sz = (case resolve sz sp of None \<Rightarrow> Outside | Some r \<Rightarrow> Range r)"
    by (intro parse_elem_render [OF assms(1,2)]) simp
  with Cons show ?case by (cases "resolve sz sp") (auto simp: map_filter_simps Let_def)
qed

lemma map_filter_all_None:
  "List.map_filter f xs = [] \<Longrightarrow> x \<in> set xs \<Longrightarrow> f x = None"
  by (induction xs) (auto simp: map_filter_simps split: option.splits)

lemma wf_spec_ordered: "wf_spec sp \<Longrightarrow> \<not> disordered sp"
  by (cases sp) auto

lemma parseRange_correct_lemma:
  assumes "0 \<le> sz" and "in_i64 sz" and "specs \<noteq> []"
    and "\<And>sp. sp \<in> set specs \<Longrightarrow> wf_spec sp"
  shows "parseRange (render_header specs) sz = resolve_all sz specs"
proof -
  have no_comma: "CHR '','' \<notin> set w" if "w \<in> set (map render specs)" for w
    using that set_render by force
  have "Split (join '','' (map render specs)) CHR '','' = map render specs"
    using assms(3) no_comma by (intro Split_join) auto
  moreover have "(\<exists>sp \<in> set specs. resolve sz sp = None) \<or> List.map_filter (resolve sz) specs \<noteq> []"
    using assms(3) map_filter_all_None [of "resolve sz" specs] by (cases specs) auto
  moreover have "\<not> disordered sp" if "sp \<in> set specs" for sp using assms(4) [OF that] by (rule wf_spec_ordered)
  ultimately show ?thesis
    using parse_list_render [OF assms(1,2,4), of specs "[]" False] assms(3)
    by (auto simp: parseRange_def render_header_def resolve_all_def Let_def HasPrefix_def)
qed














section \<open>Every parsed range lies in the content\<close>

lemma parse_elem_bounds:
  assumes "0 \<le> sz" and "in_i64 sz" and "parse_elem ra sz = Range r"
  shows "range_within sz r \<or> r_length r < 0"
proof -
  have suffix: "range_within sz \<lparr>r_start = i64 (sz - i), r_length = i64 (sz - i64 (sz - i))\<rparr>
                \<or> i64 (sz - i64 (sz - i)) < 0"
    if "in_i64 i" "i \<le> sz" for i
  proof (cases "0 \<le> i")
    case True
    with assms that have "i64 (sz - i) = sz - i" by (simp add: in_i64_def)
    with True assms that show ?thesis by (simp add: range_within_def)
  next
    case False
    have "i64 (sz - i64 (sz - i)) = i"
      using that(1) by simp
    with False show ?thesis by simp
  qed
  from assms show ?thesis
    by (auto simp: parse_elem_def Let_def range_within_def in_i64_def
        split: if_splits option.splits prod.splits
        dest!: ParseInt64_in_i64 intro: suffix)
qed

lemma parse_list_bounds:
  assumes "0 \<le> sz" and "in_i64 sz"
  shows "(\<And>r. r \<in> set acc \<Longrightarrow> range_within sz r \<or> r_length r < 0) \<Longrightarrow>
         parse_list ras sz acc no = Inr rs \<Longrightarrow> r \<in> set rs \<Longrightarrow>
         range_within sz r \<or> r_length r < 0"
proof (induction ras arbitrary: acc no)
  case (Cons ra ras)
  show ?case
  proof (cases "parse_elem ra sz")
    case (Range q)
    with parse_elem_bounds [OF assms this] Cons.prems show ?thesis
      by (intro Cons.IH [of "acc @ [q]" no]) auto
  qed (use Cons in \<open>auto\<close>)
qed (auto split: if_splits)

text \<open>
  For every \<open>Range\<close> header the parser accepts, each range it returns lies inside the
  content, except for the ranges of negative length that a suffix written with a minus sign
  produces.
\<close>

theorem parseRange_bounds:
  assumes "0 \<le> sz" and "in_i64 sz" and "parseRange s sz = Inr rs" and "r \<in> set rs"
  shows "range_within sz r \<or> r_length r < 0"
  using assms(3,4) parse_list_bounds [OF assms(1,2), of "[]" "Split (drop 6 s) CHR '',''" False rs r]
  by (auto simp: parseRange_def split: if_splits)

theorem parseRange_bounds_witness:
  "parseRange ''bytes= 2-100 , -3'' 10 =
     Inr [\<lparr>r_start = 2, r_length = 8\<rparr>, \<lparr>r_start = 7, r_length = 3\<rparr>]
   \<and> (range_within 10 \<lparr>r_start = 2, r_length = 8\<rparr> \<or> r_length \<lparr>r_start = 2, r_length = 8\<rparr> < 0)"
proof
  show 1: "parseRange ''bytes= 2-100 , -3'' 10 =
     Inr [\<lparr>r_start = 2, r_length = 8\<rparr>, \<lparr>r_start = 7, r_length = 3\<rparr>]"
    by code_simp
  show "range_within 10 \<lparr>r_start = 2, r_length = 8\<rparr> \<or> r_length \<lparr>r_start = 2, r_length = 8\<rparr> < 0"
    by (rule parseRange_bounds [OF _ _ 1]) (simp_all add: in_i64_def)
qed

text \<open>
  A suffix written with a minus sign is accepted although RFC 7233 has no such form: the
  range starts past the end of the content and has a negative length.
\<close>

theorem parseRange_negative_suffix:
  assumes "0 \<le> sz" and "0 < n" and "in_i64 (sz + n)"
  shows "parseRange (''bytes=--'' @ FormatInt n) sz = Inr [\<lparr>r_start = sz + n, r_length = - n\<rparr>]"
proof -
  have n: "in_i64 (- n)" using assms by (auto simp: in_i64_def)
  have f: "CHR ''-'' # FormatInt n = FormatInt (- n)"
    using assms(2) by (simp add: FormatInt_def)
  have t: "TrimSpace (CHR ''-'' # FormatInt (- n)) = CHR ''-'' # FormatInt (- n)"
    using set_FormatInt [of "- n"] by (intro TrimSpace_num) auto
  have "CHR '','' \<notin> set (CHR ''-'' # CHR ''-'' # FormatInt n)"
    using set_FormatInt [of n] by auto
  then have "Split (drop 6 (''bytes=--'' @ FormatInt n)) CHR '','' = [CHR ''-'' # CHR ''-'' # FormatInt n]"
    by (simp add: Split_no)
  moreover have "parse_elem (CHR ''-'' # CHR ''-'' # FormatInt n) sz =
      Range \<lparr>r_start = sz + n, r_length = - n\<rparr>"
    using assms n by (simp add: parse_elem_def t f ParseInt64_FormatInt Let_def)
  ultimately show ?thesis by (simp add: parseRange_def HasPrefix_def)
qed

theorem parseRange_negative_suffix_witness:
  "parseRange (''bytes=--'' @ FormatInt 5) 10 = Inr [\<lparr>r_start = 15, r_length = - 5\<rparr>]"
  using parseRange_negative_suffix [of 10 5] by (simp add: in_i64_def)

section \<open>The announced size of a multipart response is the size of its body\<close>

fun headers_len :: "httpRange list \<Rightarrow> string \<Rightarrow> int \<Rightarrow> string \<Rightarrow> bool \<Rightarrow> int" where
  "headers_len [] ct sz boundary first = 0"
| "headers_len (ra # ras) ct sz boundary first =
     int (length (part_header boundary first (mimeHeader ra ct sz)))
     + headers_len ras ct sz boundary False"

lemma mime_size_loop_eq:
  "mime_size_loop ras ct sz boundary first (i64 w) (i64 e) =
     (i64 (w + headers_len ras ct sz boundary first), i64 (e + sum_list (map r_length ras)))"
  by (induction ras arbitrary: first w e)
    (simp_all add: countingWriter_Write_def ac_simps)

lemma rangesMIMESize_eq:
  "rangesMIMESize rs ct sz boundary =
     i64 (sum_list (map r_length rs) + headers_len rs ct sz boundary True
          + int (length (part_close boundary)))"
  using mime_size_loop_eq [of rs ct sz boundary True 0 0]
  by (simp add: rangesMIMESize_def countingWriter_Write_def i64_def [of 0] ac_simps)

lemma part_header_length:
  "length b = length b' \<Longrightarrow> length (part_header b first h) = length (part_header b' first h)"
  by (simp add: part_header_def)

lemma headers_len_boundary:
  "length b = length b' \<Longrightarrow> headers_len rs ct sz b first = headers_len rs ct sz b' first"
  by (induction rs arbitrary: first) (simp_all add: part_header_length [of b b'])

lemma copyN_within:
  assumes "range_within sz r" and "sz = int (length content)"
  shows "copyN content (r_start r) (r_length r) =
           Some (take (nat (r_length r)) (drop (nat (r_start r)) content))"
  using assms by (auto simp: copyN_def range_within_def Let_def)

lemma stream_parts_length:
  assumes "sz = int (length content)" and "\<And>r. r \<in> set rs \<Longrightarrow> range_within sz r"
  shows "\<exists>body. stream_parts content rs ct sz boundary first = Some body \<and>
    int (length body) = sum_list (map r_length rs) + headers_len rs ct sz boundary first
                        + int (length (part_close boundary))"
  using assms(2)
proof (induction rs arbitrary: first)
  case (Cons r rs)
  then obtain rest where rest: "stream_parts content rs ct sz boundary False = Some rest"
    "int (length rest) = sum_list (map r_length rs) + headers_len rs ct sz boundary False
                         + int (length (part_close boundary))"
    by auto
  have r: "range_within sz r" using Cons.prems by simp
  then have "int (length (take (nat (r_length r)) (drop (nat (r_start r)) content))) = r_length r"
    using assms(1) by (auto simp: range_within_def)
  with rest copyN_within [OF r assms(1)] show ?case by simp
qed simp

lemma rangesMIMESize_exact_lemma:
  assumes "sz = int (length content)" and "\<And>r. r \<in> set rs \<Longrightarrow> range_within sz r"
    and "length boundary = length boundary'"
  shows "\<exists>body. stream_parts content rs ct sz boundary True = Some body \<and>
    rangesMIMESize rs ct sz boundary' = i64 (int (length body))"
proof -
  have "int (length (part_close boundary)) = int (length (part_close boundary'))"
    using assms(3) by (simp add: part_close_def)
  with stream_parts_length [OF assms(1,2), of rs ct boundary True]
    headers_len_boundary [OF assms(3), of rs ct sz True]
  show ?thesis by (auto simp: rangesMIMESize_eq)
qed

text \<open>
  For ranges inside the content, streaming the multipart response succeeds and produces
  exactly as many bytes as \<open>rangesMIMESize\<close> announces (in 64-bit arithmetic), although the
  two use different boundaries, of equal length.
\<close>

theorem rangesMIMESize_exact:
  assumes "sz = int (length content)" and "\<And>r. r \<in> set rs \<Longrightarrow> range_within sz r"
    and "length boundary = length boundary'"
  shows "\<exists>body. stream_parts content rs ct sz boundary True = Some body \<and>
    rangesMIMESize rs ct sz boundary' = i64 (int (length body))"
  using assms by (rule rangesMIMESize_exact_lemma)

theorem rangesMIMESize_exact_witness:
  "\<exists>body. stream_parts ''0123456789'' [\<lparr>r_start = 0, r_length = 2\<rparr>, \<lparr>r_start = 8, r_length = 2\<rparr>]
       ''text/plain'' 10 ''aa'' True = Some body \<and>
    rangesMIMESize [\<lparr>r_start = 0, r_length = 2\<rparr>, \<lparr>r_start = 8, r_length = 2\<rparr>] ''text/plain'' 10 ''bb''
      = i64 (int (length body))"
  by (rule rangesMIMESize_exact) (auto simp: range_within_def)

section \<open>Sum of the ranges\<close>

lemma sumRangesSize_eq: "sumRangesSize rs = i64 (sum_list (map r_length rs))"
proof -
  have "foldl (\<lambda>s r. i64 (s + r_length r)) (i64 a) rs = i64 (a + sum_list (map r_length rs))" for a
    by (induction rs arbitrary: a) (simp_all add: ac_simps)
  from this [of 0] show ?thesis by (simp add: sumRangesSize_def i64_def [of 0])
qed

lemma sumRangesSize_single [simp]: "in_i64 (r_length r) \<Longrightarrow> sumRangesSize [r] = r_length r"
  by (simp add: sumRangesSize_eq)

end
