(* ===== verification/Preconditions.thy ===== *)
theory Preconditions
  imports GoHttp
begin

text \<open>
  Conditional requests of \<open>src/proxy/fileserver.go\<close>: entity tags, the five conditional
  headers and \<open>checkPreconditions\<close>. The loops over the entity-tag lists are recursive
  functions with termination proofs. \<open>checkIfNoneMatch\<close> can panic (it reads the byte after
  a comma without looking whether there is one), so the functions from there on return
  \<open>res\<close>. The reference semantics of an entity-tag list is in terms of a datatype of tags.
\<close>

section \<open>Definitions from the source\<close>

definition get :: "header \<Rightarrow> string \<Rightarrow> string" where
  "get h key = (case h key of Some v \<Rightarrow> if 0 < length v then v ! 0 else [] | None \<Rightarrow> [])"

abbreviation quote :: char where "quote \<equiv> CHR 0x22"

text \<open>Character values allowed in entity tags.\<close>

definition etag_char :: "char \<Rightarrow> bool" where
  "etag_char c \<longleftrightarrow> (let n = (of_char c :: nat) in n = 33 \<or> 35 \<le> n \<and> n \<le> 126 \<or> 128 \<le> n)"

text \<open>The scan loop: \<open>acc\<close> is what was read, from the start of the string.\<close>

fun scan_loop :: "string \<Rightarrow> string \<Rightarrow> string \<times> string" where
  "scan_loop acc [] = ([], [])"
| "scan_loop acc (c # s) =
     (if etag_char c then scan_loop (acc @ [c]) s
      else if c = quote then (acc @ [c], s)
      else ([], []))"

definition scanETag :: "string \<Rightarrow> string \<times> string" where
  "scanETag s0 =
     (let s = TrimString s0;
          start = (if HasPrefix s ''W/'' then 2 else 0)
      in if length (drop start s) < 2 \<or> s ! start \<noteq> quote then ([], [])
         else scan_loop (take (start + 1) s) (drop (start + 1) s))"

definition etagStrongMatch :: "string \<Rightarrow> string \<Rightarrow> bool" where
  "etagStrongMatch a b \<longleftrightarrow> a = b \<and> a \<noteq> [] \<and> a ! 0 = quote"

definition etagWeakMatch :: "string \<Rightarrow> string \<Rightarrow> bool" where
  "etagWeakMatch a b \<longleftrightarrow> TrimPrefix a ''W/'' = TrimPrefix b ''W/''"

datatype condResult = condNone | condTrue | condFalse

lemma scan_loop_length: "scan_loop acc s = (e, r) \<Longrightarrow> e \<noteq> [] \<Longrightarrow> length r < length s"
  by (induction acc s rule: scan_loop.induct) (auto split: if_splits)

lemma scanETag_length: "scanETag s = (e, r) \<Longrightarrow> e \<noteq> [] \<Longrightarrow> length r < length s"
proof -
  assume s: "scanETag s = (e, r)" and e: "e \<noteq> []"
  from s e obtain k where "scan_loop (take k (TrimString s)) (drop k (TrimString s)) = (e, r)"
    by (auto simp: scanETag_def Let_def split: if_splits)
  from scan_loop_length [OF this e] length_TrimString [of s] show ?thesis by simp
qed

function ifMatch_loop :: "string \<Rightarrow> string \<Rightarrow> condResult" where
  "ifMatch_loop etagHdr im0 =
     (let im = TrimString im0 in
      if im = [] then condFalse
      else if im ! 0 = CHR '','' then ifMatch_loop etagHdr (tl im)
      else if im ! 0 = CHR ''*'' then condTrue
      else case scanETag im of (etag, remain) \<Rightarrow>
        if etag = [] then condFalse
        else if etagStrongMatch etag etagHdr then condTrue
        else ifMatch_loop etagHdr remain)"
  by pat_completeness auto
termination
proof (relation "measure (\<lambda>(_, s). length s)", goal_cases)
  case (2 etagHdr im0 im)
  then have "0 < length im" and "length im \<le> length im0"
    using length_TrimString [of im0] by auto
  then have "length im - 1 < length im0" by linarith
  then show ?case by simp
next
  case (3 etagHdr im0 im etag remain)
  then show ?case using length_TrimString [of im0] scanETag_length [of im etag remain] by auto
qed simp

declare ifMatch_loop.simps [simp del]

definition checkIfMatch :: "response_writer \<Rightarrow> request \<Rightarrow> condResult" where
  "checkIfMatch w r =
     (let im = header_Get (req_Header r) ''If-Match'' in
      if im = [] then condNone else ifMatch_loop (get (rw_header w) ''Etag'') im)"

definition isZeroTime :: "instant \<Rightarrow> bool" where
  "isZeroTime t \<longleftrightarrow> t = zeroTime \<or> t = 0"

definition checkIfUnmodifiedSince :: "weblib \<Rightarrow> request \<Rightarrow> instant \<Rightarrow> condResult" where
  "checkIfUnmodifiedSince lib r modtime =
     (let ius = header_Get (req_Header r) ''If-Unmodified-Since'' in
      if ius = [] \<or> isZeroTime modtime then condNone
      else case ParseTime lib ius of
          Some t \<Rightarrow> if modtime < t + second then condTrue else condFalse
        | None \<Rightarrow> condNone)"

function ifNoneMatch_loop :: "string \<Rightarrow> string \<Rightarrow> condResult res" where
  "ifNoneMatch_loop etagHdr buf0 =
     (let buf1 = TrimString buf0 in
      if buf1 = [] then Returns condTrue
      else let buf = (if buf1 ! 0 = CHR '','' then tl buf1 else buf1) in
        if buf = [] then Panics
        else if buf ! 0 = CHR ''*'' then Returns condFalse
        else case scanETag buf of (etag, remain) \<Rightarrow>
          if etag = [] then Returns condTrue
          else if etagWeakMatch etag etagHdr then Returns condFalse
          else ifNoneMatch_loop etagHdr remain)"
  by pat_completeness auto
termination
proof (relation "measure (\<lambda>(_, s). length s)", goal_cases)
  case (2 etagHdr buf0 buf1 buf etag remain)
  then have "length remain < length buf"
    using scanETag_length [of buf etag remain] by auto
  also have "length buf \<le> length buf1" using 2 by auto
  also have "length buf1 \<le> length buf0" using 2 length_TrimString [of buf0] by simp
  finally show ?case by simp
qed simp

declare ifNoneMatch_loop.simps [simp del]

definition checkIfNoneMatch :: "response_writer \<Rightarrow> request \<Rightarrow> condResult res" where
  "checkIfNoneMatch w r =
     (let inm = get (req_Header r) ''If-None-Match'' in
      if inm = [] then Returns condNone else ifNoneMatch_loop (get (rw_header w) ''Etag'') inm)"

definition checkIfModifiedSince :: "weblib \<Rightarrow> request \<Rightarrow> instant \<Rightarrow> condResult" where
  "checkIfModifiedSince lib r modtime =
     (if Method r \<noteq> ''GET'' \<and> Method r \<noteq> ''HEAD'' then condNone
      else let ims = header_Get (req_Header r) ''If-Modified-Since'' in
        if ims = [] \<or> isZeroTime modtime then condNone
        else case ParseTime lib ims of
            None \<Rightarrow> condNone
          | Some t \<Rightarrow> if modtime < t + second then condFalse else condTrue)"

definition checkIfRange :: "weblib \<Rightarrow> response_writer \<Rightarrow> request \<Rightarrow> instant \<Rightarrow> condResult" where
  "checkIfRange lib w r modtime =
     (if Method r \<noteq> ''GET'' \<and> Method r \<noteq> ''HEAD'' then condNone
      else let ir = get (req_Header r) ''If-Range'' in
        if ir = [] then condNone
        else let etag = fst (scanETag ir) in
          if etag \<noteq> [] then
            (if etagStrongMatch etag (header_Get (rw_header w) ''Etag'') then condTrue else condFalse)
          else if modtime = zeroTime then condFalse
          else case ParseTime lib ir of
              None \<Rightarrow> condFalse
            | Some t \<Rightarrow> if Unix t = Unix modtime then condTrue else condFalse)"

definition setLastModified :: "weblib \<Rightarrow> instant \<Rightarrow> response_writer \<Rightarrow> response_writer" where
  "setLastModified lib modtime w =
     (if \<not> isZeroTime modtime then set_header ''Last-Modified'' (FormatTime lib modtime) w else w)"

definition writeNotModified :: "response_writer \<Rightarrow> response_writer" where
  "writeNotModified w =
     (let w1 = del_header ''Content-Length'' (del_header ''Content-Type'' w);
          w2 = (if header_Get (rw_header w1) ''Etag'' \<noteq> [] then del_header ''Last-Modified'' w1 else w1)
      in WriteHeader 304 w2)"

text \<open>The result is the writer, whether the response is done, and the effective range header.\<close>

definition checkPreconditions ::
  "weblib \<Rightarrow> response_writer \<Rightarrow> request \<Rightarrow> instant \<Rightarrow> (response_writer \<times> bool \<times> string) res" where
  "checkPreconditions lib w r modtime =
     (let ch0 = checkIfMatch w r;
          ch = (if ch0 = condNone then checkIfUnmodifiedSince lib r modtime else ch0)
      in if ch = condFalse then Returns (WriteHeader 412 w, True, [])
         else bind_res (checkIfNoneMatch w r) (\<lambda>c.
           if c = condFalse then
             (if Method r = ''GET'' \<or> Method r = ''HEAD''
              then Returns (writeNotModified w, True, [])
              else Returns (WriteHeader 412 w, True, []))
           else if c = condNone \<and> checkIfModifiedSince lib r modtime = condFalse
             then Returns (writeNotModified w, True, [])
           else
             (let rangeHeader = get (req_Header r) ''Range''
              in if rangeHeader \<noteq> [] \<and> checkIfRange lib w r modtime = condFalse
                 then Returns (w, False, []) else Returns (w, False, rangeHeader))))"

section \<open>Reference semantics of entity-tag lists\<close>

datatype etag = ETag (weak: bool) (opaque: string)

definition wf_etag :: "etag \<Rightarrow> bool" where
  "wf_etag e \<longleftrightarrow> list_all etag_char (opaque e)"

definition render_etag :: "etag \<Rightarrow> string" where
  "render_etag e = (if weak e then ''W/'' else []) @ [quote] @ opaque e @ [quote]"

definition render_etags :: "etag list \<Rightarrow> string" where
  "render_etags es = join '', '' (map render_etag es)"

definition strong_eq :: "etag \<Rightarrow> etag \<Rightarrow> bool" where
  "strong_eq a b \<longleftrightarrow> a = b \<and> \<not> weak a"

definition weak_eq :: "etag \<Rightarrow> etag \<Rightarrow> bool" where
  "weak_eq a b \<longleftrightarrow> opaque a = opaque b"


section \<open>Scanning one entity tag\<close>

lemma TrimString_id:
  "s \<noteq> [] \<Longrightarrow> \<not> isASCIISpace (hd s) \<Longrightarrow> \<not> isASCIISpace (last s) \<Longrightarrow> TrimString s = s"
proof -
  assume s: "s \<noteq> []" "\<not> isASCIISpace (hd s)" "\<not> isASCIISpace (last s)"
  then have "dropWhile isASCIISpace s = s" and "dropWhile isASCIISpace (rev s) = rev s"
    using hd_rev [of s] by (simp_all add: dropWhile_eq_self_iff)
  then show ?thesis by (simp add: TrimString_def)
qed

lemma TrimString_Cons_space [simp]: "TrimString (CHR '' '' # s) = TrimString s"
  by (simp add: TrimString_def isASCIISpace_def)

lemma TrimString_Nil [simp]: "TrimString [] = []"
  by (simp add: TrimString_def)

lemma quote_not_etag_char [simp]: "\<not> etag_char quote"
  by code_simp

lemma scan_loop_text:
  "list_all etag_char t \<Longrightarrow> scan_loop acc (t @ quote # rest) = (acc @ t @ [quote], rest)"
  by (induction t arbitrary: acc) auto

lemma not_space_heads [simp]:
  "\<not> isASCIISpace quote" "\<not> isASCIISpace CHR ''W''" "\<not> isASCIISpace CHR '',''"
  by (simp_all add: isASCIISpace_def)

lemma render_etag_hd: "hd (render_etag e @ z) = (if weak e then CHR ''W'' else quote)"
  by (simp add: render_etag_def)

lemma render_etag_not_Nil [simp]: "render_etag e \<noteq> []"
  by (simp add: render_etag_def)

text \<open>Text that may follow a tag in a header value: empty, or not ending in white space.\<close>

definition tail_ok :: "string \<Rightarrow> bool" where
  "tail_ok z \<longleftrightarrow> z = [] \<or> \<not> isASCIISpace (last z)"

lemma tail_ok_render: "tail_ok z \<Longrightarrow> tail_ok (render_etag e @ z)"
  by (auto simp: tail_ok_def render_etag_def)

lemma TrimString_render:
  "tail_ok z \<Longrightarrow> TrimString (render_etag e @ z) = render_etag e @ z"
  by (rule TrimString_id) (auto simp: render_etag_hd, auto simp: tail_ok_def render_etag_def split: if_splits)

lemma scanETag_render [simp]:
  assumes "wf_etag e" and "tail_ok z"
  shows "scanETag (render_etag e @ z) = (render_etag e, z)"
  using assms scan_loop_text [of "opaque e" _ z]
  by (cases "weak e")
    (simp_all add: scanETag_def Let_def TrimString_render HasPrefix_def wf_etag_def,
     simp_all add: render_etag_def)

lemma scanETag_space [simp]: "scanETag (CHR '' '' # s) = scanETag s"
  by (simp add: scanETag_def)

section \<open>Entity-tag lists\<close>

lemma render_etags_Cons:
  "render_etags (e # es) = render_etag e @ (if es = [] then [] else '', '' @ render_etags es)"
  by (simp add: render_etags_def join_Cons)

lemma render_etags_not_Nil [simp]: "es \<noteq> [] \<Longrightarrow> render_etags es \<noteq> []"
  by (cases es) (simp_all add: render_etags_Cons)

lemma tail_ok_list: "tail_ok z \<Longrightarrow> es \<noteq> [] \<Longrightarrow> tail_ok (render_etags es @ z)"
proof (induction es)
  case (Cons e es)
  then show ?case
    by (cases "es = []") (auto simp: render_etags_Cons tail_ok_render tail_ok_def render_etag_def)
qed simp

text \<open>
  The contract both list loops satisfy: a tag at the front is compared and, unless it
  matches, the loop goes on with the text after it; a comma and a space before a tag are
  skipped.
\<close>

locale tag_list =
  fixes walk :: "string \<Rightarrow> 'r"
    and hit :: "string \<Rightarrow> bool"
    and found :: 'r
  assumes walk_tag: "wf_etag e \<Longrightarrow> tail_ok z \<Longrightarrow>
      walk (render_etag e @ z) = (if hit (render_etag e) then found else walk z)"
    and walk_sep: "wf_etag e \<Longrightarrow> tail_ok z \<Longrightarrow>
      walk ('', '' @ render_etag e @ z) = walk (render_etag e @ z)"
begin

lemma walk_tags:
  assumes "tail_ok z" and "es \<noteq> []" and "list_all wf_etag es"
  shows "walk (render_etags es @ z) =
    (if \<exists>e \<in> set es. hit (render_etag e) then found else walk z)"
  using assms(2,3)
proof (induction es)
  case (Cons e es)
  show ?case
  proof (cases "es = []")
    case True
    with Cons.prems walk_tag [of e z] assms(1) show ?thesis by (simp add: render_etags_Cons)
  next
    case False
    let ?rest = "'', '' @ render_etags es @ z"
    have ok: "tail_ok (render_etags es @ z)" by (rule tail_ok_list [OF assms(1) False])
    then have "tail_ok ?rest" using False by (auto simp: tail_ok_def)
    with Cons.prems walk_tag [of e ?rest]
    have head: "walk (render_etags (e # es) @ z) = (if hit (render_etag e) then found else walk ?rest)"
      using False by (simp add: render_etags_Cons)
    obtain d ds where es: "es = d # ds" using False by (cases es) auto
    have "tail_ok ((if ds = [] then [] else '', '' @ render_etags ds) @ z)"
      using ok assms(1) tail_ok_list [OF assms(1), of ds] by (auto simp: tail_ok_def)
    with Cons.prems walk_sep [of d "(if ds = [] then [] else '', '' @ render_etags ds) @ z"]
    have "walk ?rest = walk (render_etags es @ z)"
      by (simp add: es render_etags_Cons)
    with head Cons False show ?thesis by simp
  qed
qed simp

end

lemma render_nth: "(render_etag e @ z) ! 0 = (if weak e then CHR ''W'' else quote)"
  by (simp add: render_etag_def)

lemma TrimString_sep:
  "tail_ok z \<Longrightarrow> TrimString ('', '' @ render_etag e @ z) = '', '' @ render_etag e @ z"
  using tail_ok_render [of z e] by (intro TrimString_id) (auto simp: tail_ok_def)

interpretation inm: tag_list "ifNoneMatch_loop H" "\<lambda>t. etagWeakMatch t H" "Returns condFalse" for H
proof
  fix e z assume a: "wf_etag e" "tail_ok z"
  show tag: "ifNoneMatch_loop H (render_etag e @ z) =
      (if etagWeakMatch (render_etag e) H then Returns condFalse else ifNoneMatch_loop H z)"
    using a by (subst ifNoneMatch_loop.simps) (simp add: TrimString_render render_nth)
  show "ifNoneMatch_loop H ('', '' @ render_etag e @ z) = ifNoneMatch_loop H (render_etag e @ z)"
    using a TrimString_sep [OF a(2), of e]
    by (subst ifNoneMatch_loop.simps) (simp add: tag)
qed

interpretation im: tag_list "ifMatch_loop H" "\<lambda>t. etagStrongMatch t H" condTrue for H
proof
  fix e z assume a: "wf_etag e" "tail_ok z"
  show tag: "ifMatch_loop H (render_etag e @ z) =
      (if etagStrongMatch (render_etag e) H then condTrue else ifMatch_loop H z)"
    using a by (subst ifMatch_loop.simps) (simp add: TrimString_render render_nth)
  have "ifMatch_loop H (CHR '' '' # render_etag e @ z) = ifMatch_loop H (render_etag e @ z)"
    by (subst (1 2) ifMatch_loop.simps) simp
  then show "ifMatch_loop H ('', '' @ render_etag e @ z) = ifMatch_loop H (render_etag e @ z)"
    using TrimString_sep [OF a(2), of e] by (subst ifMatch_loop.simps) simp
qed

lemma etagWeakMatch_render [simp]: "etagWeakMatch (render_etag a) (render_etag b) \<longleftrightarrow> weak_eq a b"
  by (auto simp: etagWeakMatch_def weak_eq_def TrimPrefix_def render_etag_def HasPrefix_def)

lemma etagStrongMatch_render [simp]:
  "etagStrongMatch (render_etag a) (render_etag b) \<longleftrightarrow> strong_eq a b"
  by (cases a; cases b) (auto simp: etagStrongMatch_def strong_eq_def render_etag_def split: if_splits)

lemma loops_Nil [simp]: "ifNoneMatch_loop H [] = Returns condTrue" "ifMatch_loop H [] = condFalse"
  by (subst ifNoneMatch_loop.simps, simp, subst ifMatch_loop.simps, simp)

lemma get_eq_Get: "get h k = header_Get h k"
  by (auto simp: get_def header_Get_def split: option.splits list.splits)

text \<open>
  On a list of well-formed entity tags, \<open>checkIfMatch\<close> succeeds exactly when some listed
  tag is strongly equal to the response's tag, and fails otherwise.
\<close>

theorem checkIfMatch_correct:
  assumes "es \<noteq> []" and "list_all wf_etag es"
    and "header_Get (req_Header r) ''If-Match'' = render_etags es"
    and "get (rw_header w) ''Etag'' = render_etag t"
  shows "checkIfMatch w r = (if \<exists>e \<in> set es. strong_eq e t then condTrue else condFalse)"
  using assms im.walk_tags [of "[]" es "render_etag t"]
  by (simp add: checkIfMatch_def tail_ok_def)

text \<open>
  C29. On a list of well-formed entity tags, with or without a comma at the end, \<open>checkIfNoneMatch\<close>
  fails the condition exactly when some listed tag is weakly equal to the response's tag. When none is,
  the condition holds, except that with the comma the function reads past the end of the
  header value and panics.
\<close>

theorem checkIfNoneMatch_exact:
  assumes "es \<noteq> []" and "list_all wf_etag es" and "rest = [] \<or> rest = '',''"
    and "get (req_Header r) ''If-None-Match'' = render_etags es @ rest"
    and "get (rw_header w) ''Etag'' = render_etag t"
  shows "checkIfNoneMatch w r =
    (if \<exists>e \<in> set es. weak_eq e t then Returns condFalse else if rest = [] then Returns condTrue else Panics)"
proof -
  have "ifNoneMatch_loop H '','' = Panics" for H
    by (subst ifNoneMatch_loop.simps) (simp add: TrimString_def isASCIISpace_def)
  with assms inm.walk_tags [of rest es "render_etag t"] show ?thesis
    by (auto simp: checkIfNoneMatch_def tail_ok_def)
qed

definition etag_request :: "string \<Rightarrow> string \<Rightarrow> request" where
  "etag_request k v = \<lparr>Method = ''GET'', URL_Path = ''/'', RawQuery = [],
     req_Header = [k \<mapsto> [v]], RemoteAddr = [], Cookies = [], FormValue = (\<lambda>_. [])\<rparr>"

definition etag_response :: "etag \<Rightarrow> response_writer" where
  "etag_response t = set_header ''Etag'' (render_etag t) new_response"

lemma etag_request_get [simp]: "get (req_Header (etag_request k v)) k = v"
  by (simp add: etag_request_def get_def)

lemma etag_response_get [simp]: "get (rw_header (etag_response t)) ''Etag'' = render_etag t"
  by (simp add: etag_response_def get_def)

theorem checkIfNoneMatch_exact_witness:
  "checkIfNoneMatch (etag_response (ETag True ''b''))
     (etag_request ''If-None-Match'' (render_etags [ETag False ''a'', ETag False ''b''])) = Returns condFalse \<and>
   checkIfNoneMatch (etag_response (ETag False ''b''))
     (etag_request ''If-None-Match'' (render_etags [ETag False ''a''] @ '','')) = Panics"
  using checkIfNoneMatch_exact [of "[ETag False ''a'', ETag False ''b'']" "[]"
      "etag_request ''If-None-Match'' (render_etags [ETag False ''a'', ETag False ''b''])"
      "etag_response (ETag True ''b'')" "ETag True ''b''"]
    checkIfNoneMatch_exact [of "[ETag False ''a'']" "'',''"
      "etag_request ''If-None-Match'' (render_etags [ETag False ''a''] @ '','')" "etag_response (ETag False ''b'')" "ETag False ''b''"]
  by (simp add: wf_etag_def etag_char_def weak_eq_def)

theorem checkIfMatch_correct_witness:
  "checkIfMatch (etag_response (ETag False ''b''))
     (etag_request ''If-Match'' (render_etags [ETag False ''a'', ETag False ''b''])) = condTrue"
  using checkIfMatch_correct [of "[ETag False ''a'', ETag False ''b'']"
      "etag_request ''If-Match'' (render_etags [ETag False ''a'', ETag False ''b''])"
      "etag_response (ETag False ''b'')" "ETag False ''b''"]
  by (simp add: wf_etag_def etag_char_def strong_eq_def flip: get_eq_Get)

section \<open>The preconditions as a whole\<close>

lemma writeNotModified_sent:
  "rw_sent w = None \<Longrightarrow> \<exists>h. rw_sent (writeNotModified w) = Some (304, h) \<and>
     h ''Content-Type'' = None \<and> h ''Content-Length'' = None"
  by (simp add: writeNotModified_def Let_def)

lemma writeNotModified_body [simp]: "rw_body (writeNotModified w) = rw_body w"
  by (simp add: writeNotModified_def Let_def)

lemma status_writeNotModified [simp]: "rw_sent w = None \<Longrightarrow> status (writeNotModified w) = 304"
  by (simp add: writeNotModified_def Let_def status_def)

text \<open>
  \<open>checkPreconditions\<close> either commits a body-less 304 or 412 answer and says so, or
  leaves the response untouched and hands on the range header, which it can only drop.
\<close>

theorem checkPreconditions_outcome:
  assumes "rw_sent w = None" and "checkPreconditions lib w r modtime = Returns (w', finished, rng)"
  shows "if finished then (status w' = 304 \<or> status w' = 412) \<and> rw_sent w' \<noteq> None
                       \<and> rw_body w' = rw_body w \<and> rng = []
         else w' = w \<and> (rng = [] \<or> rng = get (req_Header r) ''Range'')"
  using assms writeNotModified_sent [OF assms(1)]
  by (auto simp: checkPreconditions_def Let_def bind_res_Returns_iff split: if_splits)

text \<open>
  A client that revalidates with the \<open>Last-Modified\<close> value it was given gets 304, for
  every modification time that is sent at all: the comparison tolerates the sub-second part
  the date format drops.
\<close>

theorem revalidation_not_modified:
  assumes "ParseTime lib (FormatTime lib modtime) = Some (Unix modtime * second)"
    and "FormatTime lib modtime \<noteq> []" and "\<not> isZeroTime modtime"
    and "Method r = ''GET'' \<or> Method r = ''HEAD''"
    and "header_Get (req_Header r) ''If-Modified-Since'' = FormatTime lib modtime"
    and "header_Get (req_Header r) ''If-Match'' = []"
    and "header_Get (req_Header r) ''If-Unmodified-Since'' = []"
    and "get (req_Header r) ''If-None-Match'' = []"
  shows "checkPreconditions lib w r modtime = Returns (writeNotModified w, True, [])"
proof -
  have "modtime < Unix modtime * second + second"
    unfolding Unix_def using pos_mod_bound [of second modtime] minus_mod_eq_div_mult [of modtime second]
    by linarith
  then have "checkIfModifiedSince lib r modtime = condFalse"
    using assms by (auto simp: checkIfModifiedSince_def Let_def)
  with assms show ?thesis
    by (simp add: checkPreconditions_def checkIfMatch_def checkIfUnmodifiedSince_def
        checkIfNoneMatch_def Let_def)
qed

text \<open>
  A date library for examples: an instant is written as its decimal number of seconds.
\<close>

definition seconds_lib :: weblib where
  "seconds_lib = \<lparr>FormatTime = (\<lambda>t. FormatInt (Unix t)),
     ParseTime = (\<lambda>s. map_option (\<lambda>x. x * second) (ParseInt64 s)),
     TypeByExtension = (\<lambda>_. []), DetectContentType = (\<lambda>_. ''application/octet-stream'')\<rparr>"

theorem checkPreconditions_outcome_witness:
  "checkPreconditions seconds_lib new_response (etag_request ''Range'' ''bytes=0-1'') 5 =
     Returns (new_response, False, ''bytes=0-1'') \<and>
   (if False then (status new_response = 304 \<or> status new_response = 412) \<and> rw_sent new_response \<noteq> None
                       \<and> rw_body new_response = rw_body new_response \<and> ''bytes=0-1'' = []
         else new_response = new_response \<and> (''bytes=0-1'' = [] \<or>
           ''bytes=0-1'' = get (req_Header (etag_request ''Range'' ''bytes=0-1'')) ''Range''))"
proof -
  have 1: "checkPreconditions seconds_lib new_response (etag_request ''Range'' ''bytes=0-1'') 5 =
     Returns (new_response, False, ''bytes=0-1'')"
    by (simp add: checkPreconditions_def checkIfMatch_def checkIfUnmodifiedSince_def checkIfRange_def
        checkIfNoneMatch_def checkIfModifiedSince_def etag_request_def header_Get_def get_def)
  from checkPreconditions_outcome [OF _ 1] 1 show ?thesis by simp
qed

theorem revalidation_not_modified_witness:
  "checkPreconditions seconds_lib new_response
     (etag_request ''If-Modified-Since'' (FormatTime seconds_lib 1700000000500000000)) 1700000000500000000 =
   Returns (writeNotModified new_response, True, [])"
  by (rule revalidation_not_modified)
    (simp_all add: seconds_lib_def ParseInt64_FormatInt Unix_def in_i64_def isZeroTime_def zeroTime_def
      etag_request_def header_Get_def get_def)

end
