(* ===== verification/FileServer.thy ===== *)
theory FileServer
  imports Ranges Preconditions "HOL-Library.List_Lexorder" "HOL-Library.Char_ord"
begin

text \<open>
  The file server of \<open>src/proxy/fileserver.go\<close>: directories as file systems (\<open>Dir\<close>),
  directory listings, \<open>serveContent\<close> with its range handling, \<open>serveFile\<close> with its
  redirects, and the handler. The operating system is a parameter (\<open>os\<close>): opening and
  inspecting a path gives an error or a file. Handlers return \<open>res\<close>, since the code panics
  on a failed read and on an empty URL path.
\<close>

section \<open>Files and the operating system\<close>

datatype os_error = ErrNotExist | ErrPermission | ErrOther string

record file_info =
  fi_name :: string
  fi_size :: int
  fi_modtime :: instant
  fi_isdir :: bool

text \<open>
  An open file: the path it was opened with, its \<open>Stat\<close> and \<open>Readdir\<close> results, its bytes, whether
  reading works, and the error of a failing seek (\<open>None\<close> when the file can seek).
\<close>

record os_file =
  f_path :: string
  f_Stat :: "os_error + file_info"
  f_Readdir :: "os_error + file_info list"
  f_data :: bytes
  f_readok :: bool
  f_noseek :: "string option"

record os =
  os_Open :: "string \<Rightarrow> os_error + os_file"
  os_Stat :: "string \<Rightarrow> os_error + file_info"

text \<open>\<open>FileSystem\<close> is an interface with one method.\<close>

type_synonym fileSystem = "string \<Rightarrow> os_error + os_file"

definition IsNotExist :: "os_error \<Rightarrow> bool" where
  "IsNotExist e \<longleftrightarrow> e = ErrNotExist"

definition IsPermission :: "os_error \<Rightarrow> bool" where
  "IsPermission e \<longleftrightarrow> e = ErrPermission"

text \<open>Seeking from the start: an error text, or none. The system's errors name the file.\<close>

definition Seek :: "os_file \<Rightarrow> int \<Rightarrow> string option" where
  "Seek f off = (case f_noseek f of Some e \<Rightarrow> Some e
                 | None \<Rightarrow> if off < 0 then Some (''seek '' @ f_path f @ '': invalid argument'') else None)"

section \<open>Dir\<close>

fun map_err_loop :: "os \<Rightarrow> os_error \<Rightarrow> string list \<Rightarrow> string list \<Rightarrow> os_error" where
  "map_err_loop os err before [] = err"
| "map_err_loop os err before (p # parts) =
     (if p = [] then map_err_loop os err (before @ [p]) parts
      else case os_Stat os (join ''/'' (before @ [p])) of
          Inl _ \<Rightarrow> err
        | Inr fi \<Rightarrow> if \<not> fi_isdir fi then ErrNotExist
                    else map_err_loop os err (before @ [p]) parts)"

definition mapDirOpenError :: "os \<Rightarrow> os_error \<Rightarrow> string \<Rightarrow> os_error" where
  "mapDirOpenError os originalErr name =
     (if IsNotExist originalErr \<or> IsPermission originalErr then originalErr
      else map_err_loop os originalErr [] (Split name CHR ''/''))"

definition fullName :: "string \<Rightarrow> string \<Rightarrow> string" where
  "fullName d name = Join [if d = [] then ''.'' else d, Clean (CHR ''/'' # name)]"

text \<open>On Unix the separator is the slash, so the check of the first line never applies.\<close>

definition Dir_Open :: "os \<Rightarrow> string \<Rightarrow> fileSystem" where
  "Dir_Open os d name =
     (case os_Open os (fullName d name) of
        Inl err \<Rightarrow> Inl (mapDirOpenError os err (fullName d name))
      | Inr f \<Rightarrow> Inr f)"

section \<open>Directory listings\<close>

definition htmlReplacer :: "string \<Rightarrow> string" where
  "htmlReplacer s = concat (map (\<lambda>c.
     if c = CHR ''&'' then ''&amp;''
     else if c = CHR ''<'' then ''&lt;''
     else if c = CHR ''>'' then ''&gt;''
     else if c = CHR 0x22 then ''&#34;''
     else if c = CHR 0x27 then ''&#39;''
     else [c]) s)"

text \<open>\<open>url.URL{Path: name}.String()\<close>: percent-encoding in path mode.\<close>

definition url_plain :: "char \<Rightarrow> bool" where
  "url_plain c \<longleftrightarrow> (let n = (of_char c :: nat) in
     97 \<le> n \<and> n \<le> 122 \<or> 65 \<le> n \<and> n \<le> 90 \<or> 48 \<le> n \<and> n \<le> 57) \<or> c \<in> set ''-_.~$&+,/:;=@''"

definition upperhex :: "nat \<Rightarrow> char" where
  "upperhex n = ''0123456789ABCDEF'' ! n"

definition url_escape_char :: "char \<Rightarrow> string" where
  "url_escape_char c =
     (if url_plain c then [c]
      else [CHR ''%'', upperhex (of_char c div 16), upperhex (of_char c mod 16)])"

definition url_String :: "string \<Rightarrow> string" where
  "url_String p =
     (let e = (if p = ''*'' then ''*'' else concat (map url_escape_char p));
          seg = (case Cut e CHR ''/'' of None \<Rightarrow> e | Some (a, _) \<Rightarrow> a)
      in if CHR '':'' \<in> set seg then ''./'' @ e else e)"

definition dir_line :: "file_info \<Rightarrow> string" where
  "dir_line d =
     (let name = (if fi_isdir d then fi_name d @ ''/'' else fi_name d)
      in ''<a href='' @ [CHR 0x22] @ url_String name @ [CHR 0x22] @ ''>'' @ htmlReplacer name @ ''</a>'' @ nl)"

definition dirList :: "response_writer \<Rightarrow> os_file \<Rightarrow> response_writer" where
  "dirList w f =
     (case f_Readdir f of
        Inl _ \<Rightarrow> http_Error ''Error reading directory'' 500 w
      | Inr dirs \<Rightarrow>
          let w1 = write_body (''<pre>'' @ nl) (set_header ''Content-Type'' ''text/html; charset=utf-8'' w);
              w2 = fold (\<lambda>d w. write_body (dir_line d) w) (sort_key fi_name dirs) w1
          in write_body (''</pre>'' @ nl) w2)"

section \<open>Serving content\<close>

text \<open>
  The response that is to be sent once the headers are settled: status, announced size and
  the bytes \<open>ReadAll\<close> will deliver (\<open>None\<close> when it fails).
\<close>

definition plan_ranges ::
  "string \<Rightarrow> string \<Rightarrow> os_file \<Rightarrow> string \<Rightarrow> int \<Rightarrow> httpRange list \<Rightarrow> response_writer \<Rightarrow>
   response_writer + (response_writer \<times> int \<times> int \<times> bytes option)" where
  "plan_ranges bd bd' f ctype sz ranges w =
     (let whole = (if f_readok f then Some (f_data f) else None) in
      if length ranges = 1 then
        (let ra = ranges ! 0 in
         case Seek f (r_start ra) of
           Some e \<Rightarrow> Inl (http_Error e 416 w)
         | None \<Rightarrow> Inr (set_header ''Content-Range'' (contentRange ra sz) w, 206, r_length ra,
                       map_option (drop (nat (r_start ra))) whole))
      else if 1 < length ranges then
        Inr (set_header ''Content-Type'' (''multipart/byteranges; boundary='' @ bd) w, 206,
             rangesMIMESize ranges ctype sz bd',
             (if f_readok f \<and> f_noseek f = None
              then stream_parts (f_data f) ranges ctype sz bd True else None))
      else Inr (w, 200, sz, whole))"

definition send_content ::
  "request \<Rightarrow> int \<Rightarrow> bytes option \<Rightarrow> response_writer \<Rightarrow> response_writer res" where
  "send_content r code sendContent w =
     (let w1 = WriteHeader code w in
      if Method r \<noteq> ''HEAD'' then
        (case sendContent of None \<Rightarrow> Panics | Some c \<Rightarrow> Returns (write_body c w1))
      else Returns w1)"

text \<open>
  \<open>serveContent\<close>. \<open>bd\<close> and \<open>bd'\<close> are the random boundaries of the response's multipart writer
  and of the one \<open>rangesMIMESize\<close> creates.
\<close>

definition serveContent ::
  "weblib \<Rightarrow> string \<Rightarrow> string \<Rightarrow> response_writer \<Rightarrow> request \<Rightarrow> string \<Rightarrow> instant \<Rightarrow>
   (string + int) \<Rightarrow> os_file \<Rightarrow> response_writer res" where
  "serveContent lib bd bd' w0 r name modtime sizeFunc f =
     bind_res (checkPreconditions lib (setLastModified lib modtime w0) r modtime) (\<lambda>(w, done, rangeReq).
       if done then Returns w
       else
         (let haveType = rw_header w ''Content-Type'';
              byExt = TypeByExtension lib (Ext name);
              sniff = (haveType = None \<and> byExt = []);
              ctype = (case haveType of
                  None \<Rightarrow> if byExt = []
                    then DetectContentType lib (if f_readok f then take 512 (f_data f) else []) else byExt
                | Some vs \<Rightarrow> if 0 < length vs then vs ! 0 else []);
              w1 = (if haveType = None then set_header ''Content-Type'' ctype w else w)
          in if sniff \<and> Seek f 0 \<noteq> None then Returns (http_Error ''seeker can't seek'' 500 w)
             else case sizeFunc of
               Inl e \<Rightarrow> Returns (http_Error e 500 w1)
             | Inr sz \<Rightarrow>
                 if sz < 0 then send_content r 200 (if f_readok f then Some (f_data f) else None) w1
                 else case parseRange rangeReq sz of
                   Inl e \<Rightarrow>
                     Returns (http_Error (rangeErr_msg e) 416
                       (if e = NoOverlap
                        then set_header ''Content-Range'' (''bytes */'' @ FormatInt sz) w1 else w1))
                 | Inr rs \<Rightarrow>
                     (case plan_ranges bd bd' f ctype sz (if sz < sumRangesSize rs then [] else rs) w1 of
                        Inl w2 \<Rightarrow> Returns w2
                      | Inr (w2, code, sendSize, sendContent) \<Rightarrow>
                          let w3 = set_header ''Accept-Ranges'' ''bytes'' w2;
                              w4 = (if header_Get (rw_header w3) ''Content-Encoding'' = []
                                    then set_header ''Content-Length'' (FormatInt sendSize) w3 else w3)
                          in send_content r code sendContent w4)))"

text \<open>\<open>ServeContent\<close>: the size is found by seeking to the end and back.\<close>

definition ServeContent ::
  "weblib \<Rightarrow> string \<Rightarrow> string \<Rightarrow> response_writer \<Rightarrow> request \<Rightarrow> string \<Rightarrow> instant \<Rightarrow> os_file \<Rightarrow>
   response_writer res" where
  "ServeContent lib bd bd' w r name modtime f =
     serveContent lib bd bd' w r name modtime
       (if f_noseek f = None then Inr (int (length (f_data f))) else Inl ''seeker can't seek'') f"

section \<open>Serving files\<close>

definition toHTTPError :: "os_error \<Rightarrow> string \<times> int" where
  "toHTTPError err =
     (if IsNotExist err then (''404 page not found'', 404)
      else if IsPermission err then (''403 Forbidden'', 403)
      else (''500 Internal Server Error'', 500))"

definition localRedirect :: "response_writer \<Rightarrow> request \<Rightarrow> string \<Rightarrow> response_writer" where
  "localRedirect w r newPath =
     (let q = RawQuery r;
          p = (if q \<noteq> [] then newPath @ ''?'' @ q else newPath)
      in WriteHeader 301 (set_header ''Location'' p w))"

definition isSlashRune :: "char \<Rightarrow> bool" where
  "isSlashRune c \<longleftrightarrow> c = CHR ''/'' \<or> c = CHR 0x5C"

definition containsDotDot :: "string \<Rightarrow> bool" where
  "containsDotDot v \<longleftrightarrow> Contains v ''..'' \<and> (\<exists>ent \<in> set (FieldsFunc v isSlashRune). ent = ''..'')"

definition indexPage :: string where
  "indexPage = ''/index.html''"

text \<open>The last byte of the URL path; an empty path makes the index expression panic.\<close>

definition ends_in_slash :: "string \<Rightarrow> bool res" where
  "ends_in_slash url = (if url = [] then Panics else Returns (url ! (length url - 1) = CHR ''/''))"

definition serve_entry ::
  "weblib \<Rightarrow> string \<Rightarrow> string \<Rightarrow> response_writer \<Rightarrow> request \<Rightarrow> os_file \<Rightarrow> file_info \<Rightarrow> response_writer res" where
  "serve_entry lib bd bd' w r f d =
     (if fi_isdir d then
        (if checkIfModifiedSince lib r (fi_modtime d) = condFalse then Returns (writeNotModified w)
         else Returns (dirList (set_header ''Last-Modified'' (FormatTime lib (fi_modtime d)) w) f))
      else serveContent lib bd bd' w r (fi_name d) (fi_modtime d) (Inr (fi_size d)) f)"

definition serveFile ::
  "weblib \<Rightarrow> string \<Rightarrow> string \<Rightarrow> response_writer \<Rightarrow> request \<Rightarrow> fileSystem \<Rightarrow> string \<Rightarrow> bool \<Rightarrow>
   response_writer res" where
  "serveFile lib bd bd' w r fs name redirect =
     (let url = URL_Path r in
      if HasSuffix url indexPage then Returns (localRedirect w r ''./'')
      else case fs name of
        Inl err \<Rightarrow> (case toHTTPError err of (msg, code) \<Rightarrow> Returns (http_Error msg code w))
      | Inr f \<Rightarrow>
          (case f_Stat f of
             Inl err \<Rightarrow> (case toHTTPError err of (msg, code) \<Rightarrow> Returns (http_Error msg code w))
           | Inr d \<Rightarrow>
               if redirect \<or> fi_isdir d then
                 bind_res (ends_in_slash url) (\<lambda>slash.
                   if fi_isdir d \<and> \<not> slash then Returns (localRedirect w r (Base url @ ''/''))
                   else if \<not> fi_isdir d \<and> slash then Returns (localRedirect w r (''../'' @ Base url))
                   else if fi_isdir d then
                     (case fs (TrimSuffix name ''/'' @ indexPage) of
                        Inl _ \<Rightarrow> serve_entry lib bd bd' w r f d
                      | Inr ff \<Rightarrow>
                          (case f_Stat ff of
                             Inl _ \<Rightarrow> serve_entry lib bd bd' w r f d
                           | Inr dd \<Rightarrow> serve_entry lib bd bd' w r ff dd))
                   else serve_entry lib bd bd' w r f d)
               else serve_entry lib bd bd' w r f d))"

definition ServeFile ::
  "os \<Rightarrow> weblib \<Rightarrow> string \<Rightarrow> string \<Rightarrow> response_writer \<Rightarrow> request \<Rightarrow> string \<Rightarrow> response_writer res" where
  "ServeFile os lib bd bd' w r name =
     (if containsDotDot (URL_Path r) then Returns (http_Error ''invalid URL path'' 400 w)
      else case path_Split name of (dir, f) \<Rightarrow> serveFile lib bd bd' w r (Dir_Open os dir) f False)"

text \<open>The handler: it also stores the slash it prepends back into the request.\<close>

definition fileHandler_ServeHTTP ::
  "weblib \<Rightarrow> string \<Rightarrow> string \<Rightarrow> fileSystem \<Rightarrow> response_writer \<Rightarrow> request \<Rightarrow> response_writer res" where
  "fileHandler_ServeHTTP lib bd bd' root w r =
     (let upath = (if HasPrefix (URL_Path r) ''/'' then URL_Path r else CHR ''/'' # URL_Path r)
      in serveFile lib bd bd' w (r\<lparr>URL_Path := upath\<rparr>) root (Clean upath) True)"


section \<open>Confinement of Dir\<close>

text \<open>A cleaned path as text, from its elements.\<close>

definition path_of :: "bool \<Rightarrow> string list \<Rightarrow> string" where
  "path_of rooted out =
     (if rooted then CHR ''/'' # join ''/'' out else if out = [] then ''.'' else join ''/'' out)"

definition dir_of :: "string \<Rightarrow> string" where
  "dir_of d = (if d = [] then ''.'' else d)"

lemma Clean_path_of:
  "s \<noteq> [] \<Longrightarrow> Clean s = path_of (hd s = CHR ''/'') (clean_comps (hd s = CHR ''/'') s)"
  by (auto simp: Clean_def path_of_def Let_def)

lemma split_by_append:
  "p c \<Longrightarrow> split_by p (a @ c # b) = split_by p a @ split_by p b"
  by (induction a) (auto split: list.splits)

lemma clean_comps_append:
  "clean_comps r (a @ CHR ''/'' # b) = foldl (clean_step r) (clean_comps r a) (Split b CHR ''/'')"
  by (simp add: clean_comps_def Split_def split_by_append)

lemma clean_step_Nil [simp]: "clean_step r out [] = out"
  by (simp add: clean_step_def)

lemma foldl_clean_join:
  assumes "\<And>c. c \<in> set cs \<Longrightarrow> plain_comp c"
  shows "foldl (clean_step r) out (Split (CHR ''/'' # join ''/'' cs) CHR ''/'') = out @ cs"
proof (cases "cs = []")
  case False
  then have "Split (join ''/'' cs) CHR ''/'' = cs"
    using assms by (intro Split_join) (auto simp: plain_comp_def)
  with foldl_clean_plain [of cs r out] assms show ?thesis by simp
qed simp

text \<open>
  C24. The path a \<open>Dir\<close> opens is the directory's own cleaned path followed by elements none
  of which is empty, dot, dot-dot or contains a slash: whatever the requested name is, the
  server never leaves the directory tree.
\<close>

theorem Dir_Open_confined:
  "\<exists>cs. list_all plain_comp cs \<and>
     fullName d name = path_of (hd (dir_of d) = CHR ''/'')
       (clean_comps (hd (dir_of d) = CHR ''/'') (dir_of d) @ cs) \<and>
     (\<forall>f. Dir_Open os d name = Inr f \<longleftrightarrow> os_Open os (fullName d name) = Inr f)"
proof -
  let ?d = "dir_of d" and ?cs = "clean_comps True (CHR ''/'' # name)"
  have d: "?d \<noteq> []" by (simp add: dir_of_def)
  have "fullName d name = Clean (?d @ CHR ''/'' # CHR ''/'' # join ''/'' ?cs)"
    using d by (simp add: fullName_def Join_def Clean_rooted dir_of_def)
  also have "\<dots> = path_of (hd ?d = CHR ''/'') (clean_comps (hd ?d = CHR ''/'') ?d @ ?cs)"
    using d foldl_clean_join [of ?cs "hd ?d = CHR ''/''"] clean_comps_plain
    by (simp add: Clean_path_of clean_comps_append)
  finally have "fullName d name = path_of (hd ?d = CHR ''/'') (clean_comps (hd ?d = CHR ''/'') ?d @ ?cs)" .
  moreover have "list_all plain_comp ?cs"
    by (auto simp: list_all_iff dest: clean_comps_plain)
  moreover have "\<forall>f. Dir_Open os d name = Inr f \<longleftrightarrow> os_Open os (fullName d name) = Inr f"
    by (simp add: Dir_Open_def split: sum.splits)
  ultimately show ?thesis by blast
qed

section \<open>Dot-dot elements\<close>

lemma Contains_HasPrefix: "HasPrefix s p \<Longrightarrow> Contains s p"
  by (cases s) auto

lemma Contains_append: "Contains (a @ p @ b) p"
  by (induction a) (auto intro: Contains_HasPrefix)

lemma split_by_hd: "split_by p s = v # vs \<Longrightarrow> \<exists>b. s = v @ b"
  by (induction s arbitrary: v vs) (auto split: if_splits list.splits)

lemma split_by_infix: "w \<in> set (split_by p s) \<Longrightarrow> \<exists>a b. s = a @ w @ b"
proof (induction s arbitrary: w)
  case (Cons x s)
  have later: ?case if "w \<in> set (split_by p s)"
  proof -
    from Cons.IH [OF that] obtain a b where "s = a @ w @ b" by blast
    then have "x # s = (x # a) @ w @ b" by simp
    then show ?thesis by blast
  qed
  show ?case
  proof (cases "w \<in> set (split_by p s) \<or> w = []")
    case True
    then show ?thesis using later by fastforce
  next
    case False
    with Cons.prems obtain v vs where v: "split_by p s = v # vs" "w = x # v"
      by (auto split: if_splits list.splits)
    from split_by_hd [OF v(1)] v(2) show ?thesis by (metis append_Cons append_Nil)
  qed
qed auto

text \<open>
  \<open>containsDotDot\<close> holds exactly when one of the elements of the path, split at slashes
  and backslashes, is dot-dot: the substring test in front of the loop only saves work.
\<close>

theorem containsDotDot_iff:
  "containsDotDot v \<longleftrightarrow> ''..'' \<in> set (split_by isSlashRune v)"
proof
  assume "''..'' \<in> set (split_by isSlashRune v)"
  moreover from this have "Contains v ''..''"
    using split_by_infix Contains_append by metis
  ultimately show "containsDotDot v" by (auto simp: containsDotDot_def FieldsFunc_def)
qed (auto simp: containsDotDot_def FieldsFunc_def)

section \<open>Directory listings are free of injected markup\<close>

definition markup :: "char set" where
  "markup = {CHR ''<'', CHR ''>'', CHR 0x22, CHR 0x27}"

lemma htmlReplacer_safe: "set (htmlReplacer s) \<inter> markup = {}"
  by (auto simp: htmlReplacer_def markup_def split: if_splits)

lemma upperhex_safe: "n < 16 \<Longrightarrow> upperhex n \<notin> markup"
proof -
  assume "n < 16"
  then have "upperhex n \<in> set ''0123456789ABCDEF''"
    unfolding upperhex_def by (intro nth_mem) simp
  then show ?thesis by (auto simp: markup_def)
qed

lemma url_plain_safe: "url_plain c \<Longrightarrow> c \<notin> markup"
  by (auto simp: url_plain_def markup_def)

lemma url_escape_char_safe: "x \<in> set (url_escape_char c) \<Longrightarrow> x \<notin> markup"
proof -
  have "(of_char c :: nat) < 256" by simp
  then have "(of_char c :: nat) div 16 < 16" by arith
  moreover assume "x \<in> set (url_escape_char c)"
  ultimately show ?thesis
    using upperhex_safe [of "of_char c div 16"] upperhex_safe [of "of_char c mod 16"] url_plain_safe [of c]
    by (auto simp: url_escape_char_def markup_def split: if_splits)
qed

lemma url_String_safe: "set (url_String s) \<inter> markup = {}"
  using url_escape_char_safe by (fastforce simp: url_String_def Let_def markup_def split: if_splits)

text \<open>
  A line of a directory listing is the fixed link markup around two texts that contain no
  angle bracket and no quote, whatever the file is called.
\<close>

theorem dir_line_safe:
  "\<exists>u t. dir_line d = ''<a href='' @ [CHR 0x22] @ u @ [CHR 0x22] @ ''>'' @ t @ ''</a>'' @ nl
     \<and> set u \<inter> markup = {} \<and> set t \<inter> markup = {}"
  unfolding dir_line_def Let_def using url_String_safe htmlReplacer_safe by blast


section \<open>What serveContent sends\<close>

text \<open>A request without conditional headers.\<close>

definition unconditional :: "request \<Rightarrow> bool" where
  "unconditional r \<longleftrightarrow>
     header_Get (req_Header r) ''If-Match'' = [] \<and> header_Get (req_Header r) ''If-Unmodified-Since'' = [] \<and>
     header_Get (req_Header r) ''If-None-Match'' = [] \<and> header_Get (req_Header r) ''If-Modified-Since'' = [] \<and>
     header_Get (req_Header r) ''If-Range'' = []"

lemma checkPreconditions_unconditional:
  "unconditional r \<Longrightarrow> checkPreconditions lib w r m = Returns (w, False, get (req_Header r) ''Range'')"
  by (simp add: unconditional_def checkPreconditions_def checkIfMatch_def checkIfUnmodifiedSince_def
      checkIfNoneMatch_def checkIfModifiedSince_def checkIfRange_def get_eq_Get Let_def)

text \<open>A readable, seekable file.\<close>

definition good_file :: "os_file \<Rightarrow> bool" where
  "good_file f \<longleftrightarrow> f_readok f \<and> f_noseek f = None \<and> in_i64 (int (length (f_data f)))"

definition content_type :: "weblib \<Rightarrow> string \<Rightarrow> os_file \<Rightarrow> string" where
  "content_type lib name f =
     (if TypeByExtension lib (Ext name) = [] then DetectContentType lib (take 512 (f_data f))
      else TypeByExtension lib (Ext name))"

text \<open>The writer after \<open>Last-Modified\<close> and \<open>Content-Type\<close> are set.\<close>

definition prepared :: "weblib \<Rightarrow> string \<Rightarrow> instant \<Rightarrow> os_file \<Rightarrow> response_writer" where
  "prepared lib name m f =
     set_header ''Content-Type'' (content_type lib name f) (setLastModified lib m new_response)"

lemma setLastModified_simps [simp]:
  "rw_sent (setLastModified lib m w) = rw_sent w"
  "rw_written (setLastModified lib m w) = rw_written w"
  "rw_body (setLastModified lib m w) = rw_body w"
  "rw_contentLength (setLastModified lib m w) = rw_contentLength w"
  "k \<noteq> ''Last-Modified'' \<Longrightarrow> rw_header (setLastModified lib m w) k = rw_header w k"
  by (simp_all add: setLastModified_def)

lemma header_Get_setLastModified [simp]:
  "k \<noteq> ''Last-Modified'' \<Longrightarrow>
   header_Get (rw_header (setLastModified lib m w)) k = header_Get (rw_header w) k"
  by (simp add: setLastModified_def)

lemma prepared_simps [simp]:
  "rw_sent (prepared lib name m f) = None"
  "rw_written (prepared lib name m f) = 0"
  "rw_body (prepared lib name m f) = []"
  "rw_contentLength (prepared lib name m f) = - 1"
  "header_Get (rw_header (prepared lib name m f)) ''Content-Encoding'' = []"
  by (simp_all add: prepared_def)

lemma prepared_header: "header_Get (rw_header (prepared lib name m f)) ''Content-Length'' = []"
  by (simp add: prepared_def)

text \<open>The response headers and body once the ranges are planned.\<close>

definition finish :: "request \<Rightarrow> response_writer \<times> int \<times> int \<times> bytes option \<Rightarrow> response_writer res" where
  "finish r = (\<lambda>(w, code, sendSize, sendContent).
     let w3 = set_header ''Accept-Ranges'' ''bytes'' w;
         w4 = (if header_Get (rw_header w3) ''Content-Encoding'' = []
               then set_header ''Content-Length'' (FormatInt sendSize) w3 else w3)
     in send_content r code sendContent w4)"

lemma serveContent_unconditional:
  assumes "unconditional r" and "good_file f" and "0 \<le> sz"
  shows "serveContent lib bd bd' new_response r name m (Inr sz) f =
    (case parseRange (get (req_Header r) ''Range'') sz of
       Inl e \<Rightarrow> Returns (http_Error (rangeErr_msg e) 416
                 (if e = NoOverlap then set_header ''Content-Range'' (''bytes */'' @ FormatInt sz)
                                          (prepared lib name m f)
                  else prepared lib name m f))
     | Inr rs \<Rightarrow>
         (case plan_ranges bd bd' f (content_type lib name f) sz (if sz < sumRangesSize rs then [] else rs)
                 (prepared lib name m f) of
            Inl w2 \<Rightarrow> Returns w2
          | Inr p \<Rightarrow> finish r p))"
proof -
  have [simp]: "f_readok f" "f_noseek f = None" using assms(2) by (simp_all add: good_file_def)
  show ?thesis
    using assms(3)
    by (cases "parseRange (get (req_Header r) ''Range'') sz")
      (simp_all add: serveContent_def checkPreconditions_unconditional [OF assms(1)] Seek_def Let_def
        prepared_def content_type_def finish_def cong: sum.case_cong)
qed

lemma rw_contentLength_WriteHeader:
  assumes "rw_sent w = None" and "header_Get (rw_header w) ''Content-Length'' = FormatInt n"
    and "0 \<le> n" and "in_i64 n"
  shows "rw_contentLength (WriteHeader c w) = n"
  using assms by (simp add: WriteHeader_def ParseInt64_FormatInt)

text \<open>
  The body that goes out is the prepared content when it is not longer than the announced
  size, and nothing when it is longer.
\<close>

lemma finish_GET:
  assumes "rw_sent w = None" and "rw_written w = 0" and "rw_body w = []"
    and "header_Get (rw_header w) ''Content-Encoding'' = []"
    and "Method r \<noteq> ''HEAD''" and "bodyAllowed code"
    and "0 \<le> n" and "in_i64 n" and "in_i64 (int (length c))"
  shows "\<exists>w'. finish r (w, code, n, Some c) = Returns w' \<and> status w' = code \<and>
    sent_header w' = header_Set (header_Set (rw_header w) ''Accept-Ranges'' ''bytes'')
                       ''Content-Length'' (FormatInt n) \<and>
    rw_body w' = (if int (length c) \<le> n then c else [])"
proof -
  let ?w4 = "set_header ''Content-Length'' (FormatInt n) (set_header ''Accept-Ranges'' ''bytes'' w)"
  let ?w' = "write_body c (WriteHeader code ?w4)"
  have sent: "rw_sent (WriteHeader code ?w4) = Some (code, rw_header ?w4)"
    using assms(1) by simp
  have cl: "rw_contentLength (WriteHeader code ?w4) = n"
    using assms by (intro rw_contentLength_WriteHeader) simp_all
  have "rw_body ?w' = (if int (length c) \<le> n then c else [])"
    using write_body_fits [OF sent assms(6), of c] write_body_overflow [OF sent, of c]
      assms cl by auto
  moreover have "finish r (w, code, n, Some c) = Returns ?w'"
    using assms by (simp add: finish_def send_content_def Let_def)
  ultimately show ?thesis
    using sent by (intro exI [of _ ?w']) (simp add: status_def sent_header_def)
qed

lemma bodyAllowed_codes [simp]: "bodyAllowed 200" "bodyAllowed 206" "bodyAllowed 416"
  by (simp_all add: bodyAllowed_def)

text \<open>
  A plain request (no conditions, no range) for a file gets status 200, the whole content
  as its body, and the size of the file as \<open>Content-Length\<close>.
\<close>

theorem serveContent_whole:
  assumes "unconditional r" and "get (req_Header r) ''Range'' = []" and "Method r \<noteq> ''HEAD''"
    and "good_file f"
  shows "\<exists>w'. serveContent lib bd bd' new_response r name m (Inr (int (length (f_data f)))) f = Returns w' \<and>
    status w' = 200 \<and> rw_body w' = f_data f \<and>
    header_Get (sent_header w') ''Content-Length'' = FormatInt (int (length (f_data f)))"
proof -
  let ?n = "int (length (f_data f))" and ?w = "prepared lib name m f"
  have n: "in_i64 ?n" "f_readok f" using assms(4) by (simp_all add: good_file_def)
  have "serveContent lib bd bd' new_response r name m (Inr ?n) f = finish r (?w, 200, ?n, Some (f_data f))"
    using serveContent_unconditional [OF assms(1,4), of ?n] assms(2) n
    by (simp add: parseRange_def plan_ranges_def sumRangesSize_def)
  with finish_GET [of ?w r 200 ?n "f_data f"] assms(3) n show ?thesis by auto
qed


lemma serveContent_one_range:
  assumes "unconditional r" and "Method r \<noteq> ''HEAD''" and "good_file f"
    and "parseRange (get (req_Header r) ''Range'') (int (length (f_data f))) = Inr [ra]"
    and "range_within (int (length (f_data f))) ra"
  shows "\<exists>w'. serveContent lib bd bd' new_response r name m (Inr (int (length (f_data f)))) f = Returns w' \<and>
    status w' = 206 \<and>
    header_Get (sent_header w') ''Content-Length'' = FormatInt (r_length ra) \<and>
    header_Get (sent_header w') ''Content-Range'' = contentRange ra (int (length (f_data f))) \<and>
    rw_body w' = (if r_start ra + r_length ra = int (length (f_data f))
                  then drop (nat (r_start ra)) (f_data f) else [])"
proof -
  let ?n = "int (length (f_data f))" and ?w = "prepared lib name m f"
  let ?w1 = "set_header ''Content-Range'' (contentRange ra ?n) ?w"
  let ?c = "drop (nat (r_start ra)) (f_data f)"
  have f: "in_i64 ?n" "f_readok f" "f_noseek f = None" using assms(3) by (simp_all add: good_file_def)
  have ra: "0 \<le> r_start ra" "0 \<le> r_length ra" "r_start ra + r_length ra \<le> ?n"
    using assms(5) by (simp_all add: range_within_def)
  then have len: "in_i64 (r_length ra)" "in_i64 (int (length ?c))" "r_length ra \<le> ?n"
    using f(1) by (auto simp: in_i64_def)
  have "serveContent lib bd bd' new_response r name m (Inr ?n) f = finish r (?w1, 206, r_length ra, Some ?c)"
    using serveContent_unconditional [OF assms(1,3), of ?n] assms(4) f ra len
    by (simp add: plan_ranges_def Seek_def)
  with finish_GET [of ?w1 r 206 "r_length ra" ?c] assms(2) ra len show ?thesis by auto
qed

text \<open>
  C25. A request for one byte range gets status 206 with the right \<open>Content-Range\<close> and
  \<open>Content-Length\<close>, but a body only when the range extends to the end of the file: the code
  reads to the end of the file instead of the announced number of bytes, and the response
  writer refuses a body longer than the announced length.
\<close>

theorem serveContent_single_range:
  assumes "unconditional r" and "Method r \<noteq> ''HEAD''" and "good_file f"
    and "get (req_Header r) ''Range'' = render_header [FromTo a b]"
    and "0 \<le> a" and "a \<le> b" and "b < int (length (f_data f))"
  shows "\<exists>w'. serveContent lib bd bd' new_response r name m (Inr (int (length (f_data f)))) f = Returns w' \<and>
    status w' = 206 \<and>
    header_Get (sent_header w') ''Content-Length'' = FormatInt (b - a + 1) \<and>
    header_Get (sent_header w') ''Content-Range'' =
      ''bytes '' @ FormatInt a @ ''-'' @ FormatInt b @ ''/'' @ FormatInt (int (length (f_data f))) \<and>
    rw_body w' = (if b = int (length (f_data f)) - 1 then drop (nat a) (f_data f) else [])"
proof -
  let ?n = "int (length (f_data f))" and ?ra = "\<lparr>r_start = a, r_length = b - a + 1\<rparr>"
  have n: "in_i64 ?n" using assms(3) by (simp add: good_file_def)
  then have "wf_spec (FromTo a b)" using assms by (auto simp: in_i64_def)
  then have "parseRange (render_header [FromTo a b]) ?n = resolve_all ?n [FromTo a b]"
    using n by (intro parseRange_correct_lemma) auto
  then have pr: "parseRange (get (req_Header r) ''Range'') ?n = Inr [?ra]"
    using assms by (simp add: resolve_all_def map_filter_simps)
  have within: "range_within ?n ?ra" using assms by (simp add: range_within_def)
  have cr: "contentRange ?ra ?n = ''bytes '' @ FormatInt a @ ''-'' @ FormatInt b @ ''/'' @ FormatInt ?n"
    using assms n by (simp add: contentRange_def in_i64_def)
  have e: "r_start ?ra + r_length ?ra = ?n \<longleftrightarrow> b = ?n - 1" by auto
  show ?thesis
    using serveContent_one_range [OF assms(1-3) pr within, of lib bd bd' name m]
    unfolding e cr by (simp only: httpRange.select_convs)
qed

text \<open>
  C26. A request for several ranges inside the file, no larger together than the file, gets
  status 206 and the complete multipart body, whose length is the announced
  \<open>Content-Length\<close>.
\<close>

theorem serveContent_multi_range:
  assumes "unconditional r" and "Method r \<noteq> ''HEAD''" and "good_file f"
    and "parseRange (get (req_Header r) ''Range'') (int (length (f_data f))) = Inr rs"
    and "1 < length rs" and "list_all (range_within (int (length (f_data f)))) rs"
    and "sum_list (map r_length rs) \<le> int (length (f_data f))"
    and "length bd = length bd'"
    and "stream_parts (f_data f) rs (content_type lib name f) (int (length (f_data f))) bd True = Some body"
    and "in_i64 (int (length body))"
  shows "\<exists>w'. serveContent lib bd bd' new_response r name m (Inr (int (length (f_data f)))) f = Returns w' \<and>
    status w' = 206 \<and> rw_body w' = body \<and>
    header_Get (sent_header w') ''Content-Length'' = FormatInt (int (length body))"
proof -
  let ?n = "int (length (f_data f))" and ?w = "prepared lib name m f" and ?ct = "content_type lib name f"
  let ?w1 = "set_header ''Content-Type'' (''multipart/byteranges; boundary='' @ bd) ?w"
  have f: "in_i64 ?n" "f_readok f" "f_noseek f = None" using assms(3) by (simp_all add: good_file_def)
  have within: "range_within ?n ra" if "ra \<in> set rs" for ra
    using assms(6) that by (simp add: list_all_iff)
  have "0 \<le> sum_list (map r_length rs)"
    using within by (intro sum_list_nonneg_int) (auto simp: range_within_def)
  then have sum: "\<not> ?n < sumRangesSize rs"
    using assms(7) f(1) by (simp add: sumRangesSize_eq in_i64_def)
  have size: "rangesMIMESize rs ?ct ?n bd' = int (length body)"
    using rangesMIMESize_exact_lemma [of ?n "f_data f" rs bd bd' ?ct] within assms(8,9,10) by auto
  have "rs \<noteq> []" "length rs \<noteq> 1" using assms(5) by auto
  then have "serveContent lib bd bd' new_response r name m (Inr ?n) f =
      finish r (?w1, 206, int (length body), Some body)"
    using serveContent_unconditional [OF assms(1,3), of ?n] assms(4,5,9) f sum size
    by (simp add: plan_ranges_def)
  with finish_GET [of ?w1 r 206 "int (length body)" body] assms(2,10) show ?thesis by auto
qed

text \<open>
  A range request none of whose ranges overlaps the file gets status 416, and the
  \<open>Content-Range\<close> header tells the size of the file.
\<close>

theorem serveContent_no_overlap:
  assumes "unconditional r" and "good_file f" and "specs \<noteq> []"
    and "\<And>sp. sp \<in> set specs \<Longrightarrow> wf_spec sp \<and> resolve (int (length (f_data f))) sp = None"
    and "get (req_Header r) ''Range'' = render_header specs"
  shows "\<exists>w'. serveContent lib bd bd' new_response r name m (Inr (int (length (f_data f)))) f = Returns w' \<and>
    status w' = 416 \<and>
    header_Get (sent_header w') ''Content-Range'' = ''bytes */'' @ FormatInt (int (length (f_data f)))"
proof -
  let ?n = "int (length (f_data f))"
  have n: "in_i64 ?n" using assms(2) by (simp add: good_file_def)
  have "List.map_filter (resolve ?n) specs = []"
    using assms(4) by (induction specs) (auto simp: map_filter_simps)
  then have "parseRange (get (req_Header r) ''Range'') ?n = Inl NoOverlap"
    using parseRange_correct_lemma [of ?n specs] n assms by (simp add: resolve_all_def wf_spec_ordered)
  then show ?thesis
    using serveContent_unconditional [OF assms(1,2), of ?n] by (simp add: sent_header_def status_def)
qed


text \<open>A file and two requests for examples.\<close>

definition ex_file :: os_file where
  "ex_file = \<lparr>f_path = ''html/d.txt'', f_Stat = Inr \<lparr>fi_name = ''d.txt'', fi_size = 10, fi_modtime = 5, fi_isdir = False\<rparr>,
     f_Readdir = Inl (ErrOther ''not a directory''), f_data = ''0123456789'', f_readok = True, f_noseek = None\<rparr>"

lemma ex_file_good [simp]: "good_file ex_file" "f_data ex_file = ''0123456789''"
  by (simp_all add: good_file_def ex_file_def in_i64_def)

lemma etag_request_unconditional [simp]:
  "k \<noteq> ''If-Match'' \<Longrightarrow> k \<noteq> ''If-Unmodified-Since'' \<Longrightarrow> k \<noteq> ''If-None-Match'' \<Longrightarrow>
   k \<noteq> ''If-Modified-Since'' \<Longrightarrow> k \<noteq> ''If-Range'' \<Longrightarrow> unconditional (etag_request k v)"
  by (simp add: unconditional_def etag_request_def header_Get_def)

lemma etag_request_simps [simp]:
  "Method (etag_request k v) = ''GET''" "k \<noteq> k' \<Longrightarrow> get (req_Header (etag_request k v)) k' = []"
  by (simp_all add: etag_request_def get_def)

theorem serveContent_whole_witness:
  "\<exists>w'. serveContent seconds_lib ''b'' ''c'' new_response (etag_request ''Accept'' ''x'') ''d.txt'' 5
     (Inr (int (length (f_data ex_file)))) ex_file = Returns w' \<and>
   status w' = 200 \<and> rw_body w' = f_data ex_file \<and>
   header_Get (sent_header w') ''Content-Length'' = FormatInt (int (length (f_data ex_file)))"
  by (rule serveContent_whole) simp_all

theorem serveContent_single_range_witness:
  "\<exists>w'. serveContent seconds_lib ''b'' ''c'' new_response
      (etag_request ''Range'' (render_header [FromTo 2 4])) ''d.txt'' 5
     (Inr (int (length (f_data ex_file)))) ex_file = Returns w' \<and> status w' = 206 \<and>
   header_Get (sent_header w') ''Content-Length'' = FormatInt 3 \<and> rw_body w' = []"
  using serveContent_single_range [of "etag_request ''Range'' (render_header [FromTo 2 4])" ex_file 2 4
      seconds_lib "''b''" "''c''" "''d.txt''" 5]
  by (simp add: ex_file_def) (auto simp: good_file_def in_i64_def)

theorem serveContent_no_overlap_witness:
  "\<exists>w'. serveContent seconds_lib ''b'' ''c'' new_response
      (etag_request ''Range'' (render_header [From 10])) ''d.txt'' 5
     (Inr (int (length (f_data ex_file)))) ex_file = Returns w' \<and> status w' = 416 \<and>
   header_Get (sent_header w') ''Content-Range'' = ''bytes */'' @ FormatInt (int (length (f_data ex_file)))"
  by (rule serveContent_no_overlap [of _ _ "[From 10]"]) (auto simp: in_i64_def)

theorem serveContent_multi_range_witness:
  "\<exists>w' body. serveContent seconds_lib ''b'' ''c'' new_response
      (etag_request ''Range'' ''bytes=0-1,8-'') ''d.txt'' 5
     (Inr (int (length (f_data ex_file)))) ex_file = Returns w' \<and>
   status w' = 206 \<and> rw_body w' = body \<and>
   header_Get (sent_header w') ''Content-Length'' = FormatInt (int (length body))"
proof -
  let ?rs = "[\<lparr>r_start = 0, r_length = 2\<rparr>, \<lparr>r_start = 8, r_length = 2\<rparr>] :: httpRange list"
  let ?ct = "content_type seconds_lib ''d.txt'' ex_file"
  have pr: "parseRange ''bytes=0-1,8-'' 10 = Inr ?rs" by code_simp
  have "\<exists>body. stream_parts (f_data ex_file) ?rs ?ct (int (length (f_data ex_file))) ''b'' True = Some body
     \<and> in_i64 (int (length body))"
    by (simp add: copyN_def in_i64_def part_header_def mimeHeader_def contentRange_def part_close_def
        content_type_def seconds_lib_def FormatInt_def dec.simps)
  then obtain body where b: "stream_parts (f_data ex_file) ?rs ?ct (int (length (f_data ex_file))) ''b'' True = Some body"
    "in_i64 (int (length body))" by blast
  show ?thesis
    using serveContent_multi_range [OF _ _ _ _ _ _ _ _ b,
        of "etag_request ''Range'' ''bytes=0-1,8-''" "''c''" 5] pr
    by (auto simp: range_within_def)
qed

lemma http_Error_body:
  assumes "rw_sent w = None" and "rw_contentLength w = - 1" and "header_Get (rw_header w) ''Content-Length'' = []" and "bodyAllowed code"
  shows "rw_body (http_Error msg code w) = rw_body w @ msg @ nl"
proof -
  let ?w = "set_header ''X-Content-Type-Options'' ''nosniff'' (set_header ''Content-Type'' ''text/plain; charset=utf-8'' w)"
  have "rw_contentLength (WriteHeader code ?w) = - 1" using assms(1,2,3) by (simp add: WriteHeader_def Let_def)
  moreover have "rw_sent (WriteHeader code ?w) = Some (code, rw_header ?w)" using assms(1) by simp
  ultimately show ?thesis using assms(4) by (simp add: http_Error_def write_body_def Let_def status_def)
qed

lemma smallest_suffix:
  assumes "in_i64 n" and "0 \<le> n"
  shows "parse_elem ''--9223372036854775808'' n = Range \<lparr>r_start = n - 9223372036854775808, r_length = - 9223372036854775808\<rparr>"
proof -
  have i: "i64 (n + 9223372036854775808) = n - 9223372036854775808"
    using assms by (simp add: i64_def in_i64_def)
  have "TrimSpace ''--9223372036854775808'' = ''--9223372036854775808''"
    "Cut ''--9223372036854775808'' CHR ''-'' = Some ([], ''-9223372036854775808'')"
    "TrimSpace ''-9223372036854775808'' = ''-9223372036854775808''"
    "ParseInt64 ''-9223372036854775808'' = Some (- 9223372036854775808)"
    by code_simp+
  with assms i show ?thesis by (simp add: parse_elem_def Let_def in_i64_def)
qed

text \<open>
  A suffix with the smallest 64-bit number makes the start of its range negative. The error of the
  seek that fails on it is sent to the client, with the path of the file on the server, although the
  comments of the file server promise that error texts are not disclosed.
\<close>

theorem serveContent_discloses_path:
  assumes "unconditional r" and "good_file f" and "get (req_Header r) ''Range'' = ''bytes=--9223372036854775808''"
  shows "\<exists>w'. serveContent lib bd bd' new_response r name m (Inr (int (length (f_data f)))) f = Returns w' \<and>
    status w' = 416 \<and> rw_body w' = ''seek '' @ f_path f @ '': invalid argument'' @ nl"
proof -
  let ?n = "int (length (f_data f))"
  let ?r1 = "\<lparr>r_start = ?n - 9223372036854775808, r_length = - 9223372036854775808\<rparr>"
  have f: "in_i64 ?n" "f_noseek f = None" using assms(2) by (simp_all add: good_file_def)
  have "Split (drop 6 ''bytes=--9223372036854775808'') CHR '','' = [''--9223372036854775808'']" by code_simp
  then have pr: "parseRange (get (req_Header r) ''Range'') ?n = Inr [?r1]"
    using smallest_suffix [OF f(1)] by (simp add: assms(3) parseRange_def HasPrefix_def del: drop_Cons_numeral)
  have "sumRangesSize [?r1] \<le> ?n" by (simp add: sumRangesSize_eq in_i64_def)
  moreover have "?n - 9223372036854775808 < 0" using f(1) by (simp add: in_i64_def)
  ultimately show ?thesis
    using serveContent_unconditional [OF assms(1,2), of ?n] pr f
    by (simp add: plan_ranges_def Seek_def http_Error_body bodyAllowed_def prepared_header)
qed

theorem serveContent_discloses_path_witness:
  "\<exists>w'. serveContent seconds_lib ''b'' ''c'' new_response (etag_request ''Range'' ''bytes=--9223372036854775808'') ''d.txt'' 5
     (Inr (int (length (f_data ex_file)))) ex_file = Returns w' \<and>
    status w' = 416 \<and> rw_body w' = ''seek '' @ f_path ex_file @ '': invalid argument'' @ nl"
  by (rule serveContent_discloses_path) simp_all

text \<open>
  Two ranges, one of them the suffix with the smallest 64-bit number, make the start of
  that range negative; seeking there fails inside the streaming goroutine and the handler
  panics on the failed read.
\<close>

theorem serveContent_range_panics:
  assumes "unconditional r" and "Method r \<noteq> ''HEAD''" and "good_file f"
    and "2 \<le> int (length (f_data f))"
    and "get (req_Header r) ''Range'' = ''bytes=--9223372036854775808,0-1''"
  shows "serveContent lib bd bd' new_response r name m (Inr (int (length (f_data f)))) f = Panics"
proof -
  let ?n = "int (length (f_data f))"
  let ?r1 = "\<lparr>r_start = ?n - 9223372036854775808, r_length = - 9223372036854775808\<rparr>"
  let ?r2 = "\<lparr>r_start = 0, r_length = 2\<rparr>"
  have f: "in_i64 ?n" "f_readok f" "f_noseek f = None" using assms(3) by (simp_all add: good_file_def)
  have p: "Split (drop 6 ''bytes=--9223372036854775808,0-1'') CHR '','' = [''--9223372036854775808'', ''0-1'']"
    "TrimSpace ''0-1'' = ''0-1''" "Cut ''0-1'' CHR ''-'' = Some (''0'', ''1'')"
    "TrimSpace ''0'' = ''0''" "TrimSpace ''1'' = ''1''"
    "ParseInt64 ''0'' = Some 0" "ParseInt64 ''1'' = Some 1"
    by code_simp+
  have "parse_elem ''0-1'' ?n = Range ?r2"
    using assms(4) by (auto simp: parse_elem_def p Let_def in_i64_def)
  with smallest_suffix [OF f(1)] have pr: "parseRange (get (req_Header r) ''Range'') ?n = Inr [?r1, ?r2]"
    by (simp add: assms(5) parseRange_def p(1) HasPrefix_def del: drop_Cons_numeral)
  have "sumRangesSize [?r1, ?r2] \<le> ?n"
    by (simp add: sumRangesSize_eq in_i64_def)
  then have "serveContent lib bd bd' new_response r name m (Inr ?n) f =
      finish r (set_header ''Content-Type'' (''multipart/byteranges; boundary='' @ bd) (prepared lib name m f),
        206, rangesMIMESize [?r1, ?r2] (content_type lib name f) ?n bd', None)"
    using serveContent_unconditional [OF assms(1,3), of ?n] pr f
    by (simp add: plan_ranges_def copyN_def in_i64_def)
  then show ?thesis using assms(2) by (simp add: finish_def send_content_def Let_def)
qed

theorem serveContent_range_panics_witness:
  "serveContent seconds_lib ''b'' ''c'' new_response
      (etag_request ''Range'' ''bytes=--9223372036854775808,0-1'') ''d.txt'' 5
     (Inr (int (length (f_data ex_file)))) ex_file = Panics"
  by (rule serveContent_range_panics) simp_all


section \<open>Serving files and directories\<close>

text \<open>
  Whatever error the file system reports, the client sees one of three fixed messages
  with the matching status: error texts of the operating system are not disclosed.
\<close>

theorem serveFile_error_masked:
  assumes "fs name = Inl err" and "\<not> HasSuffix (URL_Path r) indexPage"
  shows "\<exists>w'. serveFile lib bd bd' new_response r fs name redirect = Returns w' \<and>
    (status w', rw_body w') =
      (if err = ErrNotExist then (404, ''404 page not found'' @ nl)
       else if err = ErrPermission then (403, ''403 Forbidden'' @ nl)
       else (500, ''500 Internal Server Error'' @ nl))"
  using assms
  by (auto simp: serveFile_def Let_def toHTTPError_def IsNotExist_def IsPermission_def http_Error_def
      write_body_def bodyAllowed_def WriteHeader_def status_def header_Get_def)

theorem serveFile_error_masked_witness:
  "\<exists>w'. serveFile seconds_lib ''b'' ''c'' new_response (etag_request ''Range'' []) (\<lambda>_. Inl (ErrOther ''EIO''))
     ''/x'' True = Returns w' \<and>
    (status w', rw_body w') =
      (if ErrOther ''EIO'' = ErrNotExist then (404, ''404 page not found'' @ nl)
       else if ErrOther ''EIO'' = ErrPermission then (403, ''403 Forbidden'' @ nl)
       else (500, ''500 Internal Server Error'' @ nl))"
  by (rule serveFile_error_masked) (simp_all add: etag_request_def indexPage_def HasSuffix_def HasPrefix_def)

lemma localRedirect_status [simp]:
  "rw_sent w = None \<Longrightarrow> status (localRedirect w r p) = 301"
  "rw_sent w = None \<Longrightarrow> RawQuery r = [] \<Longrightarrow> header_Get (sent_header (localRedirect w r p)) ''Location'' = p"
  by (simp_all add: localRedirect_def Let_def)

definition upath_of :: "request \<Rightarrow> string" where
  "upath_of r = (if HasPrefix (URL_Path r) ''/'' then URL_Path r else CHR ''/'' # URL_Path r)"

lemma upath_of_not_Nil [simp]: "upath_of r \<noteq> []"
  by (auto simp: upath_of_def HasPrefix_def)

text \<open>
  The handler canonicalises URLs: a directory requested without its final slash and a
  file requested with one are redirected (301) to the other form, relative to the last
  element of the path.
\<close>

theorem fileHandler_canonical_redirect:
  assumes "root (Clean (upath_of r)) = Inr f" and "f_Stat f = Inr d"
    and "\<not> HasSuffix (upath_of r) indexPage" and "RawQuery r = []"
    and "fi_isdir d = (last (upath_of r) \<noteq> CHR ''/'')"
  shows "\<exists>w'. fileHandler_ServeHTTP lib bd bd' root new_response r = Returns w' \<and> status w' = 301 \<and>
    header_Get (sent_header w') ''Location'' =
      (if fi_isdir d then Base (upath_of r) @ ''/'' else ''../'' @ Base (upath_of r))"
proof -
  have "ends_in_slash (upath_of r) = Returns (\<not> fi_isdir d)"
    using assms(5) by (simp add: ends_in_slash_def last_conv_nth)
  with assms(1-4) show ?thesis
    by (simp add: fileHandler_ServeHTTP_def serveFile_def Let_def upath_of_def [symmetric])
qed

definition ex_dir :: os_file where
  "ex_dir = ex_file\<lparr>f_Stat := Inr \<lparr>fi_name = ''sub'', fi_size = 0, fi_modtime = 5, fi_isdir = True\<rparr>\<rparr>"

theorem fileHandler_canonical_redirect_witness:
  "\<exists>w'. fileHandler_ServeHTTP seconds_lib ''b'' ''c'' (\<lambda>_. Inr ex_dir) new_response
      ((etag_request ''Range'' [])\<lparr>URL_Path := ''/a/sub''\<rparr>) = Returns w' \<and> status w' = 301 \<and>
    header_Get (sent_header w') ''Location'' = ''sub/''"
proof -
  let ?r = "(etag_request ''Range'' [])\<lparr>URL_Path := ''/a/sub''\<rparr>"
  let ?d = "\<lparr>fi_name = ''sub'', fi_size = 0, fi_modtime = 5, fi_isdir = True\<rparr>"
  have u: "upath_of ?r = ''/a/sub''" by (simp add: upath_of_def HasPrefix_def)
  have b: "Base ''/a/sub'' = ''sub''" by code_simp
  have q: "RawQuery ?r = []" by (simp add: etag_request_def)
  show ?thesis
    using fileHandler_canonical_redirect [of "\<lambda>_. Inr ex_dir" ?r ex_dir ?d seconds_lib "''b''" "''c''"]
    by (simp add: u b q ex_dir_def indexPage_def HasSuffix_def HasPrefix_def)
qed

lemma send_content_returns: "sendContent \<noteq> None \<Longrightarrow> \<exists>w'. send_content r code sendContent w = Returns w'"
  by (auto simp: send_content_def Let_def)

lemma serve_entry_returns:
  assumes "unconditional r" and "get (req_Header r) ''Range'' = []" and "f_readok f"
  shows "\<exists>w'. serve_entry lib bd bd' w r f d = Returns w'"
proof (cases "fi_isdir d")
  case False
  have sum: "\<not> 0 < sumRangesSize []" by (simp add: sumRangesSize_def)
  show ?thesis
    using False assms(3) send_content_returns [of "Some (f_data f)"]
    by (simp add: serve_entry_def serveContent_def checkPreconditions_unconditional [OF assms(1)] assms(2)
        parseRange_def plan_ranges_def Let_def)
qed (simp add: serve_entry_def)

lemma fileHandler_returns_lemma:
  assumes "unconditional r" and "get (req_Header r) ''Range'' = []"
    and "\<And>n f. root n = Inr f \<Longrightarrow> f_readok f"
  shows "\<exists>w'. fileHandler_ServeHTTP lib bd bd' root w r = Returns w'"
proof -
  let ?r = "r\<lparr>URL_Path := upath_of r\<rparr>"
  have "unconditional ?r" "get (req_Header ?r) ''Range'' = []"
    using assms(1,2) by (simp_all add: unconditional_def)
  note entry = serve_entry_returns [OF this]
  have url: "ends_in_slash (upath_of r) = Returns (last (upath_of r) = CHR ''/'')"
    by (simp add: ends_in_slash_def last_conv_nth)
  show ?thesis
    using entry [OF assms(3)]
    by (auto simp: fileHandler_ServeHTTP_def serveFile_def Let_def upath_of_def [symmetric] url
        split: sum.splits prod.splits)
qed

text \<open>
  The plain file whose content answers a request: the one at the cleaned path when the path has no
  final slash, the index page of the directory there when it has one; none when the answer is a redirect, an
  error or a listing.
\<close>

definition entry_at :: "fileSystem \<Rightarrow> string \<Rightarrow> (os_file \<times> file_info) option" where
  "entry_at root n = (case root n of Inl _ \<Rightarrow> None
     | Inr f \<Rightarrow> (case f_Stat f of Inl _ \<Rightarrow> None | Inr d \<Rightarrow> Some (f, d)))"

definition content_file :: "fileSystem \<Rightarrow> request \<Rightarrow> (os_file \<times> file_info) option" where
  "content_file root r =
     (let up = upath_of r; slash = (last up = CHR ''/'') in
      if HasSuffix up indexPage then None
      else case entry_at root (Clean up) of
        None \<Rightarrow> None
      | Some (f, d) \<Rightarrow>
          if \<not> fi_isdir d then (if slash then None else Some (f, d))
          else if \<not> slash then None
          else (case entry_at root (TrimSuffix (Clean up) ''/'' @ indexPage) of
              None \<Rightarrow> None
            | Some (ff, dd) \<Rightarrow> if fi_isdir dd then None else Some (ff, dd)))"

lemma serve_entry_panics_iff:
  assumes "unconditional r" and "get (req_Header r) ''Range'' = []"
  shows "serve_entry lib bd bd' w r f d = Panics \<longleftrightarrow> \<not> fi_isdir d \<and> Method r \<noteq> ''HEAD'' \<and> \<not> f_readok f \<and>
    (rw_header w ''Content-Type'' = None \<and> TypeByExtension lib (Ext (fi_name d)) = [] \<longrightarrow> f_noseek f = None)"
proof (cases "fi_isdir d")
  case False
  have sum: "\<not> 0 < sumRangesSize []" by (simp add: sumRangesSize_def)
  show ?thesis
    using False
    by (auto simp: serve_entry_def serveContent_def checkPreconditions_unconditional [OF assms(1)] assms(2)
        parseRange_def plan_ranges_def send_content_def Seek_def Let_def split: option.splits)
qed (simp add: serve_entry_def)

text \<open>
  C27. For a request without conditional headers and without a range, on every path and every file
  system, the handler returns a response with one exception: it panics exactly when the request is not a
  \<open>HEAD\<close>, the path selects a plain file, and that file cannot be read (and its type does not have
  to be guessed with a seek that fails, which is answered 500 before). In particular the index expressions
  on the URL never panic.
\<close>

theorem fileHandler_panics_iff:
  assumes "unconditional r" and "get (req_Header r) ''Range'' = []"
  shows "fileHandler_ServeHTTP lib bd bd' root w r = Panics \<longleftrightarrow>
    Method r \<noteq> ''HEAD'' \<and> (\<exists>f d. content_file root r = Some (f, d) \<and> \<not> f_readok f \<and>
      (rw_header w ''Content-Type'' = None \<and> TypeByExtension lib (Ext (fi_name d)) = [] \<longrightarrow> f_noseek f = None))"
proof -
  let ?r = "r\<lparr>URL_Path := upath_of r\<rparr>"
  have "unconditional ?r" "get (req_Header ?r) ''Range'' = []"
    using assms(1,2) by (simp_all add: unconditional_def)
  note entry = serve_entry_panics_iff [OF this]
  have url: "ends_in_slash (upath_of r) = Returns (last (upath_of r) = CHR ''/'')"
    by (simp add: ends_in_slash_def last_conv_nth)
  show ?thesis
    unfolding fileHandler_ServeHTTP_def serveFile_def content_file_def entry_at_def Let_def upath_of_def [symmetric]
    by (auto simp: url entry split: sum.splits prod.splits)
qed

theorem fileHandler_panics_iff_witness:
  "fileHandler_ServeHTTP seconds_lib ''b'' ''c'' (\<lambda>_. Inr (ex_file\<lparr>f_readok := False\<rparr>)) new_response
     ((etag_request ''Accept'' ''x'')\<lparr>URL_Path := ''/d.txt''\<rparr>) = Panics"
proof -
  let ?r = "(etag_request ''Accept'' ''x'')\<lparr>URL_Path := ''/d.txt''\<rparr>" and ?f = "ex_file\<lparr>f_readok := False\<rparr>"
  have "upath_of ?r = ''/d.txt''" by (simp add: upath_of_def HasPrefix_def)
  then have "content_file (\<lambda>_. Inr ?f) ?r = Some (?f, \<lparr>fi_name = ''d.txt'', fi_size = 10, fi_modtime = 5, fi_isdir = False\<rparr>)"
    by (simp add: content_file_def entry_at_def ex_file_def indexPage_def HasSuffix_def HasPrefix_def)
  moreover have "unconditional ?r" "get (req_Header ?r) ''Range'' = []" "Method ?r \<noteq> ''HEAD''"
    by (simp_all add: unconditional_def etag_request_def header_Get_def get_def)
  ultimately show ?thesis
    using fileHandler_panics_iff [of ?r seconds_lib "''b''" "''c''" "\<lambda>_. Inr ?f" new_response] by (simp add: ex_file_def)
qed

end
