(* ===== verification/StaticSite.thy ===== *)
theory StaticSite
  imports FileServer
begin

text \<open>
  The white-labelled static site of \<open>src/proxy/static.go\<close>: branding of three files at
  start-up, and the handler that serves branded files, files on disk, and the branded
  entry page for every other path; and the login page of \<open>src/proxy/page.go\<close>.
\<close>

section \<open>Branding\<close>

text \<open>The environment: \<open>os.Getenv\<close> gives the empty string for an unset variable.\<close>

type_synonym environ = "string \<Rightarrow> string"

record branding =
  appName :: string
  brandedFiles :: "string \<Rightarrow> bytes option"

definition initial_branding :: branding where
  "initial_branding = \<lparr>appName = ''python3'', brandedFiles = (\<lambda>_. None)\<rparr>"

definition brand_file ::
  "(string \<Rightarrow> os_error + bytes) \<Rightarrow> string \<Rightarrow> string \<Rightarrow> branding \<Rightarrow> branding" where
  "brand_file readFile htmlDir f b =
     (case readFile (Join [htmlDir, f]) of
        Inl _ \<Rightarrow> b
      | Inr c \<Rightarrow> b\<lparr>brandedFiles := (brandedFiles b)(CHR ''/'' # f \<mapsto>
                    ReplaceAll c ''__APP_NAME__'' (appName b))\<rparr>)"

definition branded_names :: "string list" where
  "branded_names = [''index.html'', ''manifest.webmanifest'', ''webauthn.html'']"

definition loadBranding ::
  "environ \<Rightarrow> (string \<Rightarrow> os_error + bytes) \<Rightarrow> string \<Rightarrow> branding \<Rightarrow> branding" where
  "loadBranding env readFile htmlDir b =
     (let v = TrimSpace (env ''APP_NAME'');
          b1 = (if v \<noteq> [] then b\<lparr>appName := v\<rparr> else b)
      in fold (brand_file readFile htmlDir) branded_names b1)"

section \<open>The handler\<close>

definition serve_branded :: "string \<Rightarrow> bytes \<Rightarrow> response_writer \<Rightarrow> response_writer" where
  "serve_branded name b w =
     write_body b (set_header ''Content-Type''
       (if HasSuffix name ''.webmanifest'' then ''application/manifest+json''
        else ''text/html; charset=utf-8'') w)"

definition on_disk :: "fileSystem \<Rightarrow> string \<Rightarrow> bool" where
  "on_disk root name =
     (case root name of
        Inl _ \<Rightarrow> False
      | Inr f \<Rightarrow> (case f_Stat f of Inl _ \<Rightarrow> False | Inr st \<Rightarrow> \<not> fi_isdir st))"

definition spa_name :: "request \<Rightarrow> string" where
  "spa_name r =
     (let upath = (if HasPrefix (URL_Path r) ''/'' then URL_Path r else CHR ''/'' # URL_Path r);
          name = Clean upath
      in if name = ''/'' then ''/index.html'' else name)"

definition spaFileServer ::
  "weblib \<Rightarrow> string \<Rightarrow> string \<Rightarrow> branding \<Rightarrow> fileSystem \<Rightarrow> response_writer \<Rightarrow> request \<Rightarrow>
   response_writer res" where
  "spaFileServer lib bd bd' br root w r =
     (let name = spa_name r in
      case brandedFiles br name of
        Some b \<Rightarrow> Returns (serve_branded name b w)
      | None \<Rightarrow>
          if on_disk root name then fileHandler_ServeHTTP lib bd bd' root w r
          else case brandedFiles br ''/index.html'' of
            Some b \<Rightarrow>
              Returns (write_body b (set_header ''Content-Type'' ''text/html; charset=utf-8'' w))
          | None \<Rightarrow>
              (case root ''/index.html'' of
                 Inl _ \<Rightarrow> Returns (NotFound w)
               | Inr index \<Rightarrow>
                   (case f_Stat index of
                      Inl _ \<Rightarrow> Returns (NotFound w)
                    | Inr st \<Rightarrow> ServeContent lib bd bd' w r ''index.html'' (fi_modtime st) index)))"

section \<open>The login page\<close>

text \<open>
  The page is fixed markup around the escaped application name and the banner with the
  escaped message. \<open>login_head\<close>, \<open>login_middle\<close> and \<open>login_tail\<close> are the fixed parts.
\<close>

definition login_head :: string where
  \<open>login_head = join nl
    [''<!doctype html>'',
     ''<html lang="en">'',
     ''<head>'',
     ''<meta charset="utf-8">'',
     ''<meta name="viewport" content="width=device-width, initial-scale=1">'',
     ''<title>'']\<close>

definition login_middle :: string where
  \<open>login_middle = join nl
    [''</title>'',
     ''<script>try{var __t=localStorage.getItem('theme');if(__t)document.documentElement.setAttribute('data-theme',__t);}catch(e){}</script>'',
     ''<style>'',
     ''  :root { --bg:#09090b; --panel:#18181b; --border:#27272a; --fg:#fafafa; --muted:#a1a1aa;'',
     ''          --accent:#fafafa; --accent-hover:#e4e4e7; --accent-fg:#18181b; --danger:#ef4444; --ring:rgba(250,250,250,.30); }'',
     ''  :root[data-theme="light"] { --bg:#ffffff; --panel:#ffffff; --border:#e4e4e7; --fg:#09090b; --muted:#71717a;'',
     ''          --accent:#18181b; --accent-hover:#27272a; --accent-fg:#fafafa; --danger:#dc2626; --ring:rgba(24,24,27,.22); }'',
     ''  body { font-family: system-ui, -apple-system, sans-serif; background: var(--bg); color: var(--fg);'',
     ''         display: flex; min-height: 100vh; align-items: center; justify-content: center; margin: 0; }'',
     ''  form { background: var(--panel); padding: 1.75rem; border-radius: 12px; border: 1px solid var(--border);'',
     ''         width: 280px; box-shadow: 0 12px 32px rgba(0,0,0,.55); }'',
     ''  h1 { font-size: 1.05rem; font-weight: 600; margin: 0 0 1.1rem; text-align: center; }'',
     ''  input { width: 100%; box-sizing: border-box; padding: .7rem; font-size: 1.4rem;'',
     ''          letter-spacing: .4em; text-align: center; border-radius: 8px;'',
     ''          border: 1px solid var(--border); background: var(--bg); color: var(--fg);'',
     ''          transition: border-color .12s ease, box-shadow .12s ease; }'',
     ''  input:focus { outline: none; border-color: var(--accent); box-shadow: 0 0 0 3px var(--ring); }'',
     ''  button { width: 100%; margin-top: 1rem; padding: .7rem; font-size: 1rem; cursor: pointer;'',
     ''           border: none; border-radius: 8px; background: var(--accent); color: var(--accent-fg); font-weight: 600; }'',
     ''  button:hover { background: var(--accent-hover); }'',
     ''  .err { color: var(--danger); font-size: .85rem; margin: 0 0 1rem; }'',
     ''</style>'',
     ''</head>'',
     ''<body>'',
     ''  <form method="post" action="/auth/login">'',
     ''    <h1>Enter your 6-digit code</h1>'']\<close>

definition login_tail :: string where
  \<open>login_tail = join nl
    ['''',
     ''    <input name="code" inputmode="numeric" pattern="[0-9]*" maxlength="6"'',
     ''           autocomplete="one-time-code" autofocus placeholder="000000">'',
     ''    <button type="submit">Unlock</button>'',
     ''  </form>'',
     ''</body>'',
     ''</html>'']\<close>

definition login_banner :: "string \<Rightarrow> string" where
  "login_banner msg =
     (if msg \<noteq> [] then ''<p class='' @ [CHR 0x22] @ ''err'' @ [CHR 0x22] @ ''>'' @ EscapeString msg @ ''</p>''
      else [])"

definition loginPage :: "string \<Rightarrow> string \<Rightarrow> string" where
  "loginPage app msg =
     login_head @ EscapeString app @ login_middle @ login_banner msg @ login_tail"

section \<open>Properties\<close>

lemma brand_file_other:
  "CHR ''/'' # f \<noteq> k \<Longrightarrow> brandedFiles (brand_file rf d f b) k = brandedFiles b k"
  by (simp add: brand_file_def split: sum.splits)

lemma brand_file_appName [simp]: "appName (brand_file rf d f b) = appName b"
  by (simp add: brand_file_def split: sum.splits)

lemma serve_branded_ok:
  assumes "rw_sent w = None" and "rw_contentLength w = - 1" and "rw_written w = 0" and "rw_body w = []"
    and "header_Get (rw_header w) ''Content-Length'' = []" and "in_i64 (int (length b))"
  shows "status (write_body b (set_header ''Content-Type'' ct w)) = 200"
    and "rw_body (write_body b (set_header ''Content-Type'' ct w)) = b"
    and "header_Get (sent_header (write_body b (set_header ''Content-Type'' ct w))) ''Content-Type'' = ct"
  using assms
  by (simp_all add: write_body_def WriteHeader_def bodyAllowed_def status_def sent_header_def Let_def)

text \<open>
  Single-page fallback: with a branded entry page loaded, every path that is neither
  branded nor a regular file on disk is answered with status 200 and the branded entry
  page; so is the root path.
\<close>

theorem spa_fallback:
  assumes "brandedFiles br ''/index.html'' = Some b" and "in_i64 (int (length b))"
    and "spa_name r = ''/index.html'' \<or> brandedFiles br (spa_name r) = None \<and> \<not> on_disk root (spa_name r)"
  shows "\<exists>w'. spaFileServer lib bd bd' br root new_response r = Returns w' \<and> status w' = 200 \<and>
    rw_body w' = b \<and> header_Get (sent_header w') ''Content-Type'' = ''text/html; charset=utf-8''"
proof -
  have "\<not> HasSuffix ''/index.html'' ''.webmanifest''" by code_simp
  with assms show ?thesis
    using serve_branded_ok [of new_response b "''text/html; charset=utf-8''"]
    by (auto simp: spaFileServer_def serve_branded_def Let_def)
qed

lemma spa_name_rooted: "\<exists>cs. spa_name r = CHR ''/'' # join ''/'' cs \<and> list_all plain_comp cs"
proof -
  let ?u = "if HasPrefix (URL_Path r) ''/'' then URL_Path r else CHR ''/'' # URL_Path r"
  have u: "?u \<noteq> []" "hd ?u = CHR ''/''" by (auto simp: HasPrefix_iff)
  show ?thesis
  proof (cases "Clean ?u = ''/''")
    case True
    then show ?thesis
      by (intro exI [of _ "[''index.html'']"]) (simp add: spa_name_def Let_def plain_comp_def)
  next
    case False
    then show ?thesis
      using Clean_rooted [OF u(2,1)]
      by (intro exI [of _ "clean_comps True ?u"])
        (auto simp: spa_name_def Let_def list_all_iff dest: clean_comps_plain)
  qed
qed

text \<open>
  The site handler returns a response for every request without conditional headers and
  range, on every file system whose files can be read, branded or not.
\<close>

theorem spa_returns:
  assumes "unconditional r" and "get (req_Header r) ''Range'' = []"
    and "\<And>n f. root n = Inr f \<Longrightarrow> f_readok f"
  shows "\<exists>w'. spaFileServer lib bd bd' br root w r = Returns w'"
proof -
  have serve: "\<exists>w'. ServeContent lib bd bd' w r n m f = Returns w'" if "f_readok f" for n m f
    using that
    by (auto simp: ServeContent_def serveContent_def checkPreconditions_unconditional [OF assms(1)]
        assms(2) parseRange_def plan_ranges_def send_content_def sumRangesSize_def Let_def)
  show ?thesis
    using serve [OF assms(3)] fileHandler_returns_lemma [OF assms(1,2), of root lib bd bd' w] assms(3)
    by (auto simp: spaFileServer_def Let_def split: option.splits sum.splits)
qed

text \<open>The name of the branding is applied to the file's text.\<close>

lemma ReplaceAll_Nil [simp]: "ReplaceAll [] old new = []"
  by (simp add: ReplaceAll.simps)

lemma ReplaceAll_unchanged: "\<not> Contains s old \<Longrightarrow> ReplaceAll s old new = s"
proof (induction s)
  case (Cons c s)
  then show ?case by (subst ReplaceAll.simps) auto
qed simp

theorem spa_fallback_witness:
  "\<exists>w'. spaFileServer seconds_lib ''b'' ''c''
      (initial_branding\<lparr>brandedFiles := [''/index.html'' \<mapsto> ''hello'']\<rparr>)
      (\<lambda>_. Inl ErrNotExist) new_response ((etag_request ''Range'' [])\<lparr>URL_Path := ''/connect''\<rparr>) = Returns w' \<and>
    status w' = 200 \<and> rw_body w' = ''hello'' \<and>
    header_Get (sent_header w') ''Content-Type'' = ''text/html; charset=utf-8''"
proof (rule spa_fallback)
  have "spa_name ((etag_request ''Range'' [])\<lparr>URL_Path := ''/connect''\<rparr>) = ''/connect''"
  proof -
    have "Clean ''/connect'' = ''/connect''" by code_simp
    then show ?thesis by (simp add: spa_name_def HasPrefix_def)
  qed
  then show "spa_name ((etag_request ''Range'' [])\<lparr>URL_Path := ''/connect''\<rparr>) = ''/index.html'' \<or>
     brandedFiles (initial_branding\<lparr>brandedFiles := [''/index.html'' \<mapsto> ''hello'']\<rparr>)
       (spa_name ((etag_request ''Range'' [])\<lparr>URL_Path := ''/connect''\<rparr>)) = None
     \<and> \<not> on_disk (\<lambda>_. Inl ErrNotExist) (spa_name ((etag_request ''Range'' [])\<lparr>URL_Path := ''/connect''\<rparr>))"
    by (simp add: on_disk_def)
qed (simp_all add: in_i64_def)

theorem spa_returns_witness:
  "\<exists>w'. spaFileServer seconds_lib ''b'' ''c'' initial_branding (\<lambda>_. Inr ex_file) new_response
     (etag_request ''Accept'' ''x'') = Returns w'"
  by (rule spa_returns) (auto simp: ex_file_def)

end
