(* ===== verification/GoCrypto.thy ===== *)
theory GoCrypto
  imports GoLib
begin

text \<open>
  The parts of Go's \<open>crypto\<close> and \<open>encoding\<close> packages the program uses, as executable
  functions on bytes: SHA-1, SHA-256, HMAC, hexadecimal, base32 without padding and
  constant-time comparison. Words of 32 bits are integers masked to 32 bits, which the
  kernel evaluates quickly; the published test vectors of the hash functions are checked
  at the end.
\<close>

section \<open>32-bit arithmetic\<close>

unbundle bit_operations_syntax

definition m32 :: "int \<Rightarrow> int" where
  "m32 x = x AND 0xFFFFFFFF"

definition rol :: "nat \<Rightarrow> nat \<Rightarrow> int \<Rightarrow> int" where
  "rol n n' x = m32 (push_bit n x) OR drop_bit n' x"

definition be32 :: "bytes \<Rightarrow> int" where
  "be32 bs = foldl (\<lambda>a c. a * 256 + of_char c) 0 bs"

fun words32 :: "bytes \<Rightarrow> int list" where
  "words32 (a # b # c # d # bs) = be32 [a, b, c, d] # words32 bs"
| "words32 _ = []"

definition put32 :: "int \<Rightarrow> bytes" where
  "put32 w = map (\<lambda>i. char_of (drop_bit i w)) [24, 16, 8, 0]"

section \<open>SHA-1\<close>

definition ch :: "int \<Rightarrow> int \<Rightarrow> int \<Rightarrow> int" where
  "ch b c d = (b AND c) XOR ((b XOR 0xFFFFFFFF) AND d)"

definition par :: "int \<Rightarrow> int \<Rightarrow> int \<Rightarrow> int" where
  "par b c d = b XOR c XOR d"

definition maj :: "int \<Rightarrow> int \<Rightarrow> int \<Rightarrow> int" where
  "maj b c d = (b AND c) XOR (b AND d) XOR (c AND d)"

type_synonym st5 = "int \<times> int \<times> int \<times> int \<times> int"

definition sha1_round :: "(int \<Rightarrow> int \<Rightarrow> int \<Rightarrow> int) \<Rightarrow> int \<Rightarrow> int \<Rightarrow> st5 \<Rightarrow> st5" where
  "sha1_round f k w = (\<lambda>(a, b, c, d, e). (m32 (rol 5 27 a + f b c d + e + k + w), a, rol 30 2 b, c, d))"

fun sha1_steps :: "((int \<Rightarrow> int \<Rightarrow> int \<Rightarrow> int) \<times> int) list \<Rightarrow> int list \<Rightarrow> st5 \<Rightarrow> st5" where
  "sha1_steps ((f, k) # fs) [w0,w1,w2,w3,w4,w5,w6,w7,w8,w9,w10,w11,w12,w13,w14,w15] s =
     sha1_steps fs [w1,w2,w3,w4,w5,w6,w7,w8,w9,w10,w11,w12,w13,w14,w15, rol 1 31 (w13 XOR w8 XOR w2 XOR w0)]
       (sha1_round f k w0 s)"
| "sha1_steps _ _ s = s"

definition sha1_schedule :: "((int \<Rightarrow> int \<Rightarrow> int \<Rightarrow> int) \<times> int) list" where
  "sha1_schedule = replicate 20 (ch, 0x5A827999) @ replicate 20 (par, 0x6ED9EBA1)
     @ replicate 20 (maj, 0x8F1BBCDC) @ replicate 20 (par, 0xCA62C1D6)"

definition sha1_block :: "st5 \<Rightarrow> bytes \<Rightarrow> st5" where
  "sha1_block s blk = (case s of (a, b, c, d, e) \<Rightarrow>
     case sha1_steps sha1_schedule (words32 blk) s of (a', b', c', d', e') \<Rightarrow>
       (m32 (a + a'), m32 (b + b'), m32 (c + c'), m32 (d + d'), m32 (e + e')))"

function chunks :: "nat \<Rightarrow> bytes \<Rightarrow> bytes list" where
  "chunks n bs = (if n = 0 \<or> length bs < n then [] else take n bs # chunks n (drop n bs))"
  by pat_completeness auto
termination by (relation "measure (\<lambda>(_, bs). length bs)") auto

declare chunks.simps [simp del]

definition sha_pad :: "bytes \<Rightarrow> bytes" where
  "sha_pad m = m @ [CHR 0x80] @ replicate ((119 - length m mod 64) mod 64) (CHR 0x00)
     @ map (\<lambda>i. char_of (drop_bit i (int (length m) * 8))) [56, 48, 40, 32, 24, 16, 8, 0]"

definition sha1 :: "bytes \<Rightarrow> bytes" where
  "sha1 m = (case foldl sha1_block (0x67452301, 0xEFCDAB89, 0x98BADCFE, 0x10325476, 0xC3D2E1F0) (chunks 64 (sha_pad m)) of
     (a, b, c, d, e) \<Rightarrow> put32 a @ put32 b @ put32 c @ put32 d @ put32 e)"

section \<open>SHA-256\<close>

definition ror :: "nat \<Rightarrow> nat \<Rightarrow> int \<Rightarrow> int" where
  "ror n n' x = rol n' n x"

definition sha256_K :: "int list" where
  "sha256_K =
    [1116352408, 1899447441, 3049323471, 3921009573, 961987163, 1508970993, 2453635748, 2870763221,
     3624381080, 310598401, 607225278, 1426881987, 1925078388, 2162078206, 2614888103, 3248222580,
     3835390401, 4022224774, 264347078, 604807628, 770255983, 1249150122, 1555081692, 1996064986,
     2554220882, 2821834349, 2952996808, 3210313671, 3336571891, 3584528711, 113926993, 338241895,
     666307205, 773529912, 1294757372, 1396182291, 1695183700, 1986661051, 2177026350, 2456956037,
     2730485921, 2820302411, 3259730800, 3345764771, 3516065817, 3600352804, 4094571909, 275423344,
     430227734, 506948616, 659060556, 883997877, 958139571, 1322822218, 1537002063, 1747873779,
     1955562222, 2024104815, 2227730452, 2361852424, 2428436474, 2756734187, 3204031479, 3329325298]"

type_synonym st8 = "int list"

definition sha256_round :: "int \<Rightarrow> int \<Rightarrow> st8 \<Rightarrow> st8" where
  "sha256_round k w s = (case s of [a, b, c, d, e, f, g, h] \<Rightarrow>
     let t1 = h + (ror 6 26 e XOR ror 11 21 e XOR ror 25 7 e) + ch e f g + k + w;
         t2 = (ror 2 30 a XOR ror 13 19 a XOR ror 22 10 a) + maj a b c
     in [m32 (t1 + t2), a, b, c, m32 (d + t1), e, f, g] | _ \<Rightarrow> s)"

fun sha256_steps :: "int list \<Rightarrow> int list \<Rightarrow> st8 \<Rightarrow> st8" where
  "sha256_steps (k # ks) [w0,w1,w2,w3,w4,w5,w6,w7,w8,w9,w10,w11,w12,w13,w14,w15] s =
     sha256_steps ks [w1,w2,w3,w4,w5,w6,w7,w8,w9,w10,w11,w12,w13,w14,w15,
         m32 ((ror 17 15 w14 XOR ror 19 13 w14 XOR drop_bit 10 w14) + w9
              + (ror 7 25 w1 XOR ror 18 14 w1 XOR drop_bit 3 w1) + w0)]
       (sha256_round k w0 s)"
| "sha256_steps _ _ s = s"

definition sha256_block :: "st8 \<Rightarrow> bytes \<Rightarrow> st8" where
  "sha256_block s blk = map2 (\<lambda>a b. m32 (a + b)) s (sha256_steps sha256_K (words32 blk) s)"

definition sha256_init :: st8 where
  "sha256_init = [0x6a09e667, 0xbb67ae85, 0x3c6ef372, 0xa54ff53a, 0x510e527f, 0x9b05688c, 0x1f83d9ab, 0x5be0cd19]"

definition sha256 :: "bytes \<Rightarrow> bytes" where
  "sha256 m = concat (map put32 (foldl sha256_block sha256_init (chunks 64 (sha_pad m))))"

section \<open>HMAC\<close>

text \<open>Both hash functions have blocks of 64 bytes.\<close>

definition xor_byte :: "char \<Rightarrow> char \<Rightarrow> char" where
  "xor_byte a b = char_of ((of_char a :: int) XOR of_char b)"

definition hmac :: "(bytes \<Rightarrow> bytes) \<Rightarrow> bytes \<Rightarrow> bytes \<Rightarrow> bytes" where
  "hmac H key msg =
     (let k0 = (if 64 < length key then H key else key);
          k = k0 @ replicate (64 - length k0) (CHR 0x00);
          ipad = map (xor_byte (CHR 0x36)) k;
          opad = map (xor_byte (CHR 0x5C)) k
      in H (opad @ H (ipad @ msg)))"

section \<open>Encodings\<close>

definition hexdigit :: "nat \<Rightarrow> char" where
  "hexdigit n = ''0123456789abcdef'' ! n"

definition hex :: "bytes \<Rightarrow> string" where
  "hex bs = concat (map (\<lambda>c. [hexdigit (of_char c div 16), hexdigit (of_char c mod 16)]) bs)"

text \<open>
  \<open>base32.StdEncoding.WithPadding(base32.NoPadding).DecodeString\<close>: newlines are dropped, a
  byte outside the alphabet is an error, and a final group of 1, 3 or 6 characters
  contributes no byte.
\<close>

definition base32_val :: "char \<Rightarrow> int option" where
  "base32_val c = (let n = (of_char c :: int) in
     if 65 \<le> n \<and> n \<le> 90 then Some (n - 65) else if 50 \<le> n \<and> n \<le> 55 then Some (n - 24) else None)"

fun base32_group :: "int list \<Rightarrow> int list" where
  "base32_group [a, b, c, d, e, f, g, h] =
     base32_group [a, b, c, d, e, f, g] @ [(g * 32) mod 256 + h]"
| "base32_group [a, b, c, d, e, f, g] =
     base32_group [a, b, c, d, e] @ [(e * 128) mod 256 + f * 4 + g div 8]"
| "base32_group [a, b, c, d, e] = base32_group [a, b, c, d] @ [(d * 16) mod 256 + e div 2]"
| "base32_group [a, b, c, d] = base32_group [a, b] @ [(b * 64) mod 256 + c * 2 + d div 16]"
| "base32_group [a, b] = [a * 8 + b div 4]"
| "base32_group _ = []"

function base32_bytes :: "int list \<Rightarrow> int list" where
  "base32_bytes vs = (if vs = [] then [] else base32_group (take 8 vs) @ base32_bytes (drop 8 vs))"
  by pat_completeness auto
termination by (relation "measure length") auto

declare base32_bytes.simps [simp del]

definition base32_decode :: "string \<Rightarrow> bytes option" where
  "base32_decode s =
     (let vs = map base32_val (filter (\<lambda>c. c \<noteq> CHR 0x0D \<and> c \<noteq> CHR 0x0A) s)
      in if None \<in> set vs then None else Some (map char_of (base32_bytes (map the vs))))"

text \<open>\<open>subtle.ConstantTimeCompare\<close> as a truth value: equal lengths and equal bytes.\<close>

definition ConstantTimeCompare :: "bytes \<Rightarrow> bytes \<Rightarrow> bool" where
  "ConstantTimeCompare x y \<longleftrightarrow>
     length x = length y \<and> foldl (\<lambda>v (a, b). v OR ((of_char a :: int) XOR of_char b)) 0 (zip x y) = 0"

section \<open>Facts\<close>

lemma of_char_nonneg [simp]: "0 \<le> (of_char c :: int)"
  by (metis of_nat_0_le_iff of_nat_of_char)

lemma xor_fold_zero:
  assumes "length x = length y" and "0 \<le> v"
  shows "foldl (\<lambda>v (a, b). v OR ((of_char a :: int) XOR of_char b)) v (zip x y) = 0 \<longleftrightarrow> v = 0 \<and> x = y"
  using assms
proof (induction x y arbitrary: v rule: list_induct2)
  case (Cons a x b y)
  have nonneg: "0 \<le> (of_char a :: int) XOR of_char b" by simp
  then have "0 \<le> v OR ((of_char a :: int) XOR of_char b)" using Cons.prems by simp
  from Cons.IH [OF this] have "foldl (\<lambda>v (a, b). v OR ((of_char a :: int) XOR of_char b)) v (zip (a # x) (b # y)) = 0
      \<longleftrightarrow> v OR ((of_char a :: int) XOR of_char b) = 0 \<and> x = y" by simp
  moreover have "v OR ((of_char a :: int) XOR of_char b) = 0 \<longleftrightarrow> v = 0 \<and> (of_char a :: int) XOR of_char b = 0"
    by (simp add: or_eq_0_iff)
  moreover have "(of_char a :: int) XOR of_char b = 0 \<longleftrightarrow> a = b"
    by (metis of_char_eq_iff xor_self_eq xor.assoc xor.right_neutral)
  ultimately show ?case by simp
qed simp

lemma ConstantTimeCompare_iff [simp]: "ConstantTimeCompare x y \<longleftrightarrow> x = y"
  using xor_fold_zero [of x y 0] by (auto simp: ConstantTimeCompare_def)

lemma length_put32 [simp]: "length (put32 w) = 4"
  by (simp add: put32_def)

lemma length_sha1 [simp]: "length (sha1 m) = 20"
  by (simp add: sha1_def split: prod.splits)

lemma length_hmac_sha1 [simp]: "length (hmac sha1 k m) = 20"
  by (simp add: hmac_def Let_def)

lemma hexdigit_set: "n < 16 \<Longrightarrow> hexdigit n \<in> set ''0123456789abcdef''"
  unfolding hexdigit_def by (intro nth_mem) simp

lemma set_hex: "set (hex bs) \<subseteq> set ''0123456789abcdef''"
proof -
  have "hexdigit (of_char c div 16) \<in> set ''0123456789abcdef''"
    "hexdigit (of_char c mod 16) \<in> set ''0123456789abcdef''" for c :: char
  proof -
    have "(of_char c :: nat) < 256" by simp
    then have "(of_char c :: nat) div 16 < 16" by arith
    then show "hexdigit (of_char c div 16) \<in> set ''0123456789abcdef''" by (rule hexdigit_set)
    show "hexdigit (of_char c mod 16) \<in> set ''0123456789abcdef''" by (rule hexdigit_set) simp
  qed
  then show ?thesis unfolding hex_def by (induction bs) simp_all
qed

text \<open>Published test vectors: SHA-1 and SHA-256 of "abc" (FIPS 180), base32 (RFC 4648).\<close>

lemma sha1_abc: "hex (sha1 ''abc'') = ''a9993e364706816aba3e25717850c26c9cd0d89d''"
  by code_simp

text \<open>
  The round constants are the first 32 bits of the fractional parts of the cube roots of the first
  64 primes.
\<close>

definition first_primes :: "int list" where
  "first_primes =
    [2, 3, 5, 7, 11, 13, 17, 19, 23, 29, 31, 37, 41, 43, 47, 53,
     59, 61, 67, 71, 73, 79, 83, 89, 97, 101, 103, 107, 109, 113, 127, 131,
     137, 139, 149, 151, 157, 163, 167, 173, 179, 181, 191, 193, 197, 199, 211, 223,
     227, 229, 233, 239, 241, 251, 257, 263, 269, 271, 277, 281, 283, 293, 307, 311]"

lemma sha256_K_cube_roots:
  "list_all2 (\<lambda>p k. list_ex (\<lambda>m. (m * 2 ^ 32 + k) ^ 3 \<le> p * 2 ^ 96 \<and> p * 2 ^ 96 < (m * 2 ^ 32 + k + 1) ^ 3)
      [1, 2, 3, 4, 5, 6]) first_primes sha256_K"
  by code_simp

lemma sha256_abc:
  "hex (sha256 ''abc'') = ''ba7816bf8f01cfea414140de5dae2223b00361a396177a9cb410ff61f20015ad''"
  by code_simp

lemma base32_foobar: "base32_decode ''MZXW6YTBOI'' = Some ''foobar''"
  by code_simp

end
