(* ===== verification/Auth.thy ===== *)
theory Auth
  imports StaticSite GoCrypto
begin

text \<open>
  The login gate of \<open>src/proxy/auth.go\<close>: start-up configuration, the middleware, the login
  and logout handlers, session tokens, TOTP codes and the per-address lockout. The clock is
  an argument: handlers take the instants their successive \<open>time.Now\<close> calls return.
\<close>

section \<open>State\<close>

definition cookieName :: string where
  "cookieName = ''session''"

definition maxLoginFails :: int where
  "maxLoginFails = 10"

definition loginLockout :: duration where
  "loginLockout = 24 * hour"

record auth_config =
  gateEnabled :: bool
  totpSeed :: bytes
  signKey :: bytes
  sessionTTL :: duration

record loginAttempts =
  la_fails :: int
  la_lockedUntil :: instant
  la_last :: instant

type_synonym login_table = "string \<Rightarrow> loginAttempts option"

section \<open>Client addresses\<close>

text \<open>\<open>net.SplitHostPort\<close>: the host, or \<open>None\<close> for an error.\<close>

definition SplitHostPort :: "string \<Rightarrow> string option" where
  "SplitHostPort hp =
     (if CHR '':'' \<notin> set hp then None
      else let i = length hp - 1 - length (takeWhile (\<lambda>c. c \<noteq> CHR '':'') (rev hp)) in
        if hd hp = CHR ''['' then
          (case Cut hp CHR '']'' of
             None \<Rightarrow> None
           | Some (a, b) \<Rightarrow>
               if length a + 1 \<noteq> i \<or> CHR ''['' \<in> set (drop 1 hp) \<or> CHR '']'' \<in> set b
               then None else Some (drop 1 a))
        else let host = take i hp in
          if CHR '':'' \<in> set host \<or> CHR ''['' \<in> set hp \<or> CHR '']'' \<in> set hp then None else Some host)"

definition clientIP :: "request \<Rightarrow> string" where
  "clientIP r =
     (let xff = header_Get (req_Header r) ''X-Forwarded-For'';
          xr = header_Get (req_Header r) ''X-Real-Ip''
      in if xff \<noteq> [] then TrimSpace (Split xff CHR '','' ! 0)
         else if xr \<noteq> [] then TrimSpace xr
         else case SplitHostPort (RemoteAddr r) of Some host \<Rightarrow> host | None \<Rightarrow> RemoteAddr r)"

section \<open>Lockout\<close>

definition sweep :: "instant \<Rightarrow> login_table \<Rightarrow> login_table" where
  "sweep now tbl = (\<lambda>k. case tbl k of
       None \<Rightarrow> None
     | Some a \<Rightarrow> if loginLockout < time_Sub now (la_last a) \<and> la_lockedUntil a < now then None else Some a)"

definition loginLocked :: "instant \<Rightarrow> string \<Rightarrow> login_table \<Rightarrow> bool \<times> login_table" where
  "loginLocked now ip tbl =
     (let t = sweep now tbl
      in ((case t ip of None \<Rightarrow> False | Some a \<Rightarrow> now < la_lockedUntil a), t))"

text \<open>The two \<open>time.Now\<close> calls of \<open>recordLogin\<close> are separate readings.\<close>

definition recordLogin :: "instant \<Rightarrow> instant \<Rightarrow> string \<Rightarrow> bool \<Rightarrow> login_table \<Rightarrow> login_table" where
  "recordLogin now now' ip ok tbl =
     (if ok then tbl(ip := None)
      else let a = (case tbl ip of
                      None \<Rightarrow> \<lparr>la_fails = 0, la_lockedUntil = zeroTime, la_last = zeroTime\<rparr>
                    | Some a \<Rightarrow> a);
               a1 = a\<lparr>la_fails := i64 (la_fails a + 1), la_last := now\<rparr>;
               a2 = (if maxLoginFails \<le> la_fails a1 then a1\<lparr>la_lockedUntil := now' + loginLockout\<rparr> else a1)
           in tbl(ip \<mapsto> a2))"

section \<open>Configuration\<close>

datatype init_result = Fatal string | Running auth_config

definition truthy :: "string \<Rightarrow> bool" where
  "truthy v \<longleftrightarrow> ToLower (TrimSpace v) \<in> {''1'', ''true'', ''yes'', ''on''}"

text \<open>
  \<open>parseDuration\<close> stands for \<open>time.ParseDuration\<close>. The gate is off when the function
  returns early; \<open>log.Fatal\<close> ends the process.
\<close>

definition initAuth ::
  "(string \<Rightarrow> duration option) \<Rightarrow> environ \<Rightarrow> auth_config \<Rightarrow> init_result" where
  "initAuth parseDuration env cfg =
     (let rawSeed = ToUpper (ReplaceAll (env ''TOTP_SEED'') '' '' []);
          secret = env ''SESSION_SECRET''
      in if rawSeed = [] \<or> secret = [] then
           (if truthy (env ''AUTH_DISABLED'') then Running cfg
            else Fatal (''refusing to start: set TOTP_SEED and SESSION_SECRET to enable the login gate, ''
              @ ''or AUTH_DISABLED=true to intentionally run with no authentication''))
         else case base32_decode rawSeed of
           None \<Rightarrow> Fatal ''TOTP_SEED is not valid base32''
         | Some seed \<Rightarrow>
             if length secret < 16 then Fatal ''SESSION_SECRET must be at least 16 characters''
             else let ttl = env ''SESSION_TTL'' in
               (case (if ttl \<noteq> [] then parseDuration ttl else Some (24 * hour)) of
                  None \<Rightarrow> Fatal ''invalid SESSION_TTL''
                | Some d \<Rightarrow> Running (cfg\<lparr>totpSeed := seed, signKey := secret, sessionTTL := d,
                                       gateEnabled := True\<rparr>)))"

definition initial_config :: auth_config where
  "initial_config = \<lparr>gateEnabled = False, totpSeed = [], signKey = [], sessionTTL = 0\<rparr>"

section \<open>Session tokens\<close>

definition sign :: "auth_config \<Rightarrow> string \<Rightarrow> string" where
  "sign cfg payload = hex (hmac sha256 (signKey cfg) payload)"

definition newSession :: "auth_config \<Rightarrow> instant \<Rightarrow> string" where
  "newSession cfg expiry = (let payload = FormatInt (Unix expiry) in payload @ ''.'' @ sign cfg payload)"

definition validSession :: "auth_config \<Rightarrow> instant \<Rightarrow> string \<Rightarrow> bool" where
  "validSession cfg now token =
     (case Cut token CHR ''.'' of
        None \<Rightarrow> False
      | Some (payload, mac) \<Rightarrow>
          if \<not> ConstantTimeCompare mac (sign cfg payload) then False
          else case ParseInt64 payload of
              None \<Rightarrow> False
            | Some expiry \<Rightarrow> Unix now < expiry)"

section \<open>TOTP\<close>

definition put64 :: "int \<Rightarrow> bytes" where
  "put64 x = map (\<lambda>i. char_of (drop_bit i (x mod 18446744073709551616))) [56, 48, 40, 32, 24, 16, 8, 0]"

text \<open>\<open>%06d\<close> of a number that is not negative.\<close>

definition pad6 :: "int \<Rightarrow> string" where
  "pad6 v = (let d = dec v in replicate (6 - length d) (CHR ''0'') @ d)"

definition totpAt :: "auth_config \<Rightarrow> int \<Rightarrow> string" where
  "totpAt cfg counter =
     (let sum = hmac sha1 (totpSeed cfg) (put64 counter);
          offset = nat ((of_char (sum ! (length sum - 1)) :: int) mod 16);
          byte = (\<lambda>i. of_char (sum ! (offset + i)) :: int);
          v = (byte 0 mod 128) * 16777216 + byte 1 * 65536 + byte 2 * 256 + byte 3
      in pad6 (v mod 1000000))"

definition verifyTOTP :: "auth_config \<Rightarrow> string \<Rightarrow> instant \<Rightarrow> bool" where
  "verifyTOTP cfg code now =
     (if length code \<noteq> 6 then False
      else let counter = quot (Unix now) 30
           in list_ex (\<lambda>c. ConstantTimeCompare code (totpAt cfg c))
                [i64 (counter - 1), counter, i64 (counter + 1)])"

section \<open>Middleware and handlers\<close>

definition isPublicAsset :: "string \<Rightarrow> bool" where
  "isPublicAsset p \<longleftrightarrow>
     p \<in> {''/manifest.webmanifest'', ''/favicon.ico'', ''/icon.svg''} \<or>
     HasPrefix p ''/icon-'' \<and> HasSuffix p ''.png''"

definition authed :: "auth_config \<Rightarrow> instant \<Rightarrow> request \<Rightarrow> bool" where
  "authed cfg now r =
     (case cookie r cookieName of None \<Rightarrow> False | Some v \<Rightarrow> validSession cfg now v)"

text \<open>The wrapped handler \<open>next\<close> may change a state \<open>s\<close>; a request that is turned away does not reach it.\<close>

definition authMiddleware ::
  "auth_config \<Rightarrow> instant \<Rightarrow> (response_writer \<Rightarrow> request \<Rightarrow> 's \<Rightarrow> (response_writer \<times> 's) res) \<Rightarrow>
   response_writer \<Rightarrow> request \<Rightarrow> 's \<Rightarrow> (response_writer \<times> 's) res" where
  "authMiddleware cfg now next w r s =
     (if \<not> gateEnabled cfg \<or> HasPrefix (URL_Path r) ''/auth/'' \<or> isPublicAsset (URL_Path r) \<or> authed cfg now r
      then next w r s
      else if Method r = ''GET'' \<and> Contains (header_Get (req_Header r) ''Accept'') ''text/html''
      then Returns (Redirect r ''/auth/login'' w, s)
      else Returns (WriteHeader 401 w, s))"

text \<open>
  \<open>handleLogin\<close>: \<open>now i\<close> is the \<open>i\<close>-th reading of the clock (in \<open>loginLocked\<close>, for
  \<open>verifyTOTP\<close> after the one-second sleep, twice in \<open>recordLogin\<close>, and for the expiry).
  \<open>MaxAge\<close> is the whole number of seconds of the session's lifetime.
\<close>

definition session_cookie :: "auth_config \<Rightarrow> request \<Rightarrow> instant \<Rightarrow> http_cookie" where
  "session_cookie cfg r now =
     \<lparr>ck_Name = cookieName, ck_Value = newSession cfg (now + sessionTTL cfg), ck_Path = ''/'',
      ck_MaxAge = quot (sessionTTL cfg) second, ck_HttpOnly = True,
      ck_Secure = (header_Get (req_Header r) ''X-Forwarded-Proto'' = ''https''), ck_SameSiteLax = True\<rparr>"

definition handleLogin ::
  "string \<Rightarrow> auth_config \<Rightarrow> (nat \<Rightarrow> instant) \<Rightarrow> response_writer \<Rightarrow> request \<Rightarrow> login_table \<Rightarrow>
   response_writer \<times> login_table" where
  "handleLogin app cfg now w r tbl =
     (if Method r = ''GET'' then
        (write_body (loginPage app []) (set_header ''Content-Type'' ''text/html; charset=utf-8'' w), tbl)
      else if Method r = ''POST'' then
        (let ip = clientIP r in
         case loginLocked (now 0) ip tbl of (locked, tbl1) \<Rightarrow>
           if locked then
             (write_body (loginPage app ''Too many attempts. Try again later.'')
               (WriteHeader 429 (set_header ''Content-Type'' ''text/html; charset=utf-8'' w)), tbl1)
           else
             (let code = TrimSpace (FormValue r ''code'');
                  ok = verifyTOTP cfg code (now 1);
                  tbl2 = recordLogin (now 2) (now 3) ip ok tbl1
              in if \<not> ok then
                   (write_body (loginPage app ''Invalid code, try again.'')
                     (WriteHeader 401 (set_header ''Content-Type'' ''text/html; charset=utf-8'' w)), tbl2)
                 else
                   (Redirect r ''/''
                     (SetCookie (session_cookie cfg r (now 4)) w), tbl2)))
      else (WriteHeader 405 w, tbl))"

definition handleLogout :: "response_writer \<Rightarrow> request \<Rightarrow> response_writer" where
  "handleLogout w r =
     Redirect r ''/auth/login''
       (SetCookie \<lparr>ck_Name = cookieName, ck_Value = [], ck_Path = ''/'', ck_MaxAge = - 1,
          ck_HttpOnly = True, ck_Secure = False, ck_SameSiteLax = False\<rparr> w)"

section \<open>Session tokens: issue and check\<close>

text \<open>
  What the gate needs of its tokens: a token that was issued is valid exactly before its
  expiry, and validity is only ever lost as time passes.
\<close>

locale session_tokens =
  fixes issue :: "instant \<Rightarrow> string"
    and valid :: "instant \<Rightarrow> string \<Rightarrow> bool"
  assumes valid_issue: "in_i64 (Unix e) \<Longrightarrow> valid now (issue e) \<longleftrightarrow> Unix now < Unix e"
    and valid_earlier: "valid now tok \<Longrightarrow> now' \<le> now \<Longrightarrow> valid now' tok"
begin

lemma valid_for_lifetime:
  assumes "in_i64 (Unix (t0 + ttl))" and "t + second \<le> t0 + ttl"
  shows "valid t (issue (t0 + ttl))"
proof -
  have "Unix t + 1 \<le> Unix (t0 + ttl)"
    using assms(2) by (simp add: Unix_def zdiv_mono1 flip: div_add_self2)
  then show ?thesis using valid_issue assms(1) by simp
qed

lemma invalid_after_lifetime:
  assumes "in_i64 (Unix (t0 + ttl))" and "t0 + ttl \<le> t"
  shows "\<not> valid t (issue (t0 + ttl))"
  using assms valid_issue [of "t0 + ttl" t] zdiv_mono1 [of "t0 + ttl" t second]
  by (simp add: Unix_def)

end

lemma dot_notin_FormatInt: "CHR ''.'' \<notin> set (FormatInt n)"
  using set_FormatInt [of n] by auto

lemma validSession_iff_lemma:
  "validSession cfg now tok \<longleftrightarrow>
     (\<exists>payload expiry. tok = payload @ ''.'' @ sign cfg payload \<and> CHR ''.'' \<notin> set payload \<and>
        ParseInt64 payload = Some expiry \<and> Unix now < expiry)"
proof
  assume "validSession cfg now tok"
  then show "\<exists>payload expiry. tok = payload @ ''.'' @ sign cfg payload \<and> CHR ''.'' \<notin> set payload \<and>
      ParseInt64 payload = Some expiry \<and> Unix now < expiry"
    by (auto simp: validSession_def split: option.splits if_splits dest!: Cut_SomeD)
qed (auto simp: validSession_def)

lemma validSession_newSession:
  "in_i64 (Unix e) \<Longrightarrow> validSession cfg now (newSession cfg e) \<longleftrightarrow> Unix now < Unix e"
  by (simp add: validSession_def newSession_def Let_def Cut_append dot_notin_FormatInt ParseInt64_FormatInt)

interpretation session: session_tokens "newSession cfg" "validSession cfg" for cfg
proof
  fix now now' tok
  assume "validSession cfg now tok" and "now' \<le> now"
  moreover from this have "Unix now' \<le> Unix now" by (simp add: Unix_def zdiv_mono1)
  ultimately show "validSession cfg now' tok" unfolding validSession_iff_lemma by fastforce
qed (rule validSession_newSession)

text \<open>
  C17. A session cookie value is accepted exactly when it is a decimal expiry, a dot and the
  keyed hash of that expiry, and the expiry lies in the future: nothing else passes, whatever
  its form.
\<close>

theorem validSession_iff:
  "validSession cfg now tok \<longleftrightarrow>
     (\<exists>payload expiry. tok = payload @ ''.'' @ hex (hmac sha256 (signKey cfg) payload) \<and>
        CHR ''.'' \<notin> set payload \<and> ParseInt64 payload = Some expiry \<and> Unix now < expiry)"
  using validSession_iff_lemma by (simp add: sign_def)

text \<open>
  The token that \<open>newSession\<close> issues with lifetime \<open>ttl\<close> at \<open>t0\<close> is valid at every
  instant up to a second before its end, and at no instant from the end on.
\<close>

theorem newSession_lifetime:
  assumes "in_i64 (Unix (t0 + ttl))"
  shows "(t + second \<le> t0 + ttl \<longrightarrow> validSession cfg t (newSession cfg (t0 + ttl))) \<and>
    (t0 + ttl \<le> t \<longrightarrow> \<not> validSession cfg t (newSession cfg (t0 + ttl)))"
  using session.valid_for_lifetime session.invalid_after_lifetime assms by blast

definition demo_config :: auth_config where
  "demo_config = \<lparr>gateEnabled = True, totpSeed = ''12345678901234567890'',
     signKey = ''0123456789abcdef'', sessionTTL = 24 * hour\<rparr>"

theorem newSession_lifetime_witness:
  "validSession demo_config 0 (newSession demo_config (0 + 24 * hour))
   \<and> \<not> validSession demo_config (25 * hour) (newSession demo_config (0 + 24 * hour))"
  using newSession_lifetime [of 0 "24 * hour" 0 demo_config]
    newSession_lifetime [of 0 "24 * hour" "25 * hour" demo_config]
  by (simp add: Unix_def in_i64_def)

section \<open>One-time codes\<close>

lemma length_dec_le: "0 \<le> n \<Longrightarrow> n < 10 ^ k \<Longrightarrow> 0 < k \<Longrightarrow> length (dec n) \<le> k"
proof (induction k arbitrary: n)
  case (Suc k)
  show ?case
  proof (cases "n < 10")
    case False
    with Suc.prems have "n div 10 < 10 ^ k" "0 < k" by (auto intro: gr0I)
    with Suc.IH [of "n div 10"] Suc.prems False show ?thesis by (subst dec.simps) simp
  qed (simp add: dec.simps)
qed simp

lemma pad6_six: "0 \<le> v \<Longrightarrow> v < 1000000 \<Longrightarrow> length (pad6 v) = 6 \<and> set (pad6 v) \<subseteq> set ''0123456789''"
  using length_dec_le [of v 6] set_dec [of v] by (auto simp: pad6_def Let_def)

lemma totpAt_six: "length (totpAt cfg c) = 6 \<and> set (totpAt cfg c) \<subseteq> set ''0123456789''"
  unfolding totpAt_def Let_def by (rule pad6_six) simp_all

lemma step_neighbour:
  assumes "\<bar>t - now\<bar> \<le> n" and "0 < (n::int)"
  shows "t div n \<in> {now div n - 1, now div n, now div n + 1}"
proof -
  have "t div n \<le> (now + n) div n" "(now - n) div n \<le> t div n"
    using assms by (simp_all add: zdiv_mono1)
  moreover have "(now + n) div n = now div n + 1" "(now - n) div n = now div n - 1"
    using assms(2) div_add_self2 [of n now] div_add_self2 [of n "now - n"] by auto
  ultimately show ?thesis by auto
qed

lemma verifyTOTP_iff:
  assumes "0 \<le> now" and "in_i64 (Unix now)"
  shows "verifyTOTP cfg code now \<longleftrightarrow>
      code \<in> {totpAt cfg (Unix now div 30 - 1), totpAt cfg (Unix now div 30), totpAt cfg (Unix now div 30 + 1)}"
proof -
  define u where "u = Unix now"
  have u: "0 \<le> u" "u < 9223372036854775808" using assms by (auto simp: u_def Unix_def in_i64_def)
  then have steps: "i64 (u div 30 - 1) = u div 30 - 1" "i64 (u div 30 + 1) = u div 30 + 1"
    by (auto intro!: i64_id in_i64I)
  show ?thesis
    using u totpAt_six [of cfg] by (auto simp: verifyTOTP_def Let_def steps simp flip: u_def)
qed

text \<open>
  C18. \<open>verifyTOTP\<close> accepts exactly the codes of the current 30-second step and of its two
  neighbours, so a code computed by a clock at most 30 seconds off is accepted; every
  accepted code is six decimal digits.
\<close>

theorem verifyTOTP_window:
  assumes "0 \<le> now" and "in_i64 (Unix now)"
  shows "(verifyTOTP cfg code now \<longleftrightarrow>
      code \<in> {totpAt cfg (Unix now div 30 - 1), totpAt cfg (Unix now div 30), totpAt cfg (Unix now div 30 + 1)}) \<and>
    (\<bar>t - now\<bar> \<le> 30 * second \<longrightarrow> verifyTOTP cfg (totpAt cfg (Unix t div 30)) now) \<and>
    (verifyTOTP cfg code now \<longrightarrow> length code = 6 \<and> set code \<subseteq> set ''0123456789'')"
proof -
  note iff = verifyTOTP_iff [OF assms]
  have near: "verifyTOTP cfg (totpAt cfg (Unix t div 30)) now" if "\<bar>t - now\<bar> \<le> 30 * second"
  proof -
    have "Unix t div 30 \<in> {Unix now div 30 - 1, Unix now div 30, Unix now div 30 + 1}"
      using that step_neighbour [of t now "30 * second"] by (simp add: Unix_def zdiv_zmult2_eq [symmetric])
    then show ?thesis unfolding iff by auto
  qed
  have "length code = 6 \<and> set code \<subseteq> set ''0123456789''" if "verifyTOTP cfg code now"
    using that totpAt_six unfolding iff by blast
  with near iff [of cfg code] show ?thesis by blast
qed

theorem verifyTOTP_window_witness:
  "verifyTOTP demo_config (totpAt demo_config 1) (60 * second) \<and> length (totpAt demo_config 1) = 6"
  using verifyTOTP_window [of "60 * second" demo_config "totpAt demo_config 1" "59 * second"]
  by (simp add: Unix_def in_i64_def)

text \<open>The first test vector of RFC 6238, truncated to six digits.\<close>

lemma totp_rfc6238: "totpAt demo_config 1 = ''287082''"
  by code_simp

section \<open>The gate\<close>

lemma Redirect_sent_eq:
  fixes url :: string
  defines "u \<equiv> (if HasSuffix url ''/'' \<and> \<not> HasSuffix (Clean url) ''/'' then Clean url @ ''/'' else Clean url)"
  assumes "rw_sent w = None"
  shows "rw_sent (Redirect r url w) = Some (303,
     if rw_header w ''Content-Type'' = None \<and> (Method r = ''GET'' \<or> Method r = ''HEAD'')
     then header_Set (header_Set (rw_header w) ''Location'' u) ''Content-Type'' ''text/html; charset=utf-8''
     else header_Set (rw_header w) ''Location'' u)"
  using assms(2) unfolding Redirect_def u_def [symmetric] Let_def by simp

lemma Redirect_sent:
  assumes "rw_sent w = None"
  shows "status (Redirect r url w) = 303"
    and "header_Get (sent_header (Redirect r url w)) ''Location'' =
           (if HasSuffix url ''/'' \<and> \<not> HasSuffix (Clean url) ''/'' then Clean url @ ''/'' else Clean url)"
    and "sent_header (Redirect r url w) ''Set-Cookie'' = rw_header w ''Set-Cookie''"
  unfolding status_def sent_header_def Redirect_sent_eq [OF assms] by simp_all

lemma login_path_clean:
  "Clean ''/auth/login'' = ''/auth/login''" "\<not> HasSuffix ''/auth/login'' ''/''"
  by code_simp+

text \<open>
  Behind the enabled gate a request that is neither for \<open>/auth/\<close> nor for a public asset
  and carries no valid session never reaches the wrapped handler: a browser navigation is
  sent to the login page and everything else gets an empty 401. All other requests are passed
  on unchanged.
\<close>

theorem authMiddleware_gate:
  assumes "rw_sent w = None" and "rw_body w = []"
  shows "gateEnabled cfg \<and> \<not> HasPrefix (URL_Path r) ''/auth/'' \<and> \<not> isPublicAsset (URL_Path r)
          \<and> \<not> authed cfg now r \<Longrightarrow>
      \<exists>w'. (\<forall>next. authMiddleware cfg now next w r s = Returns (w', s)) \<and>
        (if Method r = ''GET'' \<and> Contains (header_Get (req_Header r) ''Accept'') ''text/html''
         then status w' = 303 \<and> header_Get (sent_header w') ''Location'' = ''/auth/login''
         else status w' = 401 \<and> rw_body w' = [])"
    and "\<not> gateEnabled cfg \<or> HasPrefix (URL_Path r) ''/auth/'' \<or> isPublicAsset (URL_Path r)
          \<or> authed cfg now r \<Longrightarrow> authMiddleware cfg now next w r s = next w r s"
  using assms by (auto simp: authMiddleware_def Redirect_sent login_path_clean)

definition page_request :: request where
  "page_request = \<lparr>Method = ''GET'', URL_Path = ''/index.html'', RawQuery = [],
     req_Header = (\<lambda>_. None), RemoteAddr = ''10.0.0.7:4711'', Cookies = [], FormValue = (\<lambda>_. [])\<rparr>"

theorem authMiddleware_gate_witness:
  "\<exists>w'. (\<forall>next. authMiddleware demo_config 0 next new_response page_request () = Returns (w', ())) \<and>
     status w' = 401 \<and> rw_body w' = []"
proof -
  have "gateEnabled demo_config" "\<not> HasPrefix (URL_Path page_request) ''/auth/''"
    "\<not> isPublicAsset (URL_Path page_request)" "\<not> authed demo_config 0 page_request"
    "\<not> Contains (header_Get (req_Header page_request) ''Accept'') ''text/html''"
    by code_simp+
  then show ?thesis
    using authMiddleware_gate(1) [of new_response demo_config page_request 0 "()"] by simp
qed

text \<open>
  C19. Start-up fails closed: when \<open>initAuth\<close> lets the process run, either the gate is on
  with the decoded seed, a signing key of at least 16 bytes and the configured lifetime, or
  the seed or the secret is missing and the operator opted out with \<open>AUTH_DISABLED\<close>.
\<close>

theorem initAuth_fails_closed:
  assumes "initAuth parseDuration env initial_config = Running cfg"
  shows "if gateEnabled cfg
         then env ''TOTP_SEED'' \<noteq> [] \<and> signKey cfg = env ''SESSION_SECRET'' \<and> 16 \<le> length (signKey cfg)
              \<and> base32_decode (ToUpper (ReplaceAll (env ''TOTP_SEED'') '' '' [])) = Some (totpSeed cfg)
              \<and> (if env ''SESSION_TTL'' = [] then sessionTTL cfg = 24 * hour
                 else parseDuration (env ''SESSION_TTL'') = Some (sessionTTL cfg))
         else ToLower (TrimSpace (env ''AUTH_DISABLED'')) \<in> {''1'', ''true'', ''yes'', ''on''}
              \<and> (ReplaceAll (env ''TOTP_SEED'') '' '' [] = [] \<or> env ''SESSION_SECRET'' = [])"
  using assms by (auto simp: initAuth_def Let_def truthy_def initial_config_def ToUpper_def
      split: if_splits option.splits)

definition opted_out :: environ where
  "opted_out = (\<lambda>_. [])(''AUTH_DISABLED'' := ''Yes'')"

theorem initAuth_fails_closed_witness:
  "initAuth (\<lambda>_. None) opted_out initial_config = Running initial_config
   \<and> ToLower (TrimSpace (opted_out ''AUTH_DISABLED'')) \<in> {''1'', ''true'', ''yes'', ''on''}"
proof -
  have run: "initAuth (\<lambda>_. None) opted_out initial_config = Running initial_config" by code_simp
  with initAuth_fails_closed [OF run] show ?thesis by (simp add: initial_config_def)
qed

section \<open>Lockout\<close>

datatype outcome = Blocked | Rejected | Accepted

text \<open>
  A serial history of login attempts: each has the clock readings of \<open>loginLocked\<close> and
  \<open>recordLogin\<close>, the address and whether the code is right.
\<close>

type_synonym attempt = "instant \<times> instant \<times> instant \<times> string \<times> bool"

primrec outcomes ::
  "(instant \<Rightarrow> string \<Rightarrow> 't \<Rightarrow> bool \<times> 't) \<Rightarrow> (instant \<Rightarrow> instant \<Rightarrow> string \<Rightarrow> bool \<Rightarrow> 't \<Rightarrow> 't) \<Rightarrow>
   attempt list \<Rightarrow> 't \<Rightarrow> (string \<times> outcome) list" where
  "outcomes locked tally [] t = []"
| "outcomes locked tally (e # es) t =
     (case e of (n0, n1, n2, ip, ok) \<Rightarrow>
      case locked n0 ip t of (l, t1) \<Rightarrow>
        if l then (ip, Blocked) # outcomes locked tally es t1
        else (ip, if ok then Accepted else Rejected) # outcomes locked tally es (tally n1 n2 ip ok t1))"

text \<open>
  The contract of a brute-force guard: \<open>struck t0 k ip t\<close> says that \<open>t\<close> remembers \<open>k\<close>
  wrong codes from \<open>ip\<close> since \<open>t0\<close>. Within the window nothing forgets a strike except a
  correct code, which forgets them all, and an address with \<open>limit\<close> strikes is locked.
\<close>

locale login_guard =
  fixes locked :: "instant \<Rightarrow> string \<Rightarrow> 't \<Rightarrow> bool \<times> 't"
    and tally :: "instant \<Rightarrow> instant \<Rightarrow> string \<Rightarrow> bool \<Rightarrow> 't \<Rightarrow> 't"
    and struck :: "instant \<Rightarrow> nat \<Rightarrow> string \<Rightarrow> 't \<Rightarrow> bool"
    and limit :: nat
    and window :: duration
  assumes locked_keeps:
      "struck t0 k ip t \<Longrightarrow> k \<le> limit \<Longrightarrow> now < t0 + window \<Longrightarrow> struck t0 k ip (snd (locked now ip' t))"
    and locked_at_limit:
      "struck t0 limit ip t \<Longrightarrow> now < t0 + window \<Longrightarrow> fst (locked now ip t)"
    and tally_strikes:
      "struck t0 k ip t \<Longrightarrow> k < limit \<Longrightarrow> t0 \<le> n1 \<Longrightarrow> t0 \<le> n2 \<Longrightarrow>
       struck t0 (Suc k) ip (tally n1 n2 ip False t)"
    and tally_resets:
      "struck t0 k ip t \<Longrightarrow> struck t0 0 ip (tally n1 n2 ip True t)"
    and tally_other:
      "struck t0 k ip t \<Longrightarrow> ip' \<noteq> ip \<Longrightarrow> struck t0 k ip (tally n1 n2 ip' ok t)"
begin

lemma rejections_bounded:
  assumes "struck t0 k ip t" and "k \<le> limit"
    and "\<forall>(n0, n1, n2, i, ok) \<in> set es. n0 < t0 + window \<and> t0 \<le> n1 \<and> t0 \<le> n2"
  shows "k + length (filter (\<lambda>x. x = (ip, Rejected)) (outcomes locked tally es t)) \<le>
    limit * Suc (length (filter (\<lambda>x. x = (ip, Accepted)) (outcomes locked tally es t)))"
  using assms
proof (induction es arbitrary: t k)
  case (Cons e es)
  obtain n0 n1 n2 i ok where e: "e = (n0, n1, n2, i, ok)" by (metis prod_cases5)
  obtain l t1 where l: "locked n0 i t = (l, t1)" by fastforce
  have t1: "struck t0 k ip t1" using locked_keeps [of t0 k ip t n0 i] Cons.prems e l by simp
  show ?case
  proof (cases "l \<or> i \<noteq> ip")
    case True
    then show ?thesis
      using Cons.IH [OF t1] Cons.IH [OF tally_other [OF t1]] Cons.prems e l by auto
  next
    case False
    then have k: "k < limit"
      using locked_at_limit [of t0 ip t n0] Cons.prems e l by (auto simp: le_less)
    show ?thesis
    proof (cases ok)
      case True
      with Cons.IH [OF tally_resets [OF t1, of n1 n2]] False Cons.prems(2,3) e l show ?thesis by simp
    next
      case wrong: False
      with Cons.IH [OF tally_strikes [OF t1 k, of n1 n2]] k False Cons.prems(3) e l show ?thesis by simp
    qed
  qed
qed simp

end

text \<open>The table keeps \<open>k\<close> strikes of an address since \<open>t0\<close>; \<open>la_fails\<close> stays far from wrapping.\<close>

definition struck :: "instant \<Rightarrow> nat \<Rightarrow> string \<Rightarrow> login_table \<Rightarrow> bool" where
  "struck t0 k ip tbl \<longleftrightarrow>
     (case tbl ip of
        None \<Rightarrow> k = 0
      | Some a \<Rightarrow> int k \<le> la_fails a \<and> la_fails a \<le> 2 ^ 62 + int k \<and> (0 < k \<longrightarrow> t0 \<le> la_last a)
          \<and> (maxLoginFails \<le> int k \<longrightarrow> t0 + loginLockout \<le> la_lockedUntil a))"

lemma sweep_keeps:
  "tbl ip = Some a \<Longrightarrow> now \<le> la_last a + loginLockout \<Longrightarrow> sweep now tbl ip = Some a"
  by (simp add: sweep_def loginLockout_def in_i64_def)

interpretation lockout: login_guard loginLocked recordLogin struck 10 loginLockout
proof
  fix t0 k ip t now ip'
  assume "struck t0 k ip t" and "now < t0 + loginLockout"
  then show "struck t0 k ip (snd (loginLocked now ip' t))"
    using sweep_keeps [of t ip _ now]
    by (cases "t ip"; cases "k = 0") (auto simp: struck_def loginLocked_def Let_def sweep_def maxLoginFails_def
        split: option.splits)
next
  fix t0 ip t now
  assume "struck t0 10 ip t" and "now < t0 + loginLockout"
  then show "fst (loginLocked now ip t)"
    using sweep_keeps [of t ip _ now]
    by (cases "t ip") (auto simp: struck_def loginLocked_def Let_def maxLoginFails_def)
next
  fix t0 :: instant and k ip t n1 n2
  assume "struck t0 k ip t" and "k < 10" and "t0 \<le> n1" and "t0 \<le> n2"
  then show "struck t0 (Suc k) ip (recordLogin n1 n2 ip False t)"
    by (auto simp: struck_def recordLogin_def Let_def maxLoginFails_def in_i64_def split: option.splits)
next
  show "struck t0 0 ip (recordLogin n1 n2 ip True t)" for t0 n1 n2 ip t
    by (simp add: struck_def recordLogin_def)
next
  fix t0 k ip t ip' n1 n2 ok
  assume "struck t0 k ip t" and "ip' \<noteq> ip"
  then show "struck t0 k ip (recordLogin n1 n2 ip' ok t)"
    by (simp add: struck_def recordLogin_def Let_def split: option.splits)
qed

section \<open>The login handler\<close>

text \<open>One attempt per \<open>POST\<close>; other methods leave the table alone.\<close>

primrec serve_logins ::
  "string \<Rightarrow> auth_config \<Rightarrow> ((nat \<Rightarrow> instant) \<times> request) list \<Rightarrow> login_table \<Rightarrow> (string \<times> int) list" where
  "serve_logins app cfg [] tbl = []"
| "serve_logins app cfg (e # es) tbl =
     (case e of (now, r) \<Rightarrow>
      case handleLogin app cfg now new_response r tbl of (w, tbl') \<Rightarrow>
        (clientIP r, status w) # serve_logins app cfg es tbl')"

definition attempt_of :: "auth_config \<Rightarrow> (nat \<Rightarrow> instant) \<times> request \<Rightarrow> attempt" where
  "attempt_of cfg = (\<lambda>(now, r). (now 0, now 2, now 3, clientIP r,
     verifyTOTP cfg (TrimSpace (FormValue r ''code'')) (now 1)))"

primrec outcome_status :: "outcome \<Rightarrow> int" where
  "outcome_status Blocked = 429"
| "outcome_status Rejected = 401"
| "outcome_status Accepted = 303"

lemma handleLogin_post:
  assumes "Method r = ''POST''" and "loginLocked (now 0) (clientIP r) tbl = (l, tbl1)"
    and "ok = verifyTOTP cfg (TrimSpace (FormValue r ''code'')) (now 1)"
  shows "snd (handleLogin app cfg now w r tbl) =
           (if l then tbl1 else recordLogin (now 2) (now 3) (clientIP r) ok tbl1)"
    and "rw_sent w = None \<Longrightarrow> status (fst (handleLogin app cfg now w r tbl)) =
           outcome_status (if l then Blocked else if ok then Accepted else Rejected)"
  using assms by (auto simp: handleLogin_def Let_def Redirect_sent SetCookie_def)

lemma serve_logins_outcomes:
  assumes "\<forall>(now, r) \<in> set es. Method r = ''POST''"
  shows "serve_logins app cfg es tbl =
     map (\<lambda>(ip, oc). (ip, outcome_status oc)) (outcomes loginLocked recordLogin (map (attempt_of cfg) es) tbl)"
  using assms
proof (induction es arbitrary: tbl)
  case (Cons e es)
  obtain now r where e: "e = (now, r)" by fastforce
  obtain l tbl1 where l: "loginLocked (now 0) (clientIP r) tbl = (l, tbl1)" by fastforce
  have r: "Method r = ''POST''" using Cons.prems e by simp
  show ?case
    using Cons e l handleLogin_post [where now = now and app = app and w = new_response, OF r l refl, of cfg]
    by (auto simp: attempt_of_def split_beta)
qed simp

lemma outcome_status_inj [simp]: "outcome_status a = outcome_status b \<longleftrightarrow> a = b"
  by (cases a; cases b) auto

lemma count_outcomes:
  "length (filter (\<lambda>x. x = (ip, outcome_status oc)) (map (\<lambda>(ip, oc). (ip, outcome_status oc)) xs)) =
   length (filter (\<lambda>x. x = (ip, oc)) xs)"
  by (induction xs) auto

text \<open>
  C20. Brute force is bounded: in a serial run of login requests whose clock readings fall into
  one window of 24 hours, from any table whose counters are not negative (nor absurdly large),
  an address has at most ten wrong codes checked for every right code it enters, and ten more: a right code
  clears the counter, so an address that enters none is cut off after ten. Requests of other
  addresses in between make no difference.
\<close>

theorem lockout_bound:
  assumes "\<forall>(now, r) \<in> set es. Method r = ''POST'' \<and> (\<forall>i. t0 \<le> now i \<and> now i < t0 + loginLockout)"
    and "\<forall>a. tbl ip = Some a \<longrightarrow> 0 \<le> la_fails a \<and> la_fails a \<le> 2 ^ 62"
  shows "length (filter (\<lambda>x. x = (ip, 401)) (serve_logins app cfg es tbl)) \<le>
    nat maxLoginFails * (1 + length (filter (\<lambda>x. x = (ip, 303)) (serve_logins app cfg es tbl)))"
proof -
  let ?os = "outcomes loginLocked recordLogin (map (attempt_of cfg) es) tbl"
  have eq: "serve_logins app cfg es tbl = map (\<lambda>(ip, oc). (ip, outcome_status oc)) ?os"
    using assms(1) by (intro serve_logins_outcomes) auto
  have window: "\<forall>(n0, n1, n2, i, ok) \<in> set (map (attempt_of cfg) es).
      n0 < t0 + loginLockout \<and> t0 \<le> n1 \<and> t0 \<le> n2"
    using assms(1) by (auto simp: attempt_of_def)
  have "struck t0 0 ip tbl" using assms(2) by (auto simp: struck_def maxLoginFails_def split: option.splits)
  from lockout.rejections_bounded [OF this _ window] show ?thesis
    using count_outcomes [of ip Rejected ?os] count_outcomes [of ip Accepted ?os]
    by (simp add: eq maxLoginFails_def)
qed

definition guess :: request where
  "guess = page_request\<lparr>Method := ''POST'', URL_Path := ''/auth/login'', FormValue := (\<lambda>_. ''12345'')\<rparr>"

lemma guess_wrong [simp]: "\<not> verifyTOTP cfg (TrimSpace (FormValue guess ''code'')) now"
proof -
  have "TrimSpace ''12345'' = ''12345''" by code_simp
  then show ?thesis by (simp add: guess_def verifyTOTP_def)
qed

lemma no_acceptance:
  "\<forall>(n0, n1, n2, i, ok) \<in> set es. \<not> ok \<Longrightarrow> filter (\<lambda>x. x = (ip, Accepted)) (outcomes locked tally es t) = []"
  by (induction es arbitrary: t) (auto split: prod.splits)

theorem lockout_bound_witness:
  "length (filter (\<lambda>x. x = (''10.0.0.7'', 401))
     (serve_logins [] demo_config (replicate 12 ((\<lambda>_. 5), guess)) (\<lambda>_. None))) \<le> nat maxLoginFails"
proof -
  let ?es = "replicate 12 ((\<lambda>_. 5), guess)"
  have post: "\<forall>(now, r) \<in> set ?es. Method r = ''POST'' \<and> (\<forall>i. 0 \<le> now i \<and> now i < 0 + loginLockout)"
    by (auto simp: guess_def loginLockout_def)
  have "\<forall>(n0, n1, n2, i, ok) \<in> set (map (attempt_of demo_config) ?es). \<not> ok" by (auto simp: attempt_of_def)
  note none = no_acceptance [OF this, of "''10.0.0.7''" loginLocked recordLogin "\<lambda>_. None"]
  have eq: "serve_logins [] demo_config ?es (\<lambda>_. None) = map (\<lambda>(ip, oc). (ip, outcome_status oc))
      (outcomes loginLocked recordLogin (map (attempt_of demo_config) ?es) (\<lambda>_. None))"
    using post by (intro serve_logins_outcomes) auto
  have "length (filter (\<lambda>x. x = (''10.0.0.7'', 303)) (serve_logins [] demo_config ?es (\<lambda>_. None))) = 0"
    using count_outcomes [of "''10.0.0.7''" Accepted] unfolding eq none by (simp only: outcome_status.simps none list.size)
  with lockout_bound [OF post, of "\<lambda>_. None" "''10.0.0.7''" "[]" demo_config] show ?thesis by simp
qed

lemma handleLogin_accepted:
  assumes "Method r = ''POST''" and "\<not> fst (loginLocked (now 0) (clientIP r) tbl)"
    and "verifyTOTP cfg (TrimSpace (FormValue r ''code'')) (now 1)"
  shows "fst (handleLogin app cfg now w r tbl) = Redirect r ''/'' (SetCookie (session_cookie cfg r (now 4)) w)"
  using assms by (simp add: handleLogin_def Let_def split_beta)

lemma handleLogin_refused:
  assumes "\<not> (Method r = ''POST'' \<and> \<not> fst (loginLocked (now 0) (clientIP r) tbl)
      \<and> verifyTOTP cfg (TrimSpace (FormValue r ''code'')) (now 1))" and "rw_sent w = None"
  shows "sent_header (fst (handleLogin app cfg now w r tbl)) ''Set-Cookie'' = rw_header w ''Set-Cookie''"
proof (cases "Method r = ''POST''")
  case post: True
  show ?thesis
  proof (cases "fst (loginLocked (now 0) (clientIP r) tbl)")
    case True
    with post assms(2) show ?thesis by (simp add: handleLogin_def Let_def split_beta sent_header_def)
  next
    case False
    with post assms show ?thesis by (simp add: handleLogin_def Let_def split_beta sent_header_def)
  qed
next
  case False
  with assms(2) show ?thesis by (simp add: handleLogin_def sent_header_def)
qed

lemma accepted_cookie:
  "sent_header (Redirect r ''/'' (SetCookie c new_response)) ''Set-Cookie'' = Some [cookie_String c]"
  by (subst Redirect_sent) (simp_all add: SetCookie_def header_Add_def)

text \<open>
  C21. A session cookie is handed out exactly to a \<open>POST\<close> of an address that is not locked
  with a code \<open>verifyTOTP\<close> accepts.
\<close>

theorem handleLogin_cookie_iff:
  "sent_header (fst (handleLogin app cfg now new_response r tbl)) ''Set-Cookie'' \<noteq> None \<longleftrightarrow>
     Method r = ''POST'' \<and> \<not> fst (loginLocked (now 0) (clientIP r) tbl)
     \<and> verifyTOTP cfg (TrimSpace (FormValue r ''code'')) (now 1)" (is "?l \<longleftrightarrow> ?r")
proof
  show ?r if ?l using that handleLogin_refused [of r now tbl cfg new_response app] by fastforce
  show ?l if ?r using that handleLogin_accepted [of r now tbl cfg app new_response]
    by (simp add: accepted_cookie)
qed

lemma token_cookie_safe:
  "sanitizeCookieValue (newSession cfg e) = newSession cfg e" "CHR '';'' \<notin> set (newSession cfg e)"
proof -
  have tok: "set (newSession cfg e) \<subseteq> set ''-.0123456789abcdef''"
  proof -
    have "set ''-0123456789'' \<subseteq> set ''-.0123456789abcdef''" "set ''0123456789abcdef'' \<subseteq> set ''-.0123456789abcdef''"
      "set ''.'' \<subseteq> set ''-.0123456789abcdef''" by code_simp+
    then show ?thesis
      unfolding newSession_def sign_def Let_def set_append
      by (intro Un_least order.trans [OF set_FormatInt] order.trans [OF set_hex])
  qed
  have "\<forall>c \<in> set ''-.0123456789abcdef''. validCookieValueByte c \<and> c \<noteq> CHR '' '' \<and> c \<noteq> CHR '','' \<and> c \<noteq> CHR '';''"
    by code_simp
  with tok have "\<forall>c \<in> set (newSession cfg e). validCookieValueByte c \<and> c \<noteq> CHR '' '' \<and> c \<noteq> CHR '','' \<and> c \<noteq> CHR '';''"
    by blast
  then show "sanitizeCookieValue (newSession cfg e) = newSession cfg e" "CHR '';'' \<notin> set (newSession cfg e)"
    by (auto simp: sanitizeCookieValue_def Let_def filter_id_conv)
qed

text \<open>
  C22. Logging in opens the gate: an accepted login answers 303 with one cookie whose value,
  sent back by the browser, lets every later request through the middleware until a second
  before the lifetime ends.
\<close>

theorem login_opens_gate:
  assumes "Method r = ''POST''" and "\<not> fst (loginLocked (now 0) (clientIP r) tbl)"
    and "verifyTOTP cfg (TrimSpace (FormValue r ''code'')) (now 1)"
    and "in_i64 (Unix (now 4 + sessionTTL cfg))"
  shows "\<exists>tok attrs. status (fst (handleLogin app cfg now new_response r tbl)) = 303
    \<and> sent_header (fst (handleLogin app cfg now new_response r tbl)) ''Set-Cookie'' = Some [''session='' @ tok @ ''; '' @ attrs]
    \<and> CHR '';'' \<notin> set tok
    \<and> (\<forall>r' t next w s. cookie r' ''session'' = Some tok \<and> t + second \<le> now 4 + sessionTTL cfg \<longrightarrow>
         authMiddleware cfg t next w r' s = next w r' s)"
proof (intro exI conjI allI impI)
  let ?tok = "newSession cfg (now 4 + sessionTTL cfg)"
  show "sent_header (fst (handleLogin app cfg now new_response r tbl)) ''Set-Cookie'' = Some [''session='' @ ?tok @ ''; '' @
      (''Path=/'' @ (if 0 < quot (sessionTTL cfg) second then ''; Max-Age='' @ FormatInt (quot (sessionTTL cfg) second)
        else if quot (sessionTTL cfg) second < 0 then ''; Max-Age=0'' else [])
     @ ''; HttpOnly'' @ (if header_Get (req_Header r) ''X-Forwarded-Proto'' = ''https'' then ''; Secure'' else [])
     @ ''; SameSite=Lax'')]"
    unfolding handleLogin_accepted [OF assms(1-3)] accepted_cookie
    by (simp add: cookie_String_def session_cookie_def token_cookie_safe cookieName_def)
  show "status (fst (handleLogin app cfg now new_response r tbl)) = 303"
    unfolding handleLogin_accepted [OF assms(1-3)] by (simp add: Redirect_sent SetCookie_def)
  show "CHR '';'' \<notin> set ?tok" by (rule token_cookie_safe)
  show "authMiddleware cfg t next w r' s = next w r' s"
    if "cookie r' ''session'' = Some ?tok \<and> t + second \<le> now 4 + sessionTTL cfg" for r' t "next" w s
    using that session.valid_for_lifetime [OF assms(4)] by (simp add: authMiddleware_def authed_def cookieName_def)
qed

theorem login_opens_gate_witness:
  "\<exists>tok attrs. sent_header (fst (handleLogin [] demo_config (\<lambda>_. 60 * second) new_response
        (guess\<lparr>FormValue := (\<lambda>_. totpAt demo_config 1)\<rparr>) (\<lambda>_. None))) ''Set-Cookie''
      = Some [''session='' @ tok @ ''; '' @ attrs]"
proof -
  let ?r = "guess\<lparr>FormValue := (\<lambda>_. totpAt demo_config 1)\<rparr>" and ?now = "\<lambda>_ :: nat. 60 * second"
  have post: "Method ?r = ''POST''" by (simp add: guess_def)
  have free: "\<not> fst (loginLocked (?now 0) (clientIP ?r) (\<lambda>_. None))"
    by (simp add: loginLocked_def sweep_def Let_def)
  have "TrimSpace ''287082'' = ''287082''" by code_simp
  then have ok: "verifyTOTP demo_config (TrimSpace (FormValue ?r ''code'')) (?now 1)"
    using totp_rfc6238 by (simp add: verifyTOTP_iff Unix_def in_i64_def)
  have "in_i64 (Unix (?now 4 + sessionTTL demo_config))" by (simp add: demo_config_def Unix_def in_i64_def)
  from login_opens_gate [OF post free ok this, of "[]"] show ?thesis by (elim exE conjE) (intro exI, assumption)
qed

section \<open>Concurrent attempts\<close>

text \<open>
  The server runs each \<open>POST\<close> in its own goroutine: \<open>loginLocked\<close> and \<open>recordLogin\<close> are
  atomic under the mutex, but other requests run during the one-second sleep between them, and
  between the check of the code and its count. A request goes through the phases of \<open>handleLogin\<close>; the
  state is the clock, the table and the phase of every request. A sleeper wakes up a second after it
  went to sleep or later.
\<close>

datatype phase = Arrived request | Sleeping instant request | Verified request bool | Answered request int

inductive login_step ::
  "auth_config \<Rightarrow> instant \<times> login_table \<times> phase list \<Rightarrow> instant \<times> login_table \<times> phase list \<Rightarrow> bool" for cfg where
  pass: "now \<le> now' \<Longrightarrow> login_step cfg (now, tbl, ps) (now', tbl, ps)"
| refuse: "i < length ps \<Longrightarrow> ps ! i = Arrived r \<Longrightarrow> Method r = ''POST'' \<Longrightarrow>
    loginLocked now (clientIP r) tbl = (True, tbl') \<Longrightarrow> login_step cfg (now, tbl, ps) (now, tbl', ps[i := Answered r 429])"
| admit: "i < length ps \<Longrightarrow> ps ! i = Arrived r \<Longrightarrow> Method r = ''POST'' \<Longrightarrow>
    loginLocked now (clientIP r) tbl = (False, tbl') \<Longrightarrow> login_step cfg (now, tbl, ps) (now, tbl', ps[i := Sleeping now r])"
| verify: "i < length ps \<Longrightarrow> ps ! i = Sleeping t r \<Longrightarrow> t + second \<le> now \<Longrightarrow>
    login_step cfg (now, tbl, ps) (now, tbl, ps[i := Verified r (verifyTOTP cfg (TrimSpace (FormValue r ''code'')) now)])"
| count: "i < length ps \<Longrightarrow> ps ! i = Verified r ok \<Longrightarrow> now \<le> now' \<Longrightarrow>
    login_step cfg (now, tbl, ps)
      (now', recordLogin now now' (clientIP r) ok tbl, ps[i := Answered r (if ok then 303 else 401)])"

text \<open>A request that runs alone does what \<open>handleLogin\<close> does.\<close>

lemma login_step_handleLogin:
  assumes "Method r = ''POST''" and "now 0 + second \<le> now 1" and "now 1 \<le> now 2" and "now 2 \<le> now 3"
  shows "\<exists>t. (login_step cfg)\<^sup>*\<^sup>* (now 0, tbl, [Arrived r])
    (t, snd (handleLogin app cfg now new_response r tbl),
     [Answered r (status (fst (handleLogin app cfg now new_response r tbl)))])"
proof -
  obtain l tbl1 where l: "loginLocked (now 0) (clientIP r) tbl = (l, tbl1)" by fastforce
  define ok where "ok = verifyTOTP cfg (TrimSpace (FormValue r ''code'')) (now 1)"
  note handler = handleLogin_post [where now = now and app = app and w = new_response, OF assms(1) l ok_def]
  show ?thesis
  proof (cases l)
    case True
    then have "login_step cfg (now 0, tbl, [Arrived r]) (now 0, tbl1, [Answered r 429])"
      using refuse [of 0 "[Arrived r]" r] assms(1) l by simp
    with True handler show ?thesis by auto
  next
    case False
    have "login_step cfg (now 0, tbl, [Arrived r]) (now 0, tbl1, [Sleeping (now 0) r])"
      using admit [of 0 "[Arrived r]" r] assms(1) l False by simp
    moreover have "login_step cfg (now 0, tbl1, [Sleeping (now 0) r]) (now 1, tbl1, [Sleeping (now 0) r])"
      using assms(2) by (auto intro: pass)
    moreover have "login_step cfg (now 1, tbl1, [Sleeping (now 0) r]) (now 1, tbl1, [Verified r ok])"
      using verify [of 0 "[Sleeping (now 0) r]" "now 0" r "now 1"] assms(2) by (simp add: ok_def)
    moreover have "login_step cfg (now 1, tbl1, [Verified r ok]) (now 2, tbl1, [Verified r ok])"
      using assms(3) by (rule pass)
    moreover have "login_step cfg (now 2, tbl1, [Verified r ok])
        (now 3, recordLogin (now 2) (now 3) (clientIP r) ok tbl1, [Answered r (if ok then 303 else 401)])"
      using count [of 0 "[Verified r ok]" r ok "now 2" "now 3"] assms(4) by simp
    ultimately have "(login_step cfg)\<^sup>*\<^sup>* (now 0, tbl, [Arrived r])
        (now 3, recordLogin (now 2) (now 3) (clientIP r) ok tbl1, [Answered r (if ok then 303 else 401)])"
      by (meson rtranclp.rtrancl_into_rtrancl rtranclp.rtrancl_refl)
    with False handler show ?thesis by auto
  qed
qed

text \<open>All requests of a list do the same, one after the other.\<close>

lemma all_phases:
  assumes "\<And>xs ys r. r \<in> set rs \<Longrightarrow> login_step cfg (now, tbl, xs @ p r # ys) (now, tbl, xs @ q r # ys)"
  shows "(login_step cfg)\<^sup>*\<^sup>* (now, tbl, xs @ map p rs) (now, tbl, xs @ map q rs)"
  using assms
proof (induction rs arbitrary: xs)
  case (Cons r rs)
  from Cons.prems [of r xs "map p rs"] Cons.IH [of "xs @ [q r]"] Cons.prems
  show ?case by (auto intro: converse_rtranclp_into_rtranclp)
qed simp

text \<open>The table after \<open>k\<close> wrong codes of one address, all counted at the instant \<open>t\<close>.\<close>

definition counted :: "instant \<Rightarrow> string \<Rightarrow> nat \<Rightarrow> login_table" where
  "counted t ip k = (if k = 0 then (\<lambda>_. None) else [ip \<mapsto>
     \<lparr>la_fails = int k, la_lockedUntil = (if maxLoginFails \<le> int k then t + loginLockout else zeroTime), la_last = t\<rparr>])"

lemma recordLogin_counted:
  "int (Suc k) < 2 ^ 63 \<Longrightarrow> recordLogin t t ip False (counted t ip k) = counted t ip (Suc k)"
  by (auto simp: recordLogin_def counted_def Let_def maxLoginFails_def in_i64_def fun_eq_iff)

lemma all_count:
  assumes "\<forall>r \<in> set rs. clientIP r = ip" and "int (k + length rs) < 2 ^ 63"
  shows "(login_step cfg)\<^sup>*\<^sup>* (t, counted t ip k, xs @ map (\<lambda>r. Verified r False) rs)
    (t, counted t ip (k + length rs), xs @ map (\<lambda>r. Answered r 401) rs)"
  using assms
proof (induction rs arbitrary: xs k)
  case (Cons r rs)
  have "login_step cfg (t, counted t ip k, xs @ map (\<lambda>r. Verified r False) (r # rs))
      (t, counted t ip (Suc k), (xs @ [Answered r 401]) @ map (\<lambda>r. Verified r False) rs)"
    using count [of "length xs" "xs @ map (\<lambda>r. Verified r False) (r # rs)" r False t t cfg "counted t ip k"]
      recordLogin_counted [of k t ip] Cons.prems by simp
  with Cons.IH [of "Suc k" "xs @ [Answered r 401]"] Cons.prems show ?case
    by (auto intro: converse_rtranclp_into_rtranclp)
qed simp

text \<open>
  C23. The bound of ten holds for serial attempts only. However many requests with wrong codes
  arrive from one address at one instant, ten or more, they can all pass \<open>loginLocked\<close> before the first of
  them is counted, and a second later every one of their codes is checked and answered 401. All of them are
  counted, and from then on the address is locked for the whole window of 24 hours.
\<close>

theorem lockout_race:
  assumes "\<forall>r \<in> set rs. Method r = ''POST'' \<and> clientIP r = ip \<and>
      \<not> verifyTOTP cfg (TrimSpace (FormValue r ''code'')) (now + second)"
    and "maxLoginFails \<le> int (length rs)" and "int (length rs) < 2 ^ 63"
  shows "\<exists>tbl a. (login_step cfg)\<^sup>*\<^sup>* (now, \<lambda>_. None, map Arrived rs) (now + second, tbl, map (\<lambda>r. Answered r 401) rs) \<and>
    tbl ip = Some a \<and> la_fails a = int (length rs) \<and>
    (\<forall>t. now + second \<le> t \<and> t < now + second + loginLockout \<longrightarrow> fst (loginLocked t ip tbl))"
proof -
  let ?t = "now + second" and ?e = "(\<lambda>_. None) :: login_table"
  have free: "loginLocked now i ?e = (False, ?e)" for i by (simp add: loginLocked_def sweep_def Let_def)
  have "(login_step cfg)\<^sup>*\<^sup>* (now, ?e, [] @ map Arrived rs) (now, ?e, [] @ map (Sleeping now) rs)"
  proof (rule all_phases)
    show "login_step cfg (now, ?e, xs @ Arrived r # ys) (now, ?e, xs @ Sleeping now r # ys)" if "r \<in> set rs" for xs ys r
      using admit [of "length xs" "xs @ Arrived r # ys" r now ?e ?e] free that assms(1) by simp
  qed
  moreover have "login_step cfg (now, ?e, map (Sleeping now) rs) (?t, ?e, map (Sleeping now) rs)" by (rule pass) simp
  moreover have "(login_step cfg)\<^sup>*\<^sup>* (?t, ?e, [] @ map (Sleeping now) rs) (?t, ?e, [] @ map (\<lambda>r. Verified r False) rs)"
  proof (rule all_phases)
    show "login_step cfg (?t, ?e, xs @ Sleeping now r # ys) (?t, ?e, xs @ Verified r False # ys)" if "r \<in> set rs" for xs ys r
      using verify [of "length xs" "xs @ Sleeping now r # ys" now r ?t cfg ?e] that assms(1) by simp
  qed
  moreover have "(login_step cfg)\<^sup>*\<^sup>* (?t, counted ?t ip 0, [] @ map (\<lambda>r. Verified r False) rs)
      (?t, counted ?t ip (0 + length rs), [] @ map (\<lambda>r. Answered r 401) rs)"
    using assms by (intro all_count) auto
  ultimately have "(login_step cfg)\<^sup>*\<^sup>* (now, ?e, map Arrived rs)
      (?t, counted ?t ip (length rs), map (\<lambda>r. Answered r 401) rs)"
    by (simp add: counted_def)
  moreover have "fst (loginLocked t ip (counted ?t ip (length rs)))" if "?t \<le> t" "t < ?t + loginLockout" for t
    using that assms(2) sweep_keeps [of "counted ?t ip (length rs)" ip _ t]
    by (auto simp: loginLocked_def Let_def counted_def maxLoginFails_def)
  ultimately show ?thesis using assms(2)
    by (intro exI [of _ "counted ?t ip (length rs)"]) (auto simp: counted_def maxLoginFails_def)
qed

theorem lockout_race_witness:
  "\<exists>tbl a. (login_step demo_config)\<^sup>*\<^sup>* (0, \<lambda>_. None, replicate 12 (Arrived guess))
      (second, tbl, replicate 12 (Answered guess 401)) \<and>
    tbl ''10.0.0.7'' = Some a \<and> la_fails a = 12 \<and> fst (loginLocked (3600 * second) ''10.0.0.7'' tbl)"
proof -
  have "clientIP guess = ''10.0.0.7''" "Method guess = ''POST''" by (code_simp, simp add: guess_def)
  then have "\<forall>r \<in> set (replicate 12 guess). Method r = ''POST'' \<and> clientIP r = ''10.0.0.7'' \<and>
      \<not> verifyTOTP demo_config (TrimSpace (FormValue r ''code'')) (0 + second)" by auto
  from lockout_race [OF this] show ?thesis
    by (auto simp: maxLoginFails_def loginLockout_def simp del: replicate.simps)
qed

end
