(* ===== verification/Transport.thy ===== *)
theory Transport
  imports GoCrypto
begin

text \<open>
  Byte streams between the programs: a \<open>net.Conn\<close> seen from one end. Incoming bytes arrive in
  chunks (websocket frames, TCP segments); a \<open>Read\<close> hands out at most one chunk and never
  more than the buffer holds. Outgoing bytes are recorded write by write. \<open>tx_error\<close> says when writing
  fails: after so many more bytes, with this error. The write that does not fit delivers the bytes that do,
  and every later one fails.
\<close>

datatype io_error = EOF | UnexpectedEOF | IOError string

type_synonym 'a io = "io_error + 'a"

record conn =
  rx :: "bytes list"
  rx_end :: io_error
  tx :: "bytes list"
  tx_error :: "(nat \<times> io_error) option"

definition conn_Read :: "nat \<Rightarrow> conn \<Rightarrow> bytes io \<times> conn" where
  "conn_Read n c =
     (case rx c of
        [] \<Rightarrow> (Inl (rx_end c), c)
      | b # bs \<Rightarrow> (Inr (take n b), c\<lparr>rx := if length b \<le> n then bs else drop n b # bs\<rparr>))"

text \<open>What \<open>Write\<close> returns: an error comes with the number of bytes written before it.\<close>

type_synonym write_result = "(nat \<times> io_error) + unit"

definition conn_Write :: "bytes \<Rightarrow> conn \<Rightarrow> write_result \<times> conn" where
  "conn_Write b c =
     (case tx_error c of
        None \<Rightarrow> (Inr (), c\<lparr>tx := tx c @ [b]\<rparr>)
      | Some (n, e) \<Rightarrow>
          if 0 < n \<and> length b \<le> n then (Inr (), c\<lparr>tx := tx c @ [b], tx_error := Some (n - length b, e)\<rparr>)
          else (Inl (n, e), c\<lparr>tx := (if n = 0 then tx c else tx c @ [take n b]), tx_error := Some (0, e)\<rparr>))"

text \<open>The bytes of a write that were delivered, and how many they are.\<close>

definition sent_part :: "write_result \<Rightarrow> bytes \<Rightarrow> bytes" where
  "sent_part w b = (case w of Inl (n, e) \<Rightarrow> take n b | Inr _ \<Rightarrow> b)"

definition written :: "write_result \<Rightarrow> bytes \<Rightarrow> nat" where
  "written w b = (case w of Inl (n, e) \<Rightarrow> n | Inr _ \<Rightarrow> length b)"

definition rx_size :: "conn \<Rightarrow> nat" where
  "rx_size c = length (rx c) + length (concat (rx c))"

lemma conn_Read_smaller:
  "conn_Read n c = (Inr b, c') \<Longrightarrow> 0 < n \<Longrightarrow> rx_size c' < rx_size c"
  by (auto simp: conn_Read_def rx_size_def split: list.splits)

text \<open>\<open>io.ReadFull\<close>: short data after a first byte is \<open>ErrUnexpectedEOF\<close>.\<close>

function read_loop :: "nat \<Rightarrow> bytes \<Rightarrow> conn \<Rightarrow> bytes io \<times> conn" where
  "read_loop n acc c =
     (if n \<le> length acc then (Inr acc, c)
      else case conn_Read (n - length acc) c of
          (Inl e, c') \<Rightarrow> (Inl (if acc \<noteq> [] \<and> e = EOF then UnexpectedEOF else e), c')
        | (Inr b, c') \<Rightarrow> read_loop n (acc @ b) c')"
  by pat_completeness auto
termination
proof (relation "measure (\<lambda>(n, acc, c). rx_size c)", goal_cases)
  case 2
  then show ?case by (auto dest: conn_Read_smaller [OF sym])
qed simp

declare read_loop.simps [simp del]

definition ReadFull :: "nat \<Rightarrow> conn \<Rightarrow> bytes io \<times> conn" where
  "ReadFull n c = read_loop n [] c"

section \<open>Facts\<close>

lemma conn_Read_cases:
  obtains (eof) "rx c = []" "conn_Read n c = (Inl (rx_end c), c)"
  | (data) b c' where "rx c \<noteq> []" "conn_Read n c = (Inr b, c')" "length b \<le> n"
      "concat (rx c) = b @ concat (rx c')" "tx c' = tx c" "tx_error c' = tx_error c" "rx_end c' = rx_end c"
  by (cases "rx c") (auto simp: conn_Read_def)

lemma read_loop_ok:
  assumes "n \<le> length acc + length (concat (rx c))" and "length acc \<le> n"
  shows "\<exists>c'. read_loop n acc c = (Inr (take n (acc @ concat (rx c))), c') \<and>
     concat (rx c') = drop n (acc @ concat (rx c)) \<and> tx c' = tx c \<and> tx_error c' = tx_error c \<and> rx_end c' = rx_end c"
  using assms
proof (induction n acc c rule: read_loop.induct)
  case (1 n acc c)
  show ?case
  proof (cases "n \<le> length acc")
    case True
    with "1.prems" show ?thesis by (simp add: read_loop.simps [of n acc c])
  next
    case False
    show ?thesis
    proof (cases rule: conn_Read_cases [of c "n - length acc"])
      case eof
      with False "1.prems" show ?thesis by simp
    next
      case (data b c')
      with False "1.prems" 1(1) [OF False data(2) [symmetric] refl] show ?thesis
        by (auto simp: read_loop.simps [of n acc c])
    qed
  qed
qed

lemma ReadFull_ok:
  assumes "n \<le> length (concat (rx c))"
  shows "\<exists>c'. ReadFull n c = (Inr (take n (concat (rx c))), c') \<and>
     concat (rx c') = drop n (concat (rx c)) \<and> tx c' = tx c \<and> tx_error c' = tx_error c \<and> rx_end c' = rx_end c"
  using assms read_loop_ok [of n "[]" c] by (simp add: ReadFull_def)

lemma read_loop_short:
  assumes "length acc + length (concat (rx c)) < n"
  shows "\<exists>c'. read_loop n acc c = (Inl (if acc @ concat (rx c) \<noteq> [] \<and> rx_end c = EOF then UnexpectedEOF else rx_end c), c')
     \<and> tx c' = tx c"
  using assms
proof (induction n acc c rule: read_loop.induct)
  case (1 n acc c)
  then have False: "\<not> n \<le> length acc" by simp
  show ?case
  proof (cases rule: conn_Read_cases [of c "n - length acc"])
    case eof
    with False show ?thesis by (simp add: read_loop.simps [of n acc c])
  next
    case (data b c')
    with False "1.prems" 1(1) [OF False data(2) [symmetric] refl] show ?thesis
      by (auto simp: read_loop.simps [of n acc c])
  qed
qed

lemma ReadFull_short:
  assumes "length (concat (rx c)) < n"
  shows "\<exists>c'. ReadFull n c = (Inl (if concat (rx c) \<noteq> [] \<and> rx_end c = EOF then UnexpectedEOF else rx_end c), c')
     \<and> tx c' = tx c"
  using assms read_loop_short [of "[]" c n] by (simp add: ReadFull_def)

text \<open>A connection whose last write has not failed.\<close>

definition can_write :: "conn \<Rightarrow> bool" where
  "can_write c \<longleftrightarrow> (case tx_error c of None \<Rightarrow> True | Some (n, e) \<Rightarrow> 0 < n)"

lemma can_write_open [simp]: "tx_error c = None \<Longrightarrow> can_write c"
  by (simp add: can_write_def)

lemma conn_Write_law:
  "\<exists>r c'. conn_Write b c = (r, c') \<and> rx c' = rx c \<and> rx_end c' = rx_end c \<and>
     concat (tx c') = concat (tx c) @ sent_part r b \<and> length (sent_part r b) = written r b \<and>
     (case r of Inl _ \<Rightarrow> \<not> can_write c' \<and> (\<not> can_write c \<longrightarrow> sent_part r b = []) | Inr _ \<Rightarrow> can_write c)"
  by (auto simp: conn_Write_def can_write_def sent_part_def written_def split: option.splits)

lemma conn_Write_open: "tx_error c = None \<Longrightarrow> conn_Write b c = (Inr (), c\<lparr>tx := tx c @ [b]\<rparr>)"
  by (simp add: conn_Write_def)

end
