(* ===== verification/Limits.thy ===== *)
theory Limits
  imports Transport GoHttp StaticSite
begin

text \<open>
  Access control and accounting of the proxy (\<open>src/proxy/main.go\<close>): source addresses and their
  blacklist and connection rate, the target blacklist with its read-write lock, the bandwidth
  limiter, the metering writer and the audit log. The rate limiter of
  \<open>golang.org/x/time/rate\<close> and floating-point numbers are parameters.
\<close>

section \<open>Rate limiters\<close>

text \<open>
  \<open>'f\<close> stands for \<open>float64\<close>, \<open>'l\<close> for the state of a \<open>rate.Limiter\<close>; \<open>WaitN\<close> returns an error or
  nothing after having slept.
\<close>

record 'f floats =
  ParseFloat :: "string \<Rightarrow> 'f option"
  positive :: "'f \<Rightarrow> bool"
  FormatFloat :: "'f \<Rightarrow> string"

record ('f, 'l) ratelib =
  NewLimiter :: "'f \<Rightarrow> int \<Rightarrow> 'l"
  Allow :: "instant \<Rightarrow> 'l \<Rightarrow> bool \<times> 'l"
  WaitN :: "int \<Rightarrow> 'l \<Rightarrow> string option \<times> 'l"

section \<open>Sources\<close>

record 'f src_config =
  srcConnRate :: 'f
  srcConnBurst :: int
  srcLimitEnabled :: bool

record ('f, 'l) sources =
  src_conf :: "'f src_config"
  sourceRates :: "string \<Rightarrow> 'l option"
  blacklistedSources :: "string list"

text \<open>The initial values; \<open>one\<close> is the floating-point number 1.\<close>

definition initial_src_config :: "'f \<Rightarrow> 'f src_config" where
  "initial_src_config one = \<lparr>srcConnRate = one, srcConnBurst = 1, srcLimitEnabled = True\<rparr>"

definition initial_sources :: "'f src_config \<Rightarrow> ('f, 'l) sources" where
  "initial_sources cfg = \<lparr>src_conf = cfg, sourceRates = (\<lambda>_. None), blacklistedSources = []\<rparr>"

text \<open>\<open>init\<close>: \<open>strconv.Atoi\<close> is the 64-bit parser in base ten.\<close>

definition src_init :: "'f floats \<Rightarrow> environ \<Rightarrow> 'f src_config \<Rightarrow> 'f src_config" where
  "src_init F env cfg =
     (let v = ToLower (TrimSpace (env ''SRC_CONN_RATE''));
          cfg1 = (if v \<noteq> [] then
                    (if v = ''off'' \<or> v = ''no'' then cfg\<lparr>srcLimitEnabled := False\<rparr>
                     else case ParseFloat F v of
                         None \<Rightarrow> cfg
                       | Some f \<Rightarrow> if \<not> positive F f then cfg\<lparr>srcLimitEnabled := False\<rparr>
                                  else cfg\<lparr>srcConnRate := f\<rparr>)
                  else cfg);
          b = env ''SRC_CONN_BURST''
      in if b \<noteq> [] then
           (case ParseInt64 b of
              Some n \<Rightarrow> if 0 < n then cfg1\<lparr>srcConnBurst := n\<rparr> else cfg1
            | None \<Rightarrow> cfg1)
         else cfg1)"

text \<open>
  The addresses of a request, nearest hop first: both forwarding headers read from the right,
  then the text of the socket's address.
\<close>

definition source_ips :: "header \<Rightarrow> string \<Rightarrow> string list" where
  "source_ips h remote =
     concat (map (\<lambda>k. rev (map TrimSpace (Split (header_Get h k) CHR '',''))) [''X-Forwarded-For'', ''X-Real-Ip''])
     @ [remote]"

definition blacklisted_source :: "string list \<Rightarrow> string list \<Rightarrow> bool" where
  "blacklisted_source bl ips \<longleftrightarrow> list_ex (\<lambda>bi. list_ex (\<lambda>ip. HasPrefix ip bi) ips) bl"

definition getIPAdress ::
  "('f, 'l) ratelib \<Rightarrow> instant \<Rightarrow> header \<Rightarrow> string \<Rightarrow> ('f, 'l) sources \<Rightarrow>
   (bool \<times> string list) \<times> ('f, 'l) sources" where
  "getIPAdress R now h remote st =
     (let ips = source_ips h remote;
          key = hd ips;
          st1 = (if sourceRates st key = None
                 then st\<lparr>sourceRates := (sourceRates st)(key \<mapsto>
                        NewLimiter R (srcConnRate (src_conf st)) (srcConnBurst (src_conf st)))\<rparr>
                 else st)
      in if blacklisted_source (blacklistedSources st1) ips then ((True, ips), st1)
         else if \<not> srcLimitEnabled (src_conf st1) then ((False, ips), st1)
         else (case sourceRates st1 key of
                 None \<Rightarrow> ((False, ips), st1)
               | Some l \<Rightarrow> (case Allow R now l of (ok, l') \<Rightarrow>
                   ((\<not> ok, ips), st1\<lparr>sourceRates := (sourceRates st1)(key \<mapsto> l')\<rparr>))))"

section \<open>Targets\<close>

text \<open>
  The blacklist of targets and its lock: the number of readers that hold it. The loop returns
  from inside on a match, which skips \<open>RUnlock\<close>.
\<close>

record targets =
  blacklistedTargets :: "string list"
  bl_readers :: nat

definition initial_targets :: targets where
  "initial_targets = \<lparr>blacklistedTargets = [''localhost'', ''127.0.0.1'', ''::1''], bl_readers = 0\<rparr>"

definition isAllowedTarger :: "string \<Rightarrow> targets \<Rightarrow> bool \<times> targets" where
  "isAllowedTarger host tg =
     (let locked = tg\<lparr>bl_readers := bl_readers tg + 1\<rparr>
      in if list_ex (\<lambda>h. host = h) (blacklistedTargets locked) then (False, locked)
         else (True, locked\<lparr>bl_readers := bl_readers locked - 1\<rparr>))"

section \<open>Bandwidth\<close>

record 'f bandwidth =
  freeLimit :: int
  maxLimitedRate :: 'f
  maxBurst :: int

text \<open>The initial values; \<open>rate\<close> is the floating-point number 102400.\<close>

definition initial_bandwidth :: "'f \<Rightarrow> 'f bandwidth" where
  "initial_bandwidth rate = \<lparr>freeLimit = 1024 * 1024 * 1024, maxLimitedRate = rate, maxBurst = 64 * 1024\<rparr>"

text \<open>A limited writer; the two of a connection share one limiter, so its state is passed along.\<close>

record limitedWriter =
  lw_written :: int

definition newLimters :: "('f, 'l) ratelib \<Rightarrow> 'f bandwidth \<Rightarrow> 'l \<times> limitedWriter \<times> limitedWriter" where
  "newLimters R bw =
     (NewLimiter R (maxLimitedRate bw) (maxBurst bw), \<lparr>lw_written = 0\<rparr>, \<lparr>lw_written = 0\<rparr>)"

text \<open>
  \<open>Write\<close> on top of the writer \<open>wr\<close>: the result carries what \<open>wr\<close> returned and the message logged
  when the limiter refused.
\<close>

definition limitedWriter_Write ::
  "('f, 'l) ratelib \<Rightarrow> 'f bandwidth \<Rightarrow> (bytes \<Rightarrow> 'c \<Rightarrow> (write_result \<times> 'c) res) \<Rightarrow> bytes \<Rightarrow>
   'l \<Rightarrow> limitedWriter \<Rightarrow> 'c \<Rightarrow> ((write_result \<times> string option) \<times> 'l \<times> limitedWriter \<times> 'c) res" where
  "limitedWriter_Write R bw wr b lim w c =
     (case (if freeLimit bw < lw_written w then WaitN R (int (length b)) lim else (None, lim)) of (msg, lim') \<Rightarrow>
        bind_res (wr b c) (\<lambda>(r, c').
          Returns ((r, msg), lim', w\<lparr>lw_written := i64 (lw_written w + int (length b))\<rparr>, c')))"

text \<open>The metering writer adds the number of bytes written to its counter, those before an error too.\<close>

definition meteredWriter_Write ::
  "('f, 'l) ratelib \<Rightarrow> 'f bandwidth \<Rightarrow> (bytes \<Rightarrow> 'c \<Rightarrow> (write_result \<times> 'c) res) \<Rightarrow> bytes \<Rightarrow>
   int \<Rightarrow> 'l \<Rightarrow> limitedWriter \<Rightarrow> 'c \<Rightarrow> (write_result \<times> int \<times> 'l \<times> limitedWriter \<times> 'c) res" where
  "meteredWriter_Write R bw wr b counter lim w c =
     bind_res (limitedWriter_Write R bw wr b lim w c) (\<lambda>((r, _), lim', w', c').
        Returns (r, counter + int (written r b), lim', w', c'))"

definition conn_writer :: "bytes \<Rightarrow> conn \<Rightarrow> (write_result \<times> conn) res" where
  "conn_writer b c = Returns (conn_Write b c)"

section \<open>Audit log\<close>

definition audit_line :: "string \<Rightarrow> string \<Rightarrow> string \<Rightarrow> int \<Rightarrow> string \<Rightarrow> string" where
  "audit_line time srcIP dstIP dstPort msg =
     time @ '','' @ srcIP @ '','' @ dstIP @ '','' @ FormatInt dstPort @ '','' @ msg @ nl"

text \<open>\<open>auditLog\<close> is the text written so far; \<open>None\<close> is the nil writer.\<close>

definition writeAuditLog ::
  "(instant \<Rightarrow> string) \<Rightarrow> instant \<Rightarrow> string \<Rightarrow> string \<Rightarrow> int \<Rightarrow> string \<Rightarrow> string option \<Rightarrow> string option" where
  "writeAuditLog fmt now srcIP dstIP dstPort msg auditLog =
     (case auditLog of
        None \<Rightarrow> None
      | Some f \<Rightarrow> Some (f @ audit_line (fmt now) srcIP dstIP dstPort msg))"

section \<open>Loggers\<close>

text \<open>\<open>id[:8]\<close> panics on a shorter identifier.\<close>

definition logFromID :: "string \<Rightarrow> string res" where
  "logFromID i = (if length i < 8 then Panics else Returns (take 8 i @ '' ''))"

definition request_id :: "string option \<Rightarrow> string" where
  "request_id uuid = (case uuid of None \<Rightarrow> ''not-uuid'' | Some u \<Rightarrow> u)"

definition newLogger :: "string option \<Rightarrow> string res" where
  "newLogger uuid = logFromID (request_id uuid)"

definition bootHandshake :: "string option \<Rightarrow> header" where
  "bootHandshake uuid = header_Set (\<lambda>_. None) ''X-Request-Id'' (request_id uuid)"

section \<open>Sources: properties\<close>

lemma source_ips_not_Nil [simp]: "source_ips h remote \<noteq> []"
  by (simp add: source_ips_def)

definition limiter_of :: "('f, 'l) ratelib \<Rightarrow> string \<Rightarrow> ('f, 'l) sources \<Rightarrow> 'l" where
  "limiter_of R key st = (case sourceRates st key of
     None \<Rightarrow> NewLimiter R (srcConnRate (src_conf st)) (srcConnBurst (src_conf st)) | Some l \<Rightarrow> l)"

lemma getIPAdress_verdict:
  "fst (fst (getIPAdress R now h remote st)) \<longleftrightarrow>
     (\<exists>bi \<in> set (blacklistedSources st). \<exists>ip \<in> set (source_ips h remote). HasPrefix ip bi) \<or>
     srcLimitEnabled (src_conf st) \<and> \<not> fst (Allow R now (limiter_of R (hd (source_ips h remote)) st))"
  by (auto simp: getIPAdress_def limiter_of_def blacklisted_source_def Let_def list_ex_iff split_beta split: option.splits)

lemma getIPAdress_sources:
  "snd (getIPAdress R now h remote st) = st\<lparr>sourceRates := (sourceRates st)(hd (source_ips h remote) \<mapsto>
     (if srcLimitEnabled (src_conf st) \<and> \<not> blacklisted_source (blacklistedSources st) (source_ips h remote)
      then snd (Allow R now (limiter_of R (hd (source_ips h remote)) st))
      else limiter_of R (hd (source_ips h remote)) st))\<rparr>"
  by (cases st) (auto simp: getIPAdress_def limiter_of_def Let_def split_beta fun_eq_iff split: option.splits)

lemma source_ips_join:
  assumes "header_Get h ''X-Forwarded-For'' = join '','' xs" and "header_Get h ''X-Real-Ip'' = join '','' ys"
    and "xs \<noteq> []" and "ys \<noteq> []" and "\<forall>x \<in> set xs \<union> set ys. CHR '','' \<notin> set x"
  shows "source_ips h remote = rev (map TrimSpace xs) @ rev (map TrimSpace ys) @ [remote]"
    and "hd (source_ips h remote) = TrimSpace (last xs)"
proof -
  have "Split (join '','' xs) CHR '','' = xs" "Split (join '','' ys) CHR '','' = ys"
    using assms(3-5) by (auto intro!: Split_join)
  then show ips: "source_ips h remote = rev (map TrimSpace xs) @ rev (map TrimSpace ys) @ [remote]"
    by (simp add: source_ips_def assms(1,2))
  show "hd (source_ips h remote) = TrimSpace (last xs)"
    unfolding ips using assms(3) by (simp add: hd_append hd_rev last_map)
qed

text \<open>
  C35. The addresses of a request are the trimmed elements of \<open>X-Forwarded-For\<close> from the right, those of
  \<open>X-Real-Ip\<close> from the right, and the text of the socket's address. A connection is refused exactly when
  an entry of the source blacklist is a prefix of one of them, or limiting is on and the limiter of the
  first says no: the last element of \<open>X-Forwarded-For\<close>, which is the empty address for all
  clients that come without that header, so that they share one limiter. The only change
  of the state is in the limiter of that address, which is created when it is missing and charged
  only when the blacklist has not already refused.
\<close>

theorem getIPAdress_spec:
  assumes "header_Get h ''X-Forwarded-For'' = join '','' xs" and "header_Get h ''X-Real-Ip'' = join '','' ys"
    and "xs \<noteq> []" and "ys \<noteq> []" and "\<forall>x \<in> set xs \<union> set ys. CHR '','' \<notin> set x"
    and "ips = rev (map TrimSpace xs) @ rev (map TrimSpace ys) @ [remote]" and "key = TrimSpace (last xs)"
    and "getIPAdress R now h remote st = ((refused, ips'), st')"
  shows "ips' = ips \<and>
    (refused \<longleftrightarrow> (\<exists>bi \<in> set (blacklistedSources st). \<exists>ip \<in> set ips. HasPrefix ip bi) \<or>
      srcLimitEnabled (src_conf st) \<and> \<not> fst (Allow R now (limiter_of R key st))) \<and>
    st' = st\<lparr>sourceRates := (sourceRates st)(key \<mapsto>
      (if srcLimitEnabled (src_conf st) \<and> \<not> (\<exists>bi \<in> set (blacklistedSources st). \<exists>ip \<in> set ips. HasPrefix ip bi)
       then snd (Allow R now (limiter_of R key st)) else limiter_of R key st))\<rparr> \<and>
    (header_Get h ''X-Forwarded-For'' = [] \<longrightarrow> key = [])"
proof -
  note ips = source_ips_join [OF assms(1-5), of remote]
  have "snd (fst (getIPAdress R now h remote st)) = source_ips h remote"
    by (auto simp: getIPAdress_def Let_def split_beta split: option.splits)
  moreover have "blacklisted_source (blacklistedSources st) ips \<longleftrightarrow>
      (\<exists>bi \<in> set (blacklistedSources st). \<exists>ip \<in> set ips. HasPrefix ip bi)"
    by (simp add: blacklisted_source_def list_ex_iff)
  moreover have "key = []" if "header_Get h ''X-Forwarded-For'' = []"
  proof -
    have "Split (join '','' xs) CHR '','' = xs" using assms(3,5) by (auto intro!: Split_join)
    with that assms(1) have "xs = [[]]" by simp
    with assms(7) show ?thesis by simp
  qed
  ultimately show ?thesis
    using getIPAdress_verdict [of R now h remote st] getIPAdress_sources [of R now h remote st] assms(6-8) ips by auto
qed

text \<open>
  Clients that reach the proxy without an \<open>X-Forwarded-For\<close> header are all counted against
  the one limiter of the empty address, whatever their socket address.
\<close>

theorem unforwarded_share_limiter:
  assumes "header_Get h ''X-Forwarded-For'' = []"
  shows "hd (source_ips h remote) = []"
  using assms by (simp add: source_ips_def Split_def)

theorem unforwarded_share_limiter_witness:
  "hd (source_ips (\<lambda>_. None) ''203.0.113.5:1'') = []"
  by (rule unforwarded_share_limiter) simp

section \<open>Targets: properties\<close>

text \<open>Everything the program does with the target blacklist, one critical section at a time.\<close>

inductive target_step :: "targets \<Rightarrow> targets \<Rightarrow> bool" where
  lookup: "isAllowedTarger host tg = (b, tg') \<Longrightarrow> target_step tg tg'"
| set_list: "bl_readers tg = 0 \<Longrightarrow> target_step tg (tg\<lparr>blacklistedTargets := hosts\<rparr>)"
| get_list: "target_step tg tg"

inductive_cases target_stepE: "target_step tg tg'"

lemma isAllowedTarger_iff:
  "isAllowedTarger host tg = (host \<notin> set (blacklistedTargets tg),
     tg\<lparr>bl_readers := bl_readers tg + (if host \<in> set (blacklistedTargets tg) then 1 else 0)\<rparr>)"
  by (auto simp: isAllowedTarger_def Let_def list_ex_iff)

lemma target_step_readers:
  "target_step tg tg' \<Longrightarrow> 0 < bl_readers tg \<Longrightarrow>
   bl_readers tg \<le> bl_readers tg' \<and> blacklistedTargets tg' = blacklistedTargets tg"
  by (auto simp: isAllowedTarger_iff elim!: target_stepE)

interpretation frozen: preserved target_step "\<lambda>tg. blacklistedTargets tg = bl \<and> 0 < bl_readers tg" for bl
  by unfold_locales (auto dest: target_step_readers)

text \<open>
  C36. The target check is an exact comparison of names, and a refused target leaves the read
  lock held: after one refusal no sequence of further operations ever changes the blacklist,
  because the writer's lock is never granted again.
\<close>

theorem refusal_freezes_blacklist:
  "(fst (isAllowedTarger host tg) \<longleftrightarrow> host \<notin> set (blacklistedTargets tg)) \<and>
   (host \<in> set (blacklistedTargets tg) \<and> target_step\<^sup>*\<^sup>* (snd (isAllowedTarger host tg)) tg' \<longrightarrow>
     blacklistedTargets tg' = blacklistedTargets tg \<and> 0 < bl_readers tg')"
  using frozen.reached [of "snd (isAllowedTarger host tg)" tg' "blacklistedTargets tg"] by (simp add: isAllowedTarger_iff)

theorem refusal_freezes_blacklist_witness:
  "blacklistedTargets (snd (isAllowedTarger ''localhost'' initial_targets)) = [''localhost'', ''127.0.0.1'', ''::1'']"
  using refusal_freezes_blacklist [of "''localhost''" initial_targets "snd (isAllowedTarger ''localhost'' initial_targets)"]
  by (simp add: initial_targets_def)

text \<open>
  With the initial blacklist the loopback interface is reachable under names that differ
  in case, in the last octet or in notation.
\<close>

theorem loopback_aliases_allowed:
  "host \<in> {''LOCALHOST'', ''localhost.'', ''127.0.0.2'', ''127.1'', ''0.0.0.0'', ''[::1]''} \<Longrightarrow>
   fst (isAllowedTarger host initial_targets)"
  by (auto simp: isAllowedTarger_iff initial_targets_def)

theorem loopback_aliases_allowed_witness: "fst (isAllowedTarger ''127.0.0.2'' initial_targets)"
  by (rule loopback_aliases_allowed) simp

section \<open>Bandwidth: properties\<close>

primrec limited_writes ::
  "('f, 'l) ratelib \<Rightarrow> 'f bandwidth \<Rightarrow> bytes list \<Rightarrow> 'l \<Rightarrow> limitedWriter \<Rightarrow> conn \<Rightarrow> ('l \<times> limitedWriter \<times> conn) res" where
  "limited_writes R bw [] lim w c = Returns (lim, w, c)"
| "limited_writes R bw (b # bs) lim w c =
     bind_res (limitedWriter_Write R bw conn_writer b lim w c) (\<lambda>(_, lim', w', c'). limited_writes R bw bs lim' w' c')"

text \<open>A limiter that refuses a request beyond its burst at once, as \<open>WaitN\<close> is documented to do.\<close>

definition rejects_oversize :: "('f, 'l) ratelib \<Rightarrow> int \<Rightarrow> bool" where
  "rejects_oversize R burst \<longleftrightarrow> (\<forall>n lim. burst < n \<longrightarrow> fst (WaitN R n lim) \<noteq> None \<and> snd (WaitN R n lim) = lim)"

text \<open>One write and, by induction, many: delivery, and when the limiter stays untouched.\<close>

lemma limited_write_step:
  assumes "tx_error c = None"
  shows "\<exists>msg. limitedWriter_Write R bw conn_writer b lim w c = Returns ((Inr (), msg),
      (if freeLimit bw < lw_written w then snd (WaitN R (int (length b)) lim) else lim),
      \<lparr>lw_written = i64 (lw_written w + int (length b))\<rparr>, c\<lparr>tx := tx c @ [b]\<rparr>)"
  using assms by (simp add: limitedWriter_Write_def conn_writer_def conn_Write_open split_beta)

lemma limited_writes_Cons:
  assumes "tx_error c = None"
  shows "limited_writes R bw (b # bs) lim w c = limited_writes R bw bs
      (if freeLimit bw < lw_written w then snd (WaitN R (int (length b)) lim) else lim)
      \<lparr>lw_written = i64 (lw_written w + int (length b))\<rparr> (c\<lparr>tx := tx c @ [b]\<rparr>)"
proof -
  obtain msg where "limitedWriter_Write R bw conn_writer b lim w c = Returns ((Inr (), msg),
      (if freeLimit bw < lw_written w then snd (WaitN R (int (length b)) lim) else lim),
      \<lparr>lw_written = i64 (lw_written w + int (length b))\<rparr>, c\<lparr>tx := tx c @ [b]\<rparr>)"
    using limited_write_step [OF assms, of R bw b lim w] by blast
  then show ?thesis by simp
qed

lemma limited_writes_deliver:
  "tx_error c = None \<Longrightarrow> \<exists>lim' w' c'. limited_writes R bw bs lim w c = Returns (lim', w', c') \<and> tx c' = tx c @ bs"
proof (induction bs arbitrary: lim w c)
  case (Cons b bs)
  then show ?case unfolding limited_writes_Cons [OF Cons.prems]
    using Cons.IH [of "c\<lparr>tx := tx c @ [b]\<rparr>"] by simp
qed simp

lemma limited_writes_free:
  assumes "tx_error c = None" and "0 \<le> lw_written w" and "in_i64 (freeLimit bw)"
    and "lw_written w + int (length (concat bs)) \<le> freeLimit bw"
  shows "\<exists>w' c'. limited_writes R bw bs lim w c = Returns (lim, w', c')"
  using assms
proof (induction bs arbitrary: w c)
  case (Cons b bs)
  have "in_i64 (lw_written w + int (length b))" "\<not> freeLimit bw < lw_written w"
    using Cons.prems by (auto simp: in_i64_def)
  then show ?case unfolding limited_writes_Cons [OF Cons.prems(1)]
    using Cons.IH [of "c\<lparr>tx := tx c @ [b]\<rparr>" "\<lparr>lw_written = lw_written w + int (length b)\<rparr>"] Cons.prems by simp
qed simp

lemma limited_writes_oversize:
  assumes "rejects_oversize R burst" and "tx_error c = None" and "\<forall>b \<in> set bs. burst < int (length b)"
  shows "\<exists>w' c'. limited_writes R bw bs lim w c = Returns (lim, w', c')"
  using assms(2,3)
proof (induction bs arbitrary: w c)
  case (Cons b bs)
  have "snd (WaitN R (int (length b)) lim) = lim" using assms(1) Cons.prems by (simp add: rejects_oversize_def)
  then show ?case unfolding limited_writes_Cons [OF Cons.prems(1)]
    using Cons.IH [of "c\<lparr>tx := tx c @ [b]\<rparr>"] Cons.prems by simp
qed simp

text \<open>
  The bandwidth limiter passes every write on, unchanged and in order; it is not consulted
  before the free volume is used up. Writes longer than the burst are refused by the limiter
  and sent all the same: with a burst below the copy buffer the limit has no effect.
\<close>

theorem limitedWriter_transparent:
  assumes "tx_error c = None" and "0 \<le> lw_written w" and "in_i64 (freeLimit bw)"
  shows "\<exists>lim' w' c'. limited_writes R bw bs lim w c = Returns (lim', w', c') \<and> tx c' = tx c @ bs \<and>
    (lw_written w + int (length (concat bs)) \<le> freeLimit bw
     \<or> rejects_oversize R burst \<and> (\<forall>b \<in> set bs. burst < int (length b)) \<longrightarrow> lim' = lim)"
proof -
  obtain lim' w' c' where run: "limited_writes R bw bs lim w c = Returns (lim', w', c')" "tx c' = tx c @ bs"
    using limited_writes_deliver [OF assms(1), of R bw bs lim w] by blast
  with limited_writes_free [OF assms, of bs R lim] limited_writes_oversize [OF _ assms(1), of R burst bs bw lim w]
  show ?thesis by (intro exI [of _ lim'] exI [of _ w'] exI [of _ c']) auto
qed

definition demo_ratelib :: "(int, int) ratelib" where
  "demo_ratelib = \<lparr>NewLimiter = (\<lambda>_ b. b), Allow = (\<lambda>_ l. (0 < l, l - 1)),
     WaitN = (\<lambda>n l. if 8 < n then (Some ''exceeds burst'', l) else (None, l - n))\<rparr>"

definition open_conn :: conn where
  "open_conn = \<lparr>rx = [], rx_end = EOF, tx = [], tx_error = None\<rparr>"

theorem limitedWriter_transparent_witness:
  "\<exists>w' c'. limited_writes demo_ratelib \<lparr>freeLimit = 5, maxLimitedRate = 1, maxBurst = 8\<rparr>
      [''0123456789'', ''0123456789''] 8 \<lparr>lw_written = 0\<rparr> open_conn = Returns (8, w', c') \<and>
      tx c' = [''0123456789'', ''0123456789'']"
proof -
  have hyps: "rejects_oversize demo_ratelib 8" "tx_error open_conn = None" "tx open_conn = []" "in_i64 5"
    "\<forall>b \<in> set [''0123456789'', ''0123456789'']. (8::int) < int (length b)"
    by (simp_all add: rejects_oversize_def demo_ratelib_def open_conn_def in_i64_def)
  from limitedWriter_transparent [of open_conn "\<lparr>lw_written = 0\<rparr>" "\<lparr>freeLimit = 5, maxLimitedRate = 1, maxBurst = 8\<rparr>"
      demo_ratelib "[''0123456789'', ''0123456789'']" 8 8] hyps
  show ?thesis by (simp del: limited_writes.simps)
qed

text \<open>A request through two proxies: the address nearest to the server is charged.\<close>

theorem getIPAdress_spec_witness:
  "\<exists>st'. getIPAdress demo_ratelib 0 [''X-Forwarded-For'' \<mapsto> [''203.0.113.9, 10.1.1.1'']] ''127.0.0.1:9''
      (initial_sources (initial_src_config 1)) = ((False, [''10.1.1.1'', ''203.0.113.9'', [], ''127.0.0.1:9'']), st') \<and>
    sourceRates st' = [''10.1.1.1'' \<mapsto> 0]"
proof -
  let ?h = "[''X-Forwarded-For'' \<mapsto> [''203.0.113.9, 10.1.1.1'']]" and ?st = "initial_sources (initial_src_config 1)"
  have trim: "TrimSpace ''203.0.113.9'' = ''203.0.113.9''" "TrimSpace '' 10.1.1.1'' = ''10.1.1.1''" by code_simp+
  obtain refused ips st' where run: "getIPAdress demo_ratelib 0 ?h ''127.0.0.1:9'' ?st = ((refused, ips), st')"
    by (metis prod.exhaust)
  have "header_Get ?h ''X-Forwarded-For'' = join '','' [''203.0.113.9'', '' 10.1.1.1'']" "header_Get ?h ''X-Real-Ip'' = join '','' [[]]"
    by (simp_all add: header_Get_def)
  from getIPAdress_spec [OF this _ _ _ refl refl run] run trim show ?thesis
    by (simp add: initial_sources_def initial_src_config_def demo_ratelib_def limiter_of_def)
qed

section \<open>Audit log: properties\<close>

lemma Split_middle: "Split (a @ c # b) c = Split a c @ Split b c"
proof (induction a)
  case (Cons x a)
  then show ?case by (cases "x = c"; cases "Split a c") (simp_all add: Split_def)
qed (simp add: Split_def)

text \<open>
  The audit log can be forged: the host of a connection request is written unescaped, so for
  every text without a line break there is a host, chosen by the client, that makes the text a
  complete line of the log.
\<close>

theorem audit_log_forgeable:
  assumes "CHR 0x0A \<notin> set forged"
  shows "\<exists>host f'. writeAuditLog fmt now srcIP host port msg (Some f) = Some f' \<and>
    forged \<in> set (Split f' CHR 0x0A)"
proof (intro exI conjI)
  let ?host = "nl @ forged @ nl"
  show "writeAuditLog fmt now srcIP ?host port msg (Some f) =
      Some ((f @ fmt now @ '','' @ srcIP @ '','') @ CHR 0x0A # forged @ CHR 0x0A # '','' @ FormatInt port @ '','' @ msg @ nl)"
    by (simp add: writeAuditLog_def audit_line_def)
  show "forged \<in> set (Split ((f @ fmt now @ '','' @ srcIP @ '','') @ CHR 0x0A # forged @ CHR 0x0A # '','' @
      FormatInt port @ '','' @ msg @ nl) CHR 0x0A)"
    unfolding Split_middle using Split_no [OF assms] by simp
qed

theorem audit_log_forgeable_witness:
  "\<exists>host f'. writeAuditLog (\<lambda>_. ''t'') 0 ''10.0.0.1'' host 22 ''connection request'' (Some []) = Some f' \<and>
    ''t,10.9.9.9,db,5432,connection established'' \<in> set (Split f' CHR 0x0A)"
  by (rule audit_log_forgeable) simp

end
