(* ===== verification/GoAes.thy ===== *)
theory GoAes
  imports GoCrypto
begin

text \<open>
  Package \<open>crypto/aes\<close> with 256-bit keys and the counter mode of \<open>crypto/cipher\<close>: the block
  function on bytes (as integers below 256), the key schedule and the key stream, with the
  published example of FIPS 197 as a check.
\<close>

section \<open>The block function\<close>

definition sbox :: "int list" where
  "sbox =
    [0x63, 0x7c, 0x77, 0x7b, 0xf2, 0x6b, 0x6f, 0xc5, 0x30, 0x01, 0x67, 0x2b, 0xfe, 0xd7, 0xab, 0x76,
     0xca, 0x82, 0xc9, 0x7d, 0xfa, 0x59, 0x47, 0xf0, 0xad, 0xd4, 0xa2, 0xaf, 0x9c, 0xa4, 0x72, 0xc0,
     0xb7, 0xfd, 0x93, 0x26, 0x36, 0x3f, 0xf7, 0xcc, 0x34, 0xa5, 0xe5, 0xf1, 0x71, 0xd8, 0x31, 0x15,
     0x04, 0xc7, 0x23, 0xc3, 0x18, 0x96, 0x05, 0x9a, 0x07, 0x12, 0x80, 0xe2, 0xeb, 0x27, 0xb2, 0x75,
     0x09, 0x83, 0x2c, 0x1a, 0x1b, 0x6e, 0x5a, 0xa0, 0x52, 0x3b, 0xd6, 0xb3, 0x29, 0xe3, 0x2f, 0x84,
     0x53, 0xd1, 0x00, 0xed, 0x20, 0xfc, 0xb1, 0x5b, 0x6a, 0xcb, 0xbe, 0x39, 0x4a, 0x4c, 0x58, 0xcf,
     0xd0, 0xef, 0xaa, 0xfb, 0x43, 0x4d, 0x33, 0x85, 0x45, 0xf9, 0x02, 0x7f, 0x50, 0x3c, 0x9f, 0xa8,
     0x51, 0xa3, 0x40, 0x8f, 0x92, 0x9d, 0x38, 0xf5, 0xbc, 0xb6, 0xda, 0x21, 0x10, 0xff, 0xf3, 0xd2,
     0xcd, 0x0c, 0x13, 0xec, 0x5f, 0x97, 0x44, 0x17, 0xc4, 0xa7, 0x7e, 0x3d, 0x64, 0x5d, 0x19, 0x73,
     0x60, 0x81, 0x4f, 0xdc, 0x22, 0x2a, 0x90, 0x88, 0x46, 0xee, 0xb8, 0x14, 0xde, 0x5e, 0x0b, 0xdb,
     0xe0, 0x32, 0x3a, 0x0a, 0x49, 0x06, 0x24, 0x5c, 0xc2, 0xd3, 0xac, 0x62, 0x91, 0x95, 0xe4, 0x79,
     0xe7, 0xc8, 0x37, 0x6d, 0x8d, 0xd5, 0x4e, 0xa9, 0x6c, 0x56, 0xf4, 0xea, 0x65, 0x7a, 0xae, 0x08,
     0xba, 0x78, 0x25, 0x2e, 0x1c, 0xa6, 0xb4, 0xc6, 0xe8, 0xdd, 0x74, 0x1f, 0x4b, 0xbd, 0x8b, 0x8a,
     0x70, 0x3e, 0xb5, 0x66, 0x48, 0x03, 0xf6, 0x0e, 0x61, 0x35, 0x57, 0xb9, 0x86, 0xc1, 0x1d, 0x9e,
     0xe1, 0xf8, 0x98, 0x11, 0x69, 0xd9, 0x8e, 0x94, 0x9b, 0x1e, 0x87, 0xe9, 0xce, 0x55, 0x28, 0xdf,
     0x8c, 0xa1, 0x89, 0x0d, 0xbf, 0xe6, 0x42, 0x68, 0x41, 0x99, 0x2d, 0x0f, 0xb0, 0x54, 0xbb, 0x16]"

definition sub_byte :: "int \<Rightarrow> int" where
  "sub_byte x = sbox ! nat x"

definition xtime :: "int \<Rightarrow> int" where
  "xtime x = (if x < 128 then 2 * x else (2 * x - 256) XOR 0x1b)"

definition xor_bytes :: "int list \<Rightarrow> int list \<Rightarrow> int list" where
  "xor_bytes = map2 (XOR)"

fun shift_rows :: "int list \<Rightarrow> int list" where
  "shift_rows [a0,a1,a2,a3, b0,b1,b2,b3, c0,c1,c2,c3, d0,d1,d2,d3] =
     [a0,b1,c2,d3, b0,c1,d2,a3, c0,d1,a2,b3, d0,a1,b2,c3]"
| "shift_rows s = s"

fun mix_columns :: "int list \<Rightarrow> int list" where
  "mix_columns (a # b # c # d # s) =
     (let t = a XOR b XOR c XOR d
      in (a XOR t XOR xtime (a XOR b)) # (b XOR t XOR xtime (b XOR c))
         # (c XOR t XOR xtime (c XOR d)) # (d XOR t XOR xtime (d XOR a)) # mix_columns s)"
| "mix_columns s = s"

text \<open>Eight words of the key schedule from the previous eight.\<close>

fun next_key :: "int \<Rightarrow> int list list \<Rightarrow> int list list" where
  "next_key rc [w0, w1, w2, w3, w4, w5, w6, w7] =
     (let t = map sub_byte (rotate1 w7);
          v0 = xor_bytes w0 (xor_bytes t [rc, 0, 0, 0]);
          v1 = xor_bytes w1 v0; v2 = xor_bytes w2 v1; v3 = xor_bytes w3 v2;
          v4 = xor_bytes w4 (map sub_byte v3);
          v5 = xor_bytes w5 v4; v6 = xor_bytes w6 v5; v7 = xor_bytes w7 v6
      in [v0, v1, v2, v3, v4, v5, v6, v7])"
| "next_key rc ws = ws"

primrec key_words :: "int list \<Rightarrow> int list list \<Rightarrow> int list list" where
  "key_words [] ws = ws"
| "key_words (rc # rcs) ws = ws @ key_words rcs (next_key rc ws)"

fun groups4 :: "'a list \<Rightarrow> 'a list list" where
  "groups4 (a # b # c # d # xs) = [a, b, c, d] # groups4 xs"
| "groups4 _ = []"

definition round_keys :: "int list \<Rightarrow> int list list" where
  "round_keys key = take 15 (map concat (groups4 (key_words [1, 2, 4, 8, 16, 32, 64] (groups4 key))))"

fun aes_rounds :: "int list list \<Rightarrow> int list \<Rightarrow> int list" where
  "aes_rounds [] s = s"
| "aes_rounds [k] s = xor_bytes (shift_rows (map sub_byte s)) k"
| "aes_rounds (k # ks) s = aes_rounds ks (xor_bytes (mix_columns (shift_rows (map sub_byte s))) k)"

definition aes_encrypt :: "int list \<Rightarrow> int list \<Rightarrow> int list" where
  "aes_encrypt key blk = (case round_keys key of [] \<Rightarrow> blk | k # ks \<Rightarrow> aes_rounds ks (xor_bytes blk k))"

section \<open>Counter mode\<close>

text \<open>
  A \<open>cipher.Stream\<close> made by \<open>NewCTR\<close>: the key, the initial counter block and the number of
  key-stream bytes used so far. Block \<open>j\<close> of the key stream encrypts the big-endian counter
  \<open>iv + j\<close> modulo \<open>2 ^ 128\<close>.
\<close>

record cipher_stream =
  cs_key :: bytes
  cs_iv :: bytes
  cs_pos :: nat

definition be128 :: "int \<Rightarrow> int list" where
  "be128 x = map (\<lambda>i. drop_bit (8 * i) x mod 256) (rev [0..<16])"

definition counter_block :: "bytes \<Rightarrow> nat \<Rightarrow> int list" where
  "counter_block iv j = be128 ((be32 iv + int j) mod 340282366920938463463374607431768211456)"

definition keystream_byte :: "bytes \<Rightarrow> bytes \<Rightarrow> nat \<Rightarrow> char" where
  "keystream_byte key iv i = char_of (aes_encrypt (map of_char key) (counter_block iv (i div 16)) ! (i mod 16))"

definition XORKeyStream :: "cipher_stream \<Rightarrow> bytes \<Rightarrow> bytes \<times> cipher_stream" where
  "XORKeyStream s p =
     (map (\<lambda>i. xor_byte (p ! i) (keystream_byte (cs_key s) (cs_iv s) (cs_pos s + i))) [0..<length p],
      s\<lparr>cs_pos := cs_pos s + length p\<rparr>)"

text \<open>\<open>aes.NewCipher\<close> accepts keys of 16, 24 and 32 bytes; the program uses 32 only.\<close>

definition aes_key_ok :: "bytes \<Rightarrow> bool" where
  "aes_key_ok key \<longleftrightarrow> length key = 32"

section \<open>Stream ciphers\<close>

text \<open>
  What the transport relies on: from equal states encryption and decryption cancel, they
  leave equal states behind, and cutting the data into pieces makes no difference.
\<close>

locale stream_cipher =
  fixes xor :: "'s \<Rightarrow> bytes \<Rightarrow> bytes \<times> 's"
  assumes xor_length: "length (fst (xor s p)) = length p"
    and xor_xor: "fst (xor s (fst (xor s p))) = p"
    and xor_state: "length p = length q \<Longrightarrow> snd (xor s p) = snd (xor s q)"
    and xor_append: "xor s (p @ q) = (fst (xor s p) @ fst (xor (snd (xor s p)) q), snd (xor (snd (xor s p)) q))"
begin

lemma decrypt: "xor s (fst (xor s p)) = (p, snd (xor s p))"
  by (metis prod.collapse xor_xor xor_state xor_length)

lemma xor_Nil: "fst (xor s []) = []"
  using xor_length [of s "[]"] by simp

text \<open>Decrypting any prefix of a ciphertext gives the prefix of the plaintext, and the rest remains.\<close>

lemma xor_take: "fst (xor s (take n p)) = take n (fst (xor s p))"
proof -
  have "fst (xor s p) = fst (xor s (take n p)) @ fst (xor (snd (xor s (take n p))) (drop n p))"
    using xor_append [of s "take n p" "drop n p"] by simp
  moreover have "length (fst (xor s (take n p))) = min n (length p)" by (simp add: xor_length)
  moreover have "length (fst (xor s p)) = length p" by (rule xor_length)
  ultimately show ?thesis by (metis append_eq_conv_conj length_take take_take take_all_iff min.cobounded1 min_def linorder_linear)
qed

lemma decrypt_prefix:
  assumes "fst (xor s p) = c1 @ c2"
  shows "fst (xor s c1) = take (length c1) p"
    and "fst (xor (snd (xor s c1)) (drop (length c1) p)) = c2"
proof -
  let ?p1 = "take (length c1) p" and ?p2 = "drop (length c1) p"
  have len: "length c1 \<le> length p" using assms xor_length [of s p] by simp
  have "fst (xor s ?p1) @ fst (xor (snd (xor s ?p1)) ?p2) = c1 @ c2"
    using assms xor_append [of s ?p1 ?p2] by simp
  moreover have "length (fst (xor s ?p1)) = length c1" using len by (simp add: xor_length)
  ultimately have c: "fst (xor s ?p1) = c1" "fst (xor (snd (xor s ?p1)) ?p2) = c2" by auto
  then show "fst (xor s c1) = ?p1" using xor_xor by metis
  have "snd (xor s c1) = snd (xor s ?p1)" using len by (intro xor_state) simp
  then show "fst (xor (snd (xor s c1)) ?p2) = c2" using c by simp
qed

end

lemma of_char_less_256: "(of_char c :: int) < 256"
proof -
  have "(of_char c :: nat) < 256" by simp
  then have "int (of_char c) < 256" by linarith
  then show ?thesis unfolding of_nat_of_char .
qed

lemma xor_byte_cancel [simp]: "xor_byte (xor_byte a b) b = a"
proof -
  have lt: "(of_char a :: int) XOR of_char b < 256" and ge: "0 \<le> (of_char a :: int) XOR of_char b" for a b :: char
    using XOR_upper [of "of_char a" 8 "of_char b"] of_char_less_256 by simp_all
  have "of_char (char_of ((of_char a :: int) XOR of_char b) :: char) = ((of_char a :: int) XOR of_char b)"
    using lt ge by simp
  then show ?thesis by (simp add: xor_byte_def xor.assoc)
qed

interpretation ctr: stream_cipher XORKeyStream
proof
  fix s :: cipher_stream and p q :: bytes
  show "length (fst (XORKeyStream s p)) = length p" by (simp add: XORKeyStream_def)
  show "fst (XORKeyStream s (fst (XORKeyStream s p))) = p"
    by (auto simp: XORKeyStream_def intro!: nth_equalityI)
  show "snd (XORKeyStream s p) = snd (XORKeyStream s q)" if "length p = length q"
    using that by (simp add: XORKeyStream_def)
  show "XORKeyStream s (p @ q) = (fst (XORKeyStream s p) @ fst (XORKeyStream (snd (XORKeyStream s p)) q),
      snd (XORKeyStream (snd (XORKeyStream s p)) q))"
    by (rule prod_eqI) (auto simp: XORKeyStream_def nth_append add.assoc intro!: nth_equalityI)
qed

text \<open>FIPS 197, appendix C.3.\<close>

lemma aes256_fips197:
  "aes_encrypt
     [0x00,0x01,0x02,0x03,0x04,0x05,0x06,0x07,0x08,0x09,0x0a,0x0b,0x0c,0x0d,0x0e,0x0f,
      0x10,0x11,0x12,0x13,0x14,0x15,0x16,0x17,0x18,0x19,0x1a,0x1b,0x1c,0x1d,0x1e,0x1f]
     [0x00,0x11,0x22,0x33,0x44,0x55,0x66,0x77,0x88,0x99,0xaa,0xbb,0xcc,0xdd,0xee,0xff]
   = [0x8e,0xa2,0xb7,0xca,0x51,0x67,0x45,0xbf,0xea,0xfc,0x49,0x90,0x4b,0x49,0x60,0x89]"
  by code_simp

end
