(* ===== verification/Obfs.thy ===== *)
theory Obfs
  imports Transport GoAes StaticSite
begin

text \<open>
  The obfuscation layer of \<open>src/proxy/obfs.go\<close>: a wrapper around a connection that runs a
  key-establishing handshake on the first read or write and then XORs both directions with
  independent AES-CTR key streams. X25519 is a parameter (\<open>curve\<close>), as are the random numbers
  (\<open>rng\<close>); SHA-256 and AES are the executable functions of the library theories.
\<close>

section \<open>Configuration\<close>

definition obfsEnabled :: "environ \<Rightarrow> bool" where
  "obfsEnabled env \<longleftrightarrow>
     ToLower (TrimSpace (env ''OBFS_ENABLED'')) \<notin> {''false'', ''0'', ''no'', ''off''}"

definition obfsPSK :: "environ \<Rightarrow> string" where
  "obfsPSK env = env ''OBFS_KEY''"

definition obfsSeedLen :: nat where
  "obfsSeedLen = 16"

section \<open>The connection\<close>

text \<open>
  \<open>oc_once\<close> tells whether the handshake has run (\<open>sync.Once\<close>); nil streams are \<open>None\<close>.
\<close>

record obfConn =
  oc_Conn :: conn
  oc_server :: bool
  oc_psk :: string
  oc_r :: "cipher_stream option"
  oc_w :: "cipher_stream option"
  oc_once :: bool
  oc_hsErr :: "io_error option"

definition newObfConn :: "conn \<Rightarrow> bool \<Rightarrow> string \<Rightarrow> obfConn" where
  "newObfConn c server psk = \<lparr>oc_Conn = c, oc_server = server, oc_psk = psk, oc_r = None, oc_w = None,
     oc_once = False, oc_hsErr = None\<rparr>"

text \<open>
  The randomness of one connection: the bytes \<open>rand.Read\<close> delivers and the private key
  \<open>GenerateKey\<close> makes of it. X25519: public keys, which encodings are accepted, shared secrets.
\<close>

record rng =
  rand_Read :: "nat \<Rightarrow> bytes io"
  rand_Key :: "bytes io"

record curve =
  PublicKey :: "bytes \<Rightarrow> bytes"
  NewPublicKey :: "bytes \<Rightarrow> io_error option"
  ECDH :: "bytes \<Rightarrow> bytes \<Rightarrow> bytes io"

section \<open>Handshake\<close>

definition handshakePSK :: "rng \<Rightarrow> obfConn \<Rightarrow> bytes io \<times> obfConn" where
  "handshakePSK g oc =
     (let base = sha256 (oc_psk oc) in
      if oc_server oc then
        (case ReadFull obfsSeedLen (oc_Conn oc) of
           (Inl e, c) \<Rightarrow> (Inl e, oc\<lparr>oc_Conn := c\<rparr>)
         | (Inr seed, c) \<Rightarrow> (Inr (base @ seed), oc\<lparr>oc_Conn := c\<rparr>))
      else
        (case rand_Read g obfsSeedLen of
           Inl e \<Rightarrow> (Inl e, oc)
         | Inr seed \<Rightarrow>
             (case conn_Write seed (oc_Conn oc) of
                (Inl (n, e), c) \<Rightarrow> (Inl e, oc\<lparr>oc_Conn := c\<rparr>)
              | (Inr _, c) \<Rightarrow> (Inr (base @ seed), oc\<lparr>oc_Conn := c\<rparr>))))"

text \<open>The goroutine's write is placed before the read; its error is looked at afterwards.\<close>

definition handshakeECDH :: "curve \<Rightarrow> rng \<Rightarrow> obfConn \<Rightarrow> bytes io \<times> obfConn" where
  "handshakeECDH X g oc =
     (case rand_Key g of
        Inl e \<Rightarrow> (Inl e, oc)
      | Inr priv \<Rightarrow>
          (let pub = PublicKey X priv in
           case conn_Write pub (oc_Conn oc) of (werr, c1) \<Rightarrow>
           (case ReadFull (length pub) c1 of
              (Inl e, c) \<Rightarrow> (Inl e, oc\<lparr>oc_Conn := c\<rparr>)
            | (Inr peer, c) \<Rightarrow>
                (case werr of
                   Inl (n, e) \<Rightarrow> (Inl e, oc\<lparr>oc_Conn := c\<rparr>)
                 | Inr _ \<Rightarrow>
                     (case NewPublicKey X peer of
                        Some e \<Rightarrow> (Inl e, oc\<lparr>oc_Conn := c\<rparr>)
                      | None \<Rightarrow> (ECDH X priv peer, oc\<lparr>oc_Conn := c\<rparr>))))))"

definition NewCTR :: "bytes \<Rightarrow> bytes \<Rightarrow> cipher_stream" where
  "NewCTR key iv = \<lparr>cs_key = key, cs_iv = iv, cs_pos = 0\<rparr>"

definition obfStreams :: "bytes \<Rightarrow> (cipher_stream \<times> cipher_stream) io" where
  "obfStreams keymat =
     (let keyH = sha256 (keymat @ ''key'') in
      if \<not> aes_key_ok keyH then Inl (IOError ''crypto/aes: invalid key size'')
      else let ivUp = sha256 (keymat @ ''up''); ivDown = sha256 (keymat @ ''down'')
           in Inr (NewCTR keyH (take 16 ivUp), NewCTR keyH (take 16 ivDown)))"

definition doHandshake :: "curve \<Rightarrow> rng \<Rightarrow> obfConn \<Rightarrow> io_error option \<times> obfConn" where
  "doHandshake X g oc =
     (case (if oc_psk oc \<noteq> [] then handshakePSK g oc else handshakeECDH X g oc) of
        (Inl e, oc') \<Rightarrow> (Some e, oc')
      | (Inr secret, oc') \<Rightarrow>
          (case obfStreams (sha256 secret) of
             Inl e \<Rightarrow> (Some e, oc')
           | Inr (up, down) \<Rightarrow>
               if oc_server oc then (None, oc'\<lparr>oc_r := Some up, oc_w := Some down\<rparr>)
               else (None, oc'\<lparr>oc_r := Some down, oc_w := Some up\<rparr>)))"

definition handshake :: "curve \<Rightarrow> rng \<Rightarrow> obfConn \<Rightarrow> io_error option \<times> obfConn" where
  "handshake X g oc =
     (if oc_once oc then (oc_hsErr oc, oc)
      else case doHandshake X g oc of (e, oc') \<Rightarrow> (e, oc'\<lparr>oc_once := True, oc_hsErr := e\<rparr>))"

section \<open>Reading and writing\<close>

definition obf_Read :: "curve \<Rightarrow> rng \<Rightarrow> nat \<Rightarrow> obfConn \<Rightarrow> (bytes io \<times> obfConn) res" where
  "obf_Read X g n oc =
     (case handshake X g oc of
        (Some e, oc') \<Rightarrow> Returns (Inl e, oc')
      | (None, oc') \<Rightarrow>
          (case conn_Read n (oc_Conn oc') of
             (Inl e, c) \<Rightarrow> Returns (Inl e, oc'\<lparr>oc_Conn := c\<rparr>)
           | (Inr b, c) \<Rightarrow>
               if b = [] then Returns (Inr b, oc'\<lparr>oc_Conn := c\<rparr>)
               else (case oc_r oc' of
                       None \<Rightarrow> Panics
                     | Some s \<Rightarrow> (case XORKeyStream s b of (p, s') \<Rightarrow>
                         Returns (Inr p, oc'\<lparr>oc_Conn := c, oc_r := Some s'\<rparr>)))))"

definition obf_Write :: "curve \<Rightarrow> rng \<Rightarrow> bytes \<Rightarrow> obfConn \<Rightarrow> (write_result \<times> obfConn) res" where
  "obf_Write X g p oc =
     (case handshake X g oc of
        (Some e, oc') \<Rightarrow> Returns (Inl (0, e), oc')
      | (None, oc') \<Rightarrow>
          (case oc_w oc' of
             None \<Rightarrow> Panics
           | Some s \<Rightarrow> (case XORKeyStream s p of (buf, s') \<Rightarrow>
               (case conn_Write buf (oc_Conn oc') of (e, c) \<Rightarrow>
                  Returns (e, oc'\<lparr>oc_Conn := c, oc_w := Some s'\<rparr>)))))"

section \<open>Key lengths\<close>

lemma length_sha256_round: "length s = 8 \<Longrightarrow> length (sha256_round k w s) = 8"
  by (auto simp: sha256_round_def Let_def split: list.splits)

lemma length_sha256_steps: "length s = 8 \<Longrightarrow> length (sha256_steps ks ws s) = 8"
  by (induction ks ws s rule: sha256_steps.induct) (auto simp: length_sha256_round)

lemma length_sha256_fold: "length s = 8 \<Longrightarrow> length (foldl sha256_block s bs) = 8"
  by (induction bs arbitrary: s) (auto simp: sha256_block_def length_sha256_steps)

lemma length_sha256 [simp]: "length (sha256 m) = 32"
proof -
  have "length (foldl sha256_block sha256_init (chunks 64 (sha_pad m))) = 8"
    by (rule length_sha256_fold) (simp add: sha256_init_def)
  moreover have "length (concat (map put32 ws)) = 4 * length ws" for ws by (induction ws) auto
  ultimately show ?thesis unfolding sha256_def by simp
qed

lemma obfStreams_total: "\<exists>up down. obfStreams keymat = Inr (up, down)"
  by (simp add: obfStreams_def Let_def aes_key_ok_def)

section \<open>Panic freedom\<close>

definition obf_inv :: "obfConn \<Rightarrow> bool" where
  "obf_inv oc \<longleftrightarrow> (oc_once oc \<and> oc_hsErr oc = None \<longrightarrow> oc_r oc \<noteq> None \<and> oc_w oc \<noteq> None)"

lemma obf_inv_newObfConn [simp, intro]: "obf_inv (newObfConn c server psk)"
  by (simp add: obf_inv_def newObfConn_def)

lemma doHandshake_streams: "doHandshake X g oc = (None, oc') \<Longrightarrow> oc_r oc' \<noteq> None \<and> oc_w oc' \<noteq> None"
  by (auto simp: doHandshake_def split: prod.splits sum.splits if_splits)

lemma handshake_inv:
  assumes "obf_inv oc" and "handshake X g oc = (e, oc')"
  shows "obf_inv oc'" and "e = None \<Longrightarrow> oc_r oc' \<noteq> None \<and> oc_w oc' \<noteq> None"
    and "oc_once oc' \<and> oc_hsErr oc' = e"
  using assms by (auto simp: handshake_def obf_inv_def split: if_splits prod.splits dest: doHandshake_streams)

lemma handshake_again: "handshake X g oc = (e, oc') \<Longrightarrow> handshake X g' oc' = (e, oc')"
  by (auto simp: handshake_def split: if_splits prod.splits)

lemma obf_Read_returns:
  assumes "obf_inv oc"
  shows "\<exists>r oc'. obf_Read X g n oc = Returns (r, oc') \<and> obf_inv oc'"
proof -
  obtain e oc1 where h: "handshake X g oc = (e, oc1)" by fastforce
  note inv = handshake_inv [OF assms h]
  obtain r c where "conn_Read n (oc_Conn oc1) = (r, c)" by fastforce
  with h inv show ?thesis
    by (cases e; cases r) (auto simp: obf_Read_def obf_inv_def split: prod.splits)
qed

lemma obf_Write_returns:
  assumes "obf_inv oc"
  shows "\<exists>r oc'. obf_Write X g p oc = Returns (r, oc') \<and> obf_inv oc'"
proof -
  obtain e oc1 where h: "handshake X g oc = (e, oc1)" by fastforce
  from handshake_inv [OF assms h] h show ?thesis
    by (cases e) (auto simp: obf_Write_def obf_inv_def split: prod.splits)
qed

text \<open>Any sequence of operations on a connection, in any order.\<close>

datatype obf_op = OpRead nat | OpWrite bytes

primrec obf_run :: "curve \<Rightarrow> rng \<Rightarrow> obf_op list \<Rightarrow> obfConn \<Rightarrow> (bytes io list \<times> obfConn) res" where
  "obf_run X g [] oc = Returns ([], oc)"
| "obf_run X g (a # as) oc =
     bind_res (case a of
         OpRead n \<Rightarrow> obf_Read X g n oc
       | OpWrite p \<Rightarrow> bind_res (obf_Write X g p oc) (\<lambda>(r, oc'). Returns (map_sum snd (\<lambda>_. []) r, oc')))
       (\<lambda>(r, oc'). bind_res (obf_run X g as oc') (\<lambda>(rs, oc''). Returns (r # rs, oc'')))"

lemma obf_run_inv: "obf_inv oc \<Longrightarrow> \<exists>rs oc'. obf_run X g as oc = Returns (rs, oc') \<and> obf_inv oc'"
proof (induction as arbitrary: oc)
  case (Cons a as)
  let ?first = "case a of OpRead n \<Rightarrow> obf_Read X g n oc
      | OpWrite p \<Rightarrow> bind_res (obf_Write X g p oc) (\<lambda>(r, oc'). Returns (map_sum snd (\<lambda>_. []) r, oc'))"
  have "\<exists>r oc1. ?first = Returns (r, oc1) \<and> obf_inv oc1"
  proof (cases a)
    case (OpRead n)
    then show ?thesis using obf_Read_returns [OF Cons.prems, of X g n] by simp
  next
    case (OpWrite p)
    then show ?thesis using obf_Write_returns [OF Cons.prems, of X g p] by auto
  qed
  then obtain r oc1 where "?first = Returns (r, oc1)" "obf_inv oc1" by blast
  with Cons.IH [of oc1] show ?case by auto
qed simp

lemma obf_run_failed:
  "oc_once oc \<Longrightarrow> oc_hsErr oc = Some e \<Longrightarrow> obf_run X g as oc = Returns (map (\<lambda>_. Inl e) as, oc)"
  by (induction as) (auto simp: obf_Read_def obf_Write_def handshake_def split: obf_op.splits)

text \<open>
  C33. No sequence of reads and writes on a wrapped connection panics, whatever the peer sends
  and wherever the connection breaks; and when the handshake fails, every operation from then on
  reports that same error without touching the connection.
\<close>

theorem obfConn_robust:
  "(\<exists>rs oc'. obf_run X g as (newObfConn c server psk) = Returns (rs, oc')) \<and>
   (handshake X g oc = (Some e, oc') \<longrightarrow> obf_run X g as oc' = Returns (map (\<lambda>_. Inl e) as, oc'))"
proof (intro conjI impI)
  show "\<exists>rs oc'. obf_run X g as (newObfConn c server psk) = Returns (rs, oc')"
    using obf_run_inv [OF obf_inv_newObfConn] by blast
  show "obf_run X g as oc' = Returns (map (\<lambda>_. Inl e) as, oc')" if "handshake X g oc = (Some e, oc')"
  proof (rule obf_run_failed)
    show "oc_once oc'" "oc_hsErr oc' = Some e"
      using that by (auto simp: handshake_def split: if_splits prod.splits)
  qed
qed

definition dead_conn :: conn where
  "dead_conn = \<lparr>rx = [''abc''], rx_end = EOF, tx = [], tx_error = None\<rparr>"

theorem obfConn_robust_witness:
  "\<forall>X g. \<exists>oc'. handshake X g (newObfConn dead_conn True ''k'') = (Some UnexpectedEOF, oc') \<and>
     obf_run X g [OpRead 5, OpWrite ''x''] oc' = Returns ([Inl UnexpectedEOF, Inl UnexpectedEOF], oc')"
proof (intro allI)
  fix X g
  have "length (concat (rx dead_conn)) < obfsSeedLen" by (simp add: dead_conn_def obfsSeedLen_def)
  from ReadFull_short [OF this] obtain c' where "ReadFull obfsSeedLen dead_conn = (Inl UnexpectedEOF, c')"
    by (auto simp: dead_conn_def)
  then obtain oc' where h: "handshake X g (newObfConn dead_conn True ''k'') = (Some UnexpectedEOF, oc')"
    by (simp add: handshake_def newObfConn_def doHandshake_def handshakePSK_def)
  from obfConn_robust [of X g "[OpRead 5, OpWrite ''x'']" dead_conn True "''k''" "newObfConn dead_conn True ''k''" UnexpectedEOF oc'] h
  show "\<exists>oc'. handshake X g (newObfConn dead_conn True ''k'') = (Some UnexpectedEOF, oc') \<and>
     obf_run X g [OpRead 5, OpWrite ''x''] oc' = Returns ([Inl UnexpectedEOF, Inl UnexpectedEOF], oc')" by simp
qed

section \<open>Transfer\<close>

primrec obf_writes :: "curve \<Rightarrow> rng \<Rightarrow> bytes list \<Rightarrow> obfConn \<Rightarrow> obfConn res" where
  "obf_writes X g [] oc = Returns oc"
| "obf_writes X g (p # ps) oc = bind_res (obf_Write X g p oc) (\<lambda>(_, oc'). obf_writes X g ps oc')"

primrec obf_reads :: "curve \<Rightarrow> rng \<Rightarrow> nat list \<Rightarrow> obfConn \<Rightarrow> (bytes \<times> obfConn) res" where
  "obf_reads X g [] oc = Returns ([], oc)"
| "obf_reads X g (n # ns) oc =
     bind_res (obf_Read X g n oc) (\<lambda>(r, oc').
       case r of
         Inl e \<Rightarrow> Returns ([], oc')
       | Inr b \<Rightarrow> bind_res (obf_reads X g ns oc') (\<lambda>(bs, oc''). Returns (b @ bs, oc'')))"

abbreviation ready :: "obfConn \<Rightarrow> bool" where
  "ready oc \<equiv> oc_once oc \<and> oc_hsErr oc = None"

lemma obf_writes_ready:
  assumes "ready oc" and "oc_w oc = Some s" and "tx_error (oc_Conn oc) = None"
  shows "\<exists>oc'. obf_writes X g ps oc = Returns oc' \<and>
     concat (tx (oc_Conn oc')) = concat (tx (oc_Conn oc)) @ fst (XORKeyStream s (concat ps))"
  using assms
proof (induction ps arbitrary: oc s)
  case Nil
  then show ?case by (simp add: ctr.xor_Nil)
next
  case (Cons p ps)
  let ?oc = "oc\<lparr>oc_Conn := (oc_Conn oc)\<lparr>tx := tx (oc_Conn oc) @ [fst (XORKeyStream s p)]\<rparr>,
      oc_w := Some (snd (XORKeyStream s p))\<rparr>"
  have "obf_Write X g p oc = Returns (Inr (), ?oc)"
    using Cons.prems by (simp add: obf_Write_def handshake_def conn_Write_open split_beta)
  with Cons.IH [of ?oc "snd (XORKeyStream s p)"] Cons.prems show ?case
    by (auto simp: ctr.xor_append [of s p])
qed

lemma obf_reads_ready:
  assumes "ready oc" and "oc_r oc = Some s" and "concat (rx (oc_Conn oc)) = fst (XORKeyStream s plain)"
  shows "\<exists>bs rest oc'. obf_reads X g ns oc = Returns (bs, oc') \<and> plain = bs @ rest \<and>
     length rest = length (concat (rx (oc_Conn oc')))"
  using assms
proof (induction ns arbitrary: oc s plain)
  case Nil
  then show ?case by (auto simp: ctr.xor_length)
next
  case (Cons n ns)
  show ?case
  proof (cases rule: conn_Read_cases [of "oc_Conn oc" n])
    case eof
    with Cons.prems have "obf_reads X g (n # ns) oc = Returns ([], oc)"
      by (simp add: obf_Read_def handshake_def)
    with Cons.prems show ?thesis by (auto simp: ctr.xor_length)
  next
    case (data b c')
    let ?s = "snd (XORKeyStream s b)" and ?p = "drop (length b) plain"
    let ?oc = "oc\<lparr>oc_Conn := c', oc_r := if b = [] then Some s else Some ?s\<rparr>"
    have split: "fst (XORKeyStream s plain) = b @ concat (rx c')" using data Cons.prems by simp
    note pre = ctr.decrypt_prefix [OF split]
    have pos: "?s = s" if "b = []" using that by (simp add: XORKeyStream_def)
    have read: "obf_Read X g n oc = Returns (Inr (take (length b) plain), ?oc)"
      using data Cons.prems pre(1) by (auto simp: obf_Read_def handshake_def split_beta)
    have "ready ?oc" "oc_r ?oc = Some ?s" "concat (rx (oc_Conn ?oc)) = fst (XORKeyStream ?s ?p)"
      using Cons.prems(1) pos pre(2) by simp_all
    from Cons.IH [OF this] obtain bs rest oc' where IH:
      "obf_reads X g ns ?oc = Returns (bs, oc')" "?p = bs @ rest" "length rest = length (concat (rx (oc_Conn oc')))"
      by blast
    then have "plain = (take (length b) plain @ bs) @ rest" by (metis append.assoc append_take_drop_id)
    with IH read show ?thesis by auto
  qed
qed

section \<open>Agreement\<close>

text \<open>Two ends whose streams are mirror images: what one encrypts with, the other decrypts with.\<close>

definition mirrored :: "obfConn \<Rightarrow> obfConn \<Rightarrow> bool" where
  "mirrored a b \<longleftrightarrow> ready a \<and> ready b \<and> oc_w a \<noteq> None \<and> oc_r a \<noteq> None \<and> oc_w a = oc_r b \<and> oc_r a = oc_w b"

lemma mirrored_sym: "mirrored a b \<Longrightarrow> mirrored b a"
  by (auto simp: mirrored_def)

lemma handshake_psk_client:
  assumes "psk \<noteq> []" and "rand_Read g obfsSeedLen = Inr seed" and "tx_error c = None"
    and "obfStreams (sha256 (sha256 psk @ seed)) = Inr (up, down)"
  shows "\<exists>oc'. handshake X g (newObfConn c False psk) = (None, oc') \<and> ready oc' \<and> oc_w oc' = Some up \<and>
     oc_r oc' = Some down \<and> oc_Conn oc' = c\<lparr>tx := tx c @ [seed]\<rparr>"
  using assms by (simp add: handshake_def newObfConn_def doHandshake_def handshakePSK_def conn_Write_open)

lemma handshake_psk_server:
  assumes "psk \<noteq> []" and "length seed = obfsSeedLen" and "concat (rx c) = seed @ rest"
    and "obfStreams (sha256 (sha256 psk @ seed)) = Inr (up, down)"
  shows "\<exists>oc'. handshake X g (newObfConn c True psk) = (None, oc') \<and> ready oc' \<and> oc_w oc' = Some down \<and>
     oc_r oc' = Some up \<and> concat (rx (oc_Conn oc')) = rest \<and> tx (oc_Conn oc') = tx c \<and>
     tx_error (oc_Conn oc') = tx_error c"
proof -
  obtain c' where "ReadFull obfsSeedLen c = (Inr seed, c')" "concat (rx c') = rest" "tx c' = tx c" "tx_error c' = tx_error c"
    using ReadFull_ok [of obfsSeedLen c] assms by auto
  with assms show ?thesis
    by (simp add: handshake_def newObfConn_def doHandshake_def handshakePSK_def)
qed

lemma handshake_ecdh_end:
  assumes "rand_Key g = Inr priv" and "tx_error c = None"
    and "concat (rx c) = peer @ rest" and "length peer = length (PublicKey X priv)"
    and "NewPublicKey X peer = None" and "ECDH X priv peer = Inr secret"
    and "obfStreams (sha256 secret) = Inr (up, down)"
  shows "\<exists>oc'. handshake X g (newObfConn c server []) = (None, oc') \<and> ready oc' \<and>
     oc_w oc' = Some (if server then down else up) \<and> oc_r oc' = Some (if server then up else down) \<and>
     concat (rx (oc_Conn oc')) = rest \<and> tx (oc_Conn oc') = tx c @ [PublicKey X priv] \<and>
     tx_error (oc_Conn oc') = None"
proof -
  let ?c = "c\<lparr>tx := tx c @ [PublicKey X priv]\<rparr>"
  obtain c' where "ReadFull (length (PublicKey X priv)) ?c = (Inr peer, c')" "concat (rx c') = rest"
    "tx c' = tx ?c" "tx_error c' = None"
    using ReadFull_ok [of "length (PublicKey X priv)" ?c] assms(2-4) by auto
  with assms show ?thesis
    by (simp add: handshake_def newObfConn_def doHandshake_def handshakeECDH_def conn_Write_open)
qed

lemma obf_writes_handshake:
  "handshake X g oc = (None, oc') \<Longrightarrow> obf_writes X g (p # ps) oc = obf_writes X g (p # ps) oc'"
  using handshake_again [of X g oc None oc' g] by (simp add: obf_Write_def)

lemma obf_reads_handshake:
  "handshake X g oc = (None, oc') \<Longrightarrow> obf_reads X g (n # ns) oc = obf_reads X g (n # ns) oc'"
  using handshake_again [of X g oc None oc' g] by (simp add: obf_Read_def)

end
