(* ===== verification/Relay.thy ===== *)
theory Relay
  imports Limits Obfs "HOL-Library.Sublist"
begin

text \<open>
  The relay between a websocket and a target (the two goroutines at the end of \<open>handleWss\<close> in
  \<open>src/proxy/main.go\<close>, and those of \<open>handleMuxStream\<close> in \<open>src/proxy/mux.go\<close>). Each direction is an
  \<open>io.Copy\<close>; one turn of a direction is one iteration of its loop, a read followed by a write. The
  two run concurrently: a schedule says whose turn it is, and the theorems hold for every schedule.
\<close>

section \<open>Transport\<close>

text \<open>The transport of a connection: the websocket itself or the obfuscation layer around it.\<close>

datatype transport = Plain conn | Wrapped obfConn

definition tr_Read :: "curve \<Rightarrow> rng \<Rightarrow> nat \<Rightarrow> transport \<Rightarrow> (bytes io \<times> transport) res" where
  "tr_Read X g n t =
     (case t of
        Plain c \<Rightarrow> (case conn_Read n c of (r, c') \<Rightarrow> Returns (r, Plain c'))
      | Wrapped oc \<Rightarrow> bind_res (obf_Read X g n oc) (\<lambda>(r, oc'). Returns (r, Wrapped oc')))"

definition tr_Write :: "curve \<Rightarrow> rng \<Rightarrow> bytes \<Rightarrow> transport \<Rightarrow> (write_result \<times> transport) res" where
  "tr_Write X g p t =
     (case t of
        Plain c \<Rightarrow> (case conn_Write p c of (r, c') \<Rightarrow> Returns (r, Plain c'))
      | Wrapped oc \<Rightarrow> bind_res (obf_Write X g p oc) (\<lambda>(r, oc'). Returns (r, Wrapped oc')))"

definition tr_conn :: "transport \<Rightarrow> conn" where
  "tr_conn t = (case t of Plain c \<Rightarrow> c | Wrapped oc \<Rightarrow> oc_Conn oc)"

text \<open>\<open>Close\<close>: reads and writes that follow fail.\<close>

definition closed_error :: io_error where
  "closed_error = IOError ''use of closed network connection''"

definition conn_Close :: "conn \<Rightarrow> conn" where
  "conn_Close c = c\<lparr>rx := [], rx_end := closed_error, tx_error := Some (0, closed_error)\<rparr>"

definition tr_Close :: "transport \<Rightarrow> transport" where
  "tr_Close t = (case t of Plain c \<Rightarrow> Plain (conn_Close c) | Wrapped oc \<Rightarrow> Wrapped (oc\<lparr>oc_Conn := conn_Close (oc_Conn oc)\<rparr>))"

section \<open>Copying\<close>

text \<open>
  A copy is under way, having moved so many bytes, or over, with the number of bytes and the error
  \<open>io.Copy\<close> returns (the end of the stream is none).
\<close>

datatype copying = Copying int | Copied int "io_error option"

primrec moved :: "copying \<Rightarrow> int" where
  "moved (Copying n) = n"
| "moved (Copied n e) = n"

primrec copy_error :: "copying \<Rightarrow> io_error option" where
  "copy_error (Copying n) = None"
| "copy_error (Copied n e) = e"

primrec finished :: "copying \<Rightarrow> bool" where
  "finished (Copying n) = False"
| "finished (Copied n e) = True"

text \<open>
  One iteration of \<open>io.Copy\<close> with its buffer of 32 KiB, on a state that holds both ends; \<open>fin\<close> is
  what the goroutine does when the copy returns. The bytes a failing write delivered are counted.
\<close>

definition copy_step ::
  "(nat \<Rightarrow> 's \<Rightarrow> (bytes io \<times> 's) res) \<Rightarrow> (bytes \<Rightarrow> 's \<Rightarrow> (write_result \<times> 's) res) \<Rightarrow> ('s \<Rightarrow> 's) \<Rightarrow>
   copying \<Rightarrow> 's \<Rightarrow> (copying \<times> 's) res" where
  "copy_step rd wr fin c s =
     (case c of
        Copied n e \<Rightarrow> Returns (c, s)
      | Copying n \<Rightarrow>
          bind_res (rd 32768 s) (\<lambda>(r, s1).
            case r of
              Inl e \<Rightarrow> Returns (Copied n (if e = EOF then None else Some e), fin s1)
            | Inr b \<Rightarrow>
                if b = [] then Returns (c, s1)
                else bind_res (wr b s1) (\<lambda>(w, s2).
                  case w of
                    Inl (k, e) \<Rightarrow> Returns (Copied (n + int k) (Some e), fin s2)
                  | Inr _ \<Rightarrow> Returns (Copying (n + int (length b)), s2))))"

text \<open>
  The two copies of a relay: \<open>True\<close> in the schedule is a turn of the upward copy. The run ends
  early when \<open>stop\<close> holds of the two copies.
\<close>

primrec copy_pair ::
  "(copying \<Rightarrow> 's \<Rightarrow> (copying \<times> 's) res) \<Rightarrow> (copying \<Rightarrow> 's \<Rightarrow> (copying \<times> 's) res) \<Rightarrow> (copying \<Rightarrow> copying \<Rightarrow> bool) \<Rightarrow>
   bool list \<Rightarrow> copying \<Rightarrow> copying \<Rightarrow> 's \<Rightarrow> (copying \<times> copying \<times> 's) res" where
  "copy_pair up down stop [] u d s = Returns (u, d, s)"
| "copy_pair up down stop (t # ts) u d s =
     (if stop u d then Returns (u, d, s)
      else if t then bind_res (up u s) (\<lambda>(u', s'). copy_pair up down stop ts u' d s')
      else bind_res (down d s) (\<lambda>(d', s'). copy_pair up down stop ts u d' s'))"

section \<open>The relay of a websocket\<close>

text \<open>
  Both ends of the connection, the limiter they share, the two limited writers and the traffic
  counters.
\<close>

record 'l relay_state =
  rl_target :: conn
  rl_tr :: transport
  rl_limiter :: 'l
  rl_cw :: limitedWriter
  rl_wsw :: limitedWriter
  rl_up :: int
  rl_down :: int

definition up_Read :: "curve \<Rightarrow> rng \<Rightarrow> nat \<Rightarrow> 'l relay_state \<Rightarrow> (bytes io \<times> 'l relay_state) res" where
  "up_Read X g n s = bind_res (tr_Read X g n (rl_tr s)) (\<lambda>(r, t). Returns (r, s\<lparr>rl_tr := t\<rparr>))"

definition up_Write ::
  "('f, 'l) ratelib \<Rightarrow> 'f bandwidth \<Rightarrow> bytes \<Rightarrow> 'l relay_state \<Rightarrow> (write_result \<times> 'l relay_state) res" where
  "up_Write R bw b s =
     bind_res (meteredWriter_Write R bw conn_writer b (rl_up s) (rl_limiter s) (rl_cw s) (rl_target s))
       (\<lambda>(r, n, l, w, c). Returns (r, s\<lparr>rl_up := n, rl_limiter := l, rl_cw := w, rl_target := c\<rparr>))"

definition up_Done :: "'l relay_state \<Rightarrow> 'l relay_state" where
  "up_Done s = s\<lparr>rl_target := conn_Close (rl_target s)\<rparr>"

definition down_Read :: "nat \<Rightarrow> 'l relay_state \<Rightarrow> (bytes io \<times> 'l relay_state) res" where
  "down_Read n s = (case conn_Read n (rl_target s) of (r, c) \<Rightarrow> Returns (r, s\<lparr>rl_target := c\<rparr>))"

definition down_Write ::
  "('f, 'l) ratelib \<Rightarrow> 'f bandwidth \<Rightarrow> curve \<Rightarrow> rng \<Rightarrow> bytes \<Rightarrow> 'l relay_state \<Rightarrow> (write_result \<times> 'l relay_state) res" where
  "down_Write R bw X g b s =
     bind_res (meteredWriter_Write R bw (tr_Write X g) b (rl_down s) (rl_limiter s) (rl_wsw s) (rl_tr s))
       (\<lambda>(r, n, l, w, t). Returns (r, s\<lparr>rl_down := n, rl_limiter := l, rl_wsw := w, rl_tr := t\<rparr>))"

definition down_Done :: "'l relay_state \<Rightarrow> 'l relay_state" where
  "down_Done s = s\<lparr>rl_tr := tr_Close (rl_tr s)\<rparr>"

text \<open>
  The handler waits for both copies. After the given schedule each copy gets as many turns as it can
  need, so that every schedule is completed to one in which both end.
\<close>

definition run_relay ::
  "('f, 'l) ratelib \<Rightarrow> 'f bandwidth \<Rightarrow> curve \<Rightarrow> rng \<Rightarrow> bool list \<Rightarrow> 'l relay_state \<Rightarrow> (copying \<times> copying \<times> 'l relay_state) res" where
  "run_relay R bw X g sched s =
     copy_pair (copy_step (up_Read X g) (up_Write R bw) up_Done) (copy_step down_Read (down_Write R bw X g) down_Done)
       (\<lambda>u d. finished u \<and> finished d)
       (sched @ replicate (rx_size (tr_conn (rl_tr s)) + 1) True @ replicate (rx_size (rl_target s) + 1) False)
       (Copying 0) (Copying 0) s"

section \<open>One direction\<close>

lemma count_list_replicate [simp]: "count_list (replicate n x) y = (if x = y then n else 0)"
  by (induction n) auto

lemma copy_step_rel:
  assumes "\<And>s. P s s" and trans: "\<And>s1 s2 s3. P s1 s2 \<Longrightarrow> P s2 s3 \<Longrightarrow> P s1 s3"
    and rd: "\<And>s r s'. ok s \<Longrightarrow> rd 32768 s = Returns (r, s') \<Longrightarrow> ok s' \<and> P s s'"
    and wr: "\<And>b s r s'. ok s \<Longrightarrow> wr b s = Returns (r, s') \<Longrightarrow> ok s' \<and> P s s'"
    and fin: "\<And>s. ok s \<Longrightarrow> P s (fin s)"
    and s: "ok s" "copy_step rd wr fin c s = Returns (c', s')"
  shows "P s s'"
proof (cases c)
  case (Copying n)
  with s(2) obtain r s1 where r: "rd 32768 s = Returns (r, s1)" by (auto simp: copy_step_def bind_res_Returns_iff)
  note 1 = rd [OF s(1) r]
  show ?thesis
  proof (cases r)
    case (Inl e)
    with s(2) r Copying 1 fin trans show ?thesis by (auto simp: copy_step_def)
  next
    case (Inr b)
    show ?thesis
    proof (cases "b = []")
      case True
      with s(2) r Copying 1 Inr show ?thesis by (simp add: copy_step_def)
    next
      case False
      with s(2) r Copying Inr obtain w s2 where w: "wr b s1 = Returns (w, s2)" by (auto simp: copy_step_def bind_res_Returns_iff)
      with False s(2) r Copying Inr have "s' = s2 \<or> s' = fin s2" by (cases w) (auto simp: copy_step_def)
      moreover have "ok s2" "P s s2" using wr [OF _ w] 1 trans by blast+
      ultimately show ?thesis using fin [of s2] trans [of s s2 "fin s2"] by auto
    qed
  qed
qed (use assms(1) s(2) in \<open>simp add: copy_step_def\<close>)

text \<open>
  What a copy needs of its two ends: \<open>src\<close> are the bytes still to be read and \<open>serr\<close> the error that
  ends them, \<open>snk s d\<close> tells that exactly \<open>d\<close> has been delivered since the beginning, and \<open>load\<close>
  bounds the reads that can succeed.
\<close>

locale copy_side =
  fixes rd :: "nat \<Rightarrow> 's \<Rightarrow> (bytes io \<times> 's) res"
    and wr :: "bytes \<Rightarrow> 's \<Rightarrow> (write_result \<times> 's) res"
    and fin :: "'s \<Rightarrow> 's"
    and ok :: "'s \<Rightarrow> bool"
    and src :: "'s \<Rightarrow> bytes"
    and serr :: "'s \<Rightarrow> io_error"
    and snk :: "'s \<Rightarrow> bytes \<Rightarrow> bool"
    and load :: "'s \<Rightarrow> nat"
  assumes rd_law: "ok s \<Longrightarrow> 0 < n \<Longrightarrow> \<exists>r s'. rd n s = Returns (r, s') \<and> ok s' \<and> (\<forall>d. snk s d \<longrightarrow> snk s' d) \<and>
      (case r of Inl e \<Rightarrow> src s = [] \<and> e = serr s | Inr b \<Rightarrow> src s = b @ src s' \<and> serr s' = serr s \<and> load s' < load s)"
    and wr_law: "ok s \<Longrightarrow> \<exists>r s'. wr b s = Returns (r, s') \<and> ok s' \<and> src s' = src s \<and> serr s' = serr s \<and> load s' = load s \<and>
      length (sent_part r b) = written r b \<and> (\<forall>d. snk s d \<longrightarrow> snk s' (d @ sent_part r b))"
    and fin_law: "ok s \<Longrightarrow> ok (fin s) \<and> (\<forall>d. snk s d \<longrightarrow> snk (fin s) d)"
begin

text \<open>
  The invariant of a copy that began with the bytes \<open>all\<close> to be read: the delivered bytes are a
  prefix of them, counted exactly; what is missing is still to be read, unless the source was
  closed from the other side; and a copy that ended without an error has delivered everything.
\<close>

definition side_inv :: "bytes \<Rightarrow> copying \<Rightarrow> 's \<Rightarrow> bool" where
  "side_inv all c s \<longleftrightarrow> (\<exists>d. snk s d \<and> moved c = int (length d) \<and> prefix d all \<and>
     (if finished c then copy_error c = None \<longrightarrow> d = all
      else all = d @ src s \<or> src s = [] \<and> serr s \<noteq> EOF))"

lemma copy_step_Copying:
  assumes "ok s" and "snk s d" and "all = d @ src s \<or> src s = [] \<and> serr s \<noteq> EOF" and "prefix d all"
    and "n = int (length d)"
  shows "\<exists>c' s'. copy_step rd wr fin (Copying n) s = Returns (c', s') \<and> ok s' \<and> side_inv all c' s' \<and>
    (finished c' \<or> load s' < load s)"
proof -
  obtain r s1 where r: "rd 32768 s = Returns (r, s1)" "ok s1" "snk s1 d"
    "case r of Inl e \<Rightarrow> src s = [] \<and> e = serr s | Inr b \<Rightarrow> src s = b @ src s1 \<and> serr s1 = serr s \<and> load s1 < load s"
    using rd_law [OF assms(1), of 32768] assms(2) by auto
  show ?thesis
  proof (cases r)
    case (Inl e)
    then have "e = EOF \<Longrightarrow> d = all" using r(4) assms(3) by auto
    then have "side_inv all (Copied n (if e = EOF then None else Some e)) (fin s1)"
      unfolding side_inv_def using fin_law [OF r(2)] r(3) assms(4,5) by (intro exI [of _ d]) auto
    with Inl r(1) fin_law [OF r(2)] show ?thesis by (simp add: copy_step_def)
  next
    case (Inr b)
    obtain w s2 where w: "wr b s1 = Returns (w, s2)" "ok s2" "src s2 = src s1" "serr s2 = serr s1" "load s2 = load s1"
      "length (sent_part w b) = written w b" "snk s2 (d @ sent_part w b)"
      using wr_law [OF r(2), of b] r(3) by auto
    show ?thesis
    proof (cases "b = []")
      case True
      with Inr r assms(3-5) have "side_inv all (Copying n) s1"
        unfolding side_inv_def by (intro exI [of _ d]) auto
      with True Inr r show ?thesis by (simp add: copy_step_def)
    next
      case False
      with Inr r(4) assms(3) have all: "all = (d @ b) @ src s2" and l: "load s2 < load s"
        using w(3,5) by auto
      show ?thesis
      proof (cases w)
        case (Inl ke)
        obtain k e where ke: "ke = (k, e)" by fastforce
        have "prefix (d @ take k b) all"
          using all by (metis append.assoc append_take_drop_id prefixI)
        with w(6,7) assms(5) ke Inl have "side_inv all (Copied (n + int k) (Some e)) (fin s2)"
          unfolding side_inv_def using fin_law [OF w(2)]
          by (intro exI [of _ "d @ take k b"]) (simp add: sent_part_def written_def)
        with Inl ke Inr False r(1) w(1) fin_law [OF w(2)] show ?thesis by (simp add: copy_step_def)
      next
        case (Inr u)
        have "prefix (d @ b) all" using all by (simp add: prefix_def)
        with Inr w(7) assms(5) all have "side_inv all (Copying (n + int (length b))) s2"
          unfolding side_inv_def by (intro exI [of _ "d @ b"]) (auto simp: sent_part_def)
        with \<open>r = Inr b\<close> Inr False r(1) w(1,2) l show ?thesis by (simp add: copy_step_def)
      qed
    qed
  qed
qed

lemma copy_step_inv:
  assumes "ok s" and "side_inv all c s"
  shows "\<exists>c' s'. copy_step rd wr fin c s = Returns (c', s') \<and> ok s' \<and> side_inv all c' s' \<and>
    (finished c' \<or> load s' < load s)"
proof (cases c)
  case (Copying n)
  with assms(2) obtain d where "snk s d" "n = int (length d)" "prefix d all" "all = d @ src s \<or> src s = [] \<and> serr s \<noteq> EOF"
    by (auto simp: side_inv_def)
  with copy_step_Copying [OF assms(1)] Copying show ?thesis by blast
next
  case (Copied n e)
  with assms show ?thesis by (simp add: copy_step_def)
qed

lemma side_inv_start: "snk s [] \<Longrightarrow> side_inv (src s) (Copying 0) s"
  by (auto simp: side_inv_def)

text \<open>The other direction may change the state as long as it respects this side.\<close>

definition keeps :: "'s \<Rightarrow> 's \<Rightarrow> bool" where
  "keeps s s' \<longleftrightarrow> (\<forall>d. snk s d \<longrightarrow> snk s' d) \<and> load s' \<le> load s \<and>
     (src s' = src s \<and> serr s' = serr s \<or> src s' = [] \<and> serr s' \<noteq> EOF)"

lemma keeps_refl: "keeps s s"
  by (simp add: keeps_def)

lemma keeps_trans: "keeps s1 s2 \<Longrightarrow> keeps s2 s3 \<Longrightarrow> keeps s1 s3"
  by (auto simp: keeps_def)

lemma keeps_inv: "keeps s s' \<Longrightarrow> side_inv all c s \<Longrightarrow> side_inv all c s'"
  unfolding keeps_def side_inv_def by (elim exE) (rule_tac x = d in exI, auto split: if_splits)

end

section \<open>Two directions\<close>

locale relay_pair =
  up: copy_side rdU wrU finU ok srcU serrU snkU loadU + down: copy_side rdD wrD finD ok srcD serrD snkD loadD
  for rdU :: "nat \<Rightarrow> 's \<Rightarrow> (bytes io \<times> 's) res" and wrU finU ok srcU serrU snkU loadU
    and rdD wrD finD srcD serrD snkD loadD +
  assumes up_keeps: "ok s \<Longrightarrow> copy_step rdU wrU finU c s = Returns (c', s') \<Longrightarrow> down.keeps s s'"
    and down_keeps: "ok s \<Longrightarrow> copy_step rdD wrD finD c s = Returns (c', s') \<Longrightarrow> up.keeps s s'"
begin

lemma pair_step:
  assumes "ok s" and "up.side_inv U u s" and "down.side_inv D d s"
  shows "\<exists>u' s'. copy_step rdU wrU finU u s = Returns (u', s') \<and> ok s' \<and> up.side_inv U u' s' \<and> down.side_inv D d s' \<and>
      (finished u' \<or> loadU s' < loadU s) \<and> loadD s' \<le> loadD s"
    and "\<exists>d' s'. copy_step rdD wrD finD d s = Returns (d', s') \<and> ok s' \<and> up.side_inv U u s' \<and> down.side_inv D d' s' \<and>
      (finished d' \<or> loadD s' < loadD s) \<and> loadU s' \<le> loadU s"
proof -
  obtain u' s' where u: "copy_step rdU wrU finU u s = Returns (u', s')" "ok s'" "up.side_inv U u' s'"
    "finished u' \<or> loadU s' < loadU s" using up.copy_step_inv [OF assms(1,2)] by blast
  from up_keeps [OF assms(1) u(1)] have "down.side_inv D d s'" "loadD s' \<le> loadD s"
    using down.keeps_inv assms(3) by (auto simp: down.keeps_def)
  with u show "\<exists>u' s'. copy_step rdU wrU finU u s = Returns (u', s') \<and> ok s' \<and> up.side_inv U u' s' \<and> down.side_inv D d s' \<and>
      (finished u' \<or> loadU s' < loadU s) \<and> loadD s' \<le> loadD s" by blast
  obtain d' t where d: "copy_step rdD wrD finD d s = Returns (d', t)" "ok t" "down.side_inv D d' t"
    "finished d' \<or> loadD t < loadD s" using down.copy_step_inv [OF assms(1,3)] by blast
  from down_keeps [OF assms(1) d(1)] have "up.side_inv U u t" "loadU t \<le> loadU s"
    using up.keeps_inv assms(2) by (auto simp: up.keeps_def)
  with d show "\<exists>d' s'. copy_step rdD wrD finD d s = Returns (d', s') \<and> ok s' \<and> up.side_inv U u s' \<and> down.side_inv D d' s' \<and>
      (finished d' \<or> loadD s' < loadD s) \<and> loadU s' \<le> loadU s" by blast
qed

text \<open>
  Whatever the schedule: no panic, both invariants at the end, and a direction that gets more turns
  than its source can have reads has ended, unless the run was stopped before.
\<close>

lemma pair_run:
  assumes "ok s" and "up.side_inv U u s" and "down.side_inv D d s"
  shows "\<exists>u' d' s'. copy_pair (copy_step rdU wrU finU) (copy_step rdD wrD finD) stop ts u d s = Returns (u', d', s') \<and>
     ok s' \<and> up.side_inv U u' s' \<and> down.side_inv D d' s' \<and>
     (stop u' d' \<or> (finished u \<or> loadU s < count_list ts True \<longrightarrow> finished u') \<and>
                  (finished d \<or> loadD s < count_list ts False \<longrightarrow> finished d'))"
  using assms
proof (induction ts arbitrary: u d s)
  case Nil
  then show ?case by auto
next
  case (Cons t ts)
  show ?case
  proof (cases "stop u d")
    case True
    with Cons.prems show ?thesis by auto
  next
    case False
    show ?thesis
    proof (cases t)
      case True
      obtain u1 s1 where 1: "copy_step rdU wrU finU u s = Returns (u1, s1)" "ok s1" "up.side_inv U u1 s1" "down.side_inv D d s1"
        "finished u1 \<or> loadU s1 < loadU s" "loadD s1 \<le> loadD s" using pair_step(1) [OF Cons.prems] by blast
      have "finished u \<Longrightarrow> finished u1" using 1(1) by (cases u) (auto simp: copy_step_def)
      with Cons.IH [OF 1(2-4)] 1 True False show ?thesis by (auto 4 3)
    next
      case t: False
      obtain d1 s1 where 1: "copy_step rdD wrD finD d s = Returns (d1, s1)" "ok s1" "up.side_inv U u s1" "down.side_inv D d1 s1"
        "finished d1 \<or> loadD s1 < loadD s" "loadU s1 \<le> loadU s" using pair_step(2) [OF Cons.prems] by blast
      have "finished d \<Longrightarrow> finished d1" using 1(1) by (cases d) (auto simp: copy_step_def)
      with Cons.IH [OF 1(2-4)] 1 t False show ?thesis by (auto 4 3)
    qed
  qed
qed

end

section \<open>The ends of a websocket relay\<close>

text \<open>
  The transport of a relay has run its handshake. Its pending bytes are those behind the cipher;
  what it has delivered since \<open>t0\<close> is what the cipher of \<open>t0\<close> encrypts.
\<close>

definition tr_ok :: "transport \<Rightarrow> bool" where
  "tr_ok t = (case t of Plain c \<Rightarrow> True | Wrapped oc \<Rightarrow> obf_inv oc \<and> oc_once oc)"

definition tr_src :: "transport \<Rightarrow> bytes" where
  "tr_src t = (case t of
     Plain c \<Rightarrow> concat (rx c)
   | Wrapped oc \<Rightarrow> (case (oc_hsErr oc, oc_r oc) of
       (None, Some k) \<Rightarrow> fst (XORKeyStream k (concat (rx (oc_Conn oc)))) | _ \<Rightarrow> []))"

definition tr_serr :: "transport \<Rightarrow> io_error" where
  "tr_serr t = (case t of
     Plain c \<Rightarrow> rx_end c
   | Wrapped oc \<Rightarrow> (case oc_hsErr oc of Some e \<Rightarrow> e | None \<Rightarrow> rx_end (oc_Conn oc)))"

definition tr_cipher :: "transport \<Rightarrow> bytes \<Rightarrow> bytes" where
  "tr_cipher t d = (case t of
     Plain c \<Rightarrow> d
   | Wrapped oc \<Rightarrow> (case oc_w oc of Some k \<Rightarrow> fst (XORKeyStream k d) | None \<Rightarrow> []))"

definition tr_snk :: "transport \<Rightarrow> transport \<Rightarrow> bytes \<Rightarrow> bool" where
  "tr_snk t0 t d \<longleftrightarrow> concat (tx (tr_conn t)) = concat (tx (tr_conn t0)) @ tr_cipher t0 d \<and>
     (case (t0, t) of
        (Wrapped oc0, Wrapped oc) \<Rightarrow>
          oc_hsErr oc = oc_hsErr oc0 \<and> (oc_hsErr oc0 \<noteq> None \<longrightarrow> d = []) \<and>
          (oc_hsErr oc0 = None \<and> can_write (oc_Conn oc) \<longrightarrow>
             (\<exists>k. oc_w oc0 = Some k \<and> oc_w oc = Some (snd (XORKeyStream k d))))
      | (Plain c0, Plain c) \<Rightarrow> True
      | _ \<Rightarrow> False)"

lemma XORKeyStream_Nil [simp]: "XORKeyStream k [] = ([], k)"
  using ctr.xor_Nil [of k] by (simp add: XORKeyStream_def)

lemma tr_snk_start: "tr_ok t \<Longrightarrow> tr_snk t t []"
  by (cases t) (auto simp: tr_snk_def tr_ok_def tr_cipher_def obf_inv_def split: option.split)

lemma conn_Read_law:
  "0 < n \<Longrightarrow> \<exists>r c'. conn_Read n c = (r, c') \<and> tx c' = tx c \<and> tx_error c' = tx_error c \<and>
     (case r of Inl e \<Rightarrow> c' = c \<and> rx c = [] \<and> e = rx_end c
      | Inr b \<Rightarrow> concat (rx c) = b @ concat (rx c') \<and> rx_end c' = rx_end c \<and> rx_size c' < rx_size c)"
proof (cases rule: conn_Read_cases [of c n])
  case (data b c')
  assume "0 < n"
  with data conn_Read_smaller [OF data(2)] show ?thesis by simp
qed simp

lemma tr_Read_law:
  assumes "tr_ok t" and "0 < n"
  shows "\<exists>r t'. tr_Read X g n t = Returns (r, t') \<and> tr_ok t' \<and> (\<forall>t0 d. tr_snk t0 t d \<longrightarrow> tr_snk t0 t' d) \<and>
    (case r of Inl e \<Rightarrow> tr_src t = [] \<and> e = tr_serr t
     | Inr b \<Rightarrow> tr_src t = b @ tr_src t' \<and> tr_serr t' = tr_serr t \<and> rx_size (tr_conn t') < rx_size (tr_conn t))"
proof (cases t)
  case (Plain c)
  from conn_Read_law [OF assms(2), of c] obtain r c' where "conn_Read n c = (r, c')" "tx c' = tx c"
    "case r of Inl e \<Rightarrow> c' = c \<and> rx c = [] \<and> e = rx_end c
      | Inr b \<Rightarrow> concat (rx c) = b @ concat (rx c') \<and> rx_end c' = rx_end c \<and> rx_size c' < rx_size c" by blast
  then show ?thesis unfolding Plain
    by (auto simp: tr_Read_def tr_ok_def tr_src_def tr_serr_def tr_snk_def tr_conn_def split: sum.splits transport.splits)
next
  case (Wrapped oc)
  with assms(1) have inv: "obf_inv oc" "oc_once oc" by (simp_all add: tr_ok_def)
  show ?thesis
  proof (cases "oc_hsErr oc")
    case (Some e)
    with inv Wrapped show ?thesis
      by (auto simp: tr_Read_def obf_Read_def handshake_def tr_ok_def tr_src_def tr_serr_def)
  next
    case None
    with inv obtain k where k: "oc_r oc = Some k" by (auto simp: obf_inv_def)
    from conn_Read_law [OF assms(2), of "oc_Conn oc"] obtain r c' where c': "conn_Read n (oc_Conn oc) = (r, c')"
      "tx c' = tx (oc_Conn oc)" "tx_error c' = tx_error (oc_Conn oc)"
      "case r of Inl e \<Rightarrow> c' = oc_Conn oc \<and> rx (oc_Conn oc) = [] \<and> e = rx_end (oc_Conn oc)
      | Inr b \<Rightarrow> concat (rx (oc_Conn oc)) = b @ concat (rx c') \<and> rx_end c' = rx_end (oc_Conn oc) \<and> rx_size c' < rx_size (oc_Conn oc)"
      by blast
    have snk: "tr_snk t0 (Wrapped (oc\<lparr>oc_Conn := c', oc_r := q\<rparr>)) d" if "tr_snk t0 t d" for t0 d q
      using that c'(2,3) Wrapped by (auto simp: tr_snk_def tr_conn_def can_write_def split: transport.splits)
    show ?thesis
    proof (cases r)
      case (Inl e)
      with c' None inv k Wrapped show ?thesis
        by (auto simp: tr_Read_def obf_Read_def handshake_def tr_ok_def tr_src_def tr_serr_def)
    next
      case (Inr b)
      define oc' where "oc' = oc\<lparr>oc_Conn := c', oc_r := Some (snd (XORKeyStream k b))\<rparr>"
      have run: "tr_Read X g n t = Returns (Inr (fst (XORKeyStream k b)), Wrapped oc')"
        using c'(1) Inr None inv(2) k Wrapped
        by (auto simp: tr_Read_def obf_Read_def handshake_def split_beta oc'_def)
      have "tr_ok (Wrapped oc')" using inv None k by (simp add: tr_ok_def obf_inv_def oc'_def)
      moreover have "tr_src t = fst (XORKeyStream k b) @ tr_src (Wrapped oc')"
        using c'(4) Inr None k Wrapped by (simp add: tr_src_def ctr.xor_append [of k b] oc'_def)
      moreover have "tr_serr (Wrapped oc') = tr_serr t" "rx_size (tr_conn (Wrapped oc')) < rx_size (tr_conn t)"
        using c'(4) Inr None Wrapped by (simp_all add: tr_serr_def tr_conn_def oc'_def)
      ultimately show ?thesis using run snk by (auto simp: oc'_def)
    qed
  qed
qed

text \<open>A write behind the cipher: what gets out is the cipher of the part that is reported.\<close>

lemma wrapped_Write_law:
  assumes "t = Wrapped oc" and inv: "obf_inv oc" "oc_once oc" and None: "oc_hsErr oc = None"
  shows "\<exists>r t'. tr_Write X g b t = Returns (r, t') \<and> tr_ok t' \<and> tr_src t' = tr_src t \<and> tr_serr t' = tr_serr t \<and>
    rx_size (tr_conn t') = rx_size (tr_conn t) \<and> length (sent_part r b) = written r b \<and>
    (\<forall>t0 d. tr_snk t0 t d \<longrightarrow> tr_snk t0 t' (d @ sent_part r b))"
proof -
  note Wrapped = assms(1)
  obtain k where k: "oc_w oc = Some k" using inv None by (auto simp: obf_inv_def)
  let ?x = "fst (XORKeyStream k b)"
  obtain r c' where c': "conn_Write ?x (oc_Conn oc) = (r, c')" "rx c' = rx (oc_Conn oc)" "rx_end c' = rx_end (oc_Conn oc)"
    "concat (tx c') = concat (tx (oc_Conn oc)) @ sent_part r ?x" "length (sent_part r ?x) = written r ?x"
    "case r of Inl _ \<Rightarrow> \<not> can_write c' \<and> (\<not> can_write (oc_Conn oc) \<longrightarrow> sent_part r ?x = [])
     | Inr _ \<Rightarrow> can_write (oc_Conn oc)"
    using conn_Write_law by blast
  define oc' where "oc' = oc\<lparr>oc_Conn := c', oc_w := Some (snd (XORKeyStream k b))\<rparr>"
  have part: "sent_part r ?x = fst (XORKeyStream k (sent_part r b))" "written r ?x = written r b"
    by (auto simp: sent_part_def written_def ctr.xor_take ctr.xor_length split: sum.split prod.split)
  have len: "length (sent_part r b) = written r b"
    using c'(5) part by (simp add: ctr.xor_length)
  have run: "tr_Write X g b t = Returns (r, Wrapped oc')"
    using c'(1) None inv(2) k Wrapped by (simp add: tr_Write_def obf_Write_def handshake_def split_beta oc'_def)
  have rest: "tr_ok (Wrapped oc')" "tr_src (Wrapped oc') = tr_src t" "tr_serr (Wrapped oc') = tr_serr t"
    "rx_size (tr_conn (Wrapped oc')) = rx_size (tr_conn t)"
    using inv None c'(2,3) Wrapped
    by (auto simp: tr_ok_def obf_inv_def tr_src_def tr_serr_def tr_conn_def rx_size_def oc'_def)
  have snk: "tr_snk t0 (Wrapped oc') (d @ sent_part r b)" if s: "tr_snk t0 t d" for t0 d
  proof (cases "can_write (oc_Conn oc)")
    case False
    with c'(6) obtain e where "r = Inl e" "\<not> can_write c'" "sent_part r ?x = []" by (cases r) auto
    moreover have "sent_part r b = []" using calculation part(1) by (metis ctr.xor_length length_0_conv)
    ultimately show ?thesis using s c'(4) Wrapped
      by (auto simp: tr_snk_def tr_conn_def oc'_def split: transport.splits)
  next
    case True
    then obtain oc0 k0 where t0: "t0 = Wrapped oc0" "oc_hsErr oc0 = None" "oc_w oc0 = Some k0" "k = snd (XORKeyStream k0 d)"
      using s None k Wrapped by (auto simp: tr_snk_def split: transport.splits)
    have "can_write c' \<Longrightarrow> sent_part r b = b" using c'(6) by (cases r) (auto simp: sent_part_def)
    with s t0 None Wrapped c'(4) part(1) show ?thesis
      by (simp add: tr_snk_def tr_conn_def tr_cipher_def oc'_def ctr.xor_append [of k0 d])
  qed
  show ?thesis using run rest len snk by blast
qed

lemma tr_Write_law:
  assumes "tr_ok t"
  shows "\<exists>r t'. tr_Write X g b t = Returns (r, t') \<and> tr_ok t' \<and> tr_src t' = tr_src t \<and> tr_serr t' = tr_serr t \<and>
    rx_size (tr_conn t') = rx_size (tr_conn t) \<and> length (sent_part r b) = written r b \<and>
    (\<forall>t0 d. tr_snk t0 t d \<longrightarrow> tr_snk t0 t' (d @ sent_part r b))"
proof (cases t)
  case (Plain c)
  obtain r c' where c': "conn_Write b c = (r, c')" "rx c' = rx c" "rx_end c' = rx_end c"
    "concat (tx c') = concat (tx c) @ sent_part r b" "length (sent_part r b) = written r b"
    using conn_Write_law by blast
  have "tr_snk t0 (Plain c') (d @ sent_part r b)" if "tr_snk t0 t d" for t0 d
    using that c'(4) Plain by (auto simp: tr_snk_def tr_conn_def tr_cipher_def split: transport.splits)
  moreover have "tr_Write X g b t = Returns (r, Plain c')" using c'(1) Plain by (simp add: tr_Write_def)
  moreover have "tr_ok (Plain c')" "tr_src (Plain c') = tr_src t" "tr_serr (Plain c') = tr_serr t"
    "rx_size (tr_conn (Plain c')) = rx_size (tr_conn t)"
    using c'(2,3) Plain by (simp_all add: tr_ok_def tr_src_def tr_serr_def tr_conn_def rx_size_def)
  ultimately show ?thesis using c'(5) by blast
next
  case (Wrapped oc)
  with assms have inv: "obf_inv oc" "oc_once oc" by (simp_all add: tr_ok_def)
  show ?thesis
  proof (cases "oc_hsErr oc")
    case (Some e)
    with inv Wrapped show ?thesis
      by (auto simp: tr_Write_def obf_Write_def handshake_def tr_ok_def sent_part_def written_def)
  qed (rule wrapped_Write_law [OF Wrapped inv])
qed

lemma tr_Close_law:
  assumes "tr_ok t"
  shows "tr_ok (tr_Close t)" and "tr_snk t0 t d \<Longrightarrow> tr_snk t0 (tr_Close t) d"
    and "rx_size (tr_conn (tr_Close t)) \<le> rx_size (tr_conn t)"
    and "tr_src (tr_Close t) = tr_src t \<and> tr_serr (tr_Close t) = tr_serr t \<or> tr_src (tr_Close t) = [] \<and> tr_serr (tr_Close t) \<noteq> EOF"
  using assms
  by (auto simp: tr_Close_def conn_Close_def closed_error_def tr_ok_def tr_src_def tr_serr_def tr_snk_def tr_conn_def
      rx_size_def obf_inv_def can_write_def split: option.splits transport.splits)

text \<open>
  The relay state seen from its two directions, relative to the state \<open>s0\<close> it began in: delivered
  bytes are on the wire and in the traffic counter.
\<close>

definition relay_ok :: "'l relay_state \<Rightarrow> bool" where
  "relay_ok s = tr_ok (rl_tr s)"

definition up_snk :: "'l relay_state \<Rightarrow> 'l relay_state \<Rightarrow> bytes \<Rightarrow> bool" where
  "up_snk s0 s d \<longleftrightarrow> concat (tx (rl_target s)) = concat (tx (rl_target s0)) @ d \<and> rl_up s = rl_up s0 + int (length d)"

definition down_snk :: "'l relay_state \<Rightarrow> 'l relay_state \<Rightarrow> bytes \<Rightarrow> bool" where
  "down_snk s0 s d \<longleftrightarrow> tr_snk (rl_tr s0) (rl_tr s) d \<and> rl_down s = rl_down s0 + int (length d)"

lemma metered_law:
  assumes "wr b c = Returns (r, c')"
  shows "\<exists>l w'. meteredWriter_Write R bw wr b n lim w c =
     Returns (r, n + int (written r b), l, w', c')"
  using assms by (simp add: meteredWriter_Write_def limitedWriter_Write_def split_beta)

lemma up_Read_law:
  assumes "relay_ok s" and "0 < n"
  shows "\<exists>r t. up_Read X g n s = Returns (r, s\<lparr>rl_tr := t\<rparr>) \<and> tr_ok t \<and> (\<forall>t0 d. tr_snk t0 (rl_tr s) d \<longrightarrow> tr_snk t0 t d) \<and>
    (case r of Inl e \<Rightarrow> tr_src (rl_tr s) = [] \<and> e = tr_serr (rl_tr s)
     | Inr b \<Rightarrow> tr_src (rl_tr s) = b @ tr_src t \<and> tr_serr t = tr_serr (rl_tr s) \<and> rx_size (tr_conn t) < rx_size (tr_conn (rl_tr s)))"
  using tr_Read_law [of "rl_tr s" n X g] assms by (auto simp: up_Read_def relay_ok_def)

lemma up_Write_law:
  "\<exists>r n l w c. up_Write R bw b s = Returns (r, s\<lparr>rl_up := n, rl_limiter := l, rl_cw := w, rl_target := c\<rparr>) \<and>
     rx c = rx (rl_target s) \<and> rx_end c = rx_end (rl_target s) \<and> n = rl_up s + int (written r b) \<and>
     length (sent_part r b) = written r b \<and> concat (tx c) = concat (tx (rl_target s)) @ sent_part r b"
proof -
  obtain r c where c: "conn_Write b (rl_target s) = (r, c)" "rx c = rx (rl_target s)" "rx_end c = rx_end (rl_target s)"
    "concat (tx c) = concat (tx (rl_target s)) @ sent_part r b" "length (sent_part r b) = written r b"
    using conn_Write_law by blast
  obtain l w where "meteredWriter_Write R bw conn_writer b (rl_up s) (rl_limiter s) (rl_cw s) (rl_target s) =
      Returns (r, rl_up s + int (written r b), l, w, c)"
    using metered_law [of conn_writer b "rl_target s" r c R bw "rl_up s" "rl_limiter s" "rl_cw s"] c(1)
    by (auto simp: conn_writer_def)
  then have run: "up_Write R bw b s = Returns (r, s\<lparr>rl_up := rl_up s + int (written r b),
      rl_limiter := l, rl_cw := w, rl_target := c\<rparr>)"
    by (simp add: up_Write_def)
  show ?thesis by (intro exI conjI, rule run) (use c in \<open>auto split: sum.splits\<close>)
qed

lemma down_Read_law:
  "0 < n \<Longrightarrow> \<exists>r c. down_Read n s = Returns (r, s\<lparr>rl_target := c\<rparr>) \<and> tx c = tx (rl_target s) \<and>
     (case r of Inl e \<Rightarrow> c = rl_target s \<and> rx (rl_target s) = [] \<and> e = rx_end (rl_target s)
      | Inr b \<Rightarrow> concat (rx (rl_target s)) = b @ concat (rx c) \<and> rx_end c = rx_end (rl_target s) \<and> rx_size c < rx_size (rl_target s))"
  using conn_Read_law [of n "rl_target s"] by (auto simp: down_Read_def)

lemma down_Write_law:
  assumes "relay_ok s"
  shows "\<exists>r n l w t. down_Write R bw X g b s = Returns (r, s\<lparr>rl_down := n, rl_limiter := l, rl_wsw := w, rl_tr := t\<rparr>) \<and>
     tr_ok t \<and> tr_src t = tr_src (rl_tr s) \<and> tr_serr t = tr_serr (rl_tr s) \<and> rx_size (tr_conn t) = rx_size (tr_conn (rl_tr s)) \<and>
     n = rl_down s + int (written r b) \<and> length (sent_part r b) = written r b \<and>
     (\<forall>t0 d. tr_snk t0 (rl_tr s) d \<longrightarrow> tr_snk t0 t (d @ sent_part r b))"
proof -
  obtain r t where t: "tr_Write X g b (rl_tr s) = Returns (r, t)" "tr_ok t \<and> tr_src t = tr_src (rl_tr s) \<and>
      tr_serr t = tr_serr (rl_tr s) \<and> rx_size (tr_conn t) = rx_size (tr_conn (rl_tr s)) \<and> length (sent_part r b) = written r b \<and>
      (\<forall>t0 d. tr_snk t0 (rl_tr s) d \<longrightarrow> tr_snk t0 t (d @ sent_part r b))"
    using tr_Write_law [of "rl_tr s" X g b] assms by (auto simp: relay_ok_def)
  obtain l w where "meteredWriter_Write R bw (tr_Write X g) b (rl_down s) (rl_limiter s) (rl_wsw s) (rl_tr s) =
      Returns (r, rl_down s + int (written r b), l, w, t)"
    using metered_law [of "tr_Write X g" b "rl_tr s" r t R bw "rl_down s" "rl_limiter s" "rl_wsw s"] t(1) by blast
  with t(2) show ?thesis by (auto simp: down_Write_def)
qed

interpretation up_side: copy_side "up_Read X g" "up_Write R bw" up_Done relay_ok "\<lambda>s. tr_src (rl_tr s)" "\<lambda>s. tr_serr (rl_tr s)"
  "up_snk s0" "\<lambda>s. rx_size (tr_conn (rl_tr s))"
  for X g and R :: "('f, 'l) ratelib" and bw s0
proof
  fix s n b
  show "relay_ok s \<Longrightarrow> 0 < n \<Longrightarrow> \<exists>r s'. up_Read X g n s = Returns (r, s') \<and> relay_ok s' \<and> (\<forall>d. up_snk s0 s d \<longrightarrow> up_snk s0 s' d) \<and>
      (case r of Inl e \<Rightarrow> tr_src (rl_tr s) = [] \<and> e = tr_serr (rl_tr s)
       | Inr b \<Rightarrow> tr_src (rl_tr s) = b @ tr_src (rl_tr s') \<and> tr_serr (rl_tr s') = tr_serr (rl_tr s) \<and>
           rx_size (tr_conn (rl_tr s')) < rx_size (tr_conn (rl_tr s)))"
    by (drule (1) up_Read_law [of s n X g], elim exE conjE, intro exI conjI, assumption)
      (auto simp: relay_ok_def up_snk_def split: sum.splits)
  show "\<exists>r s'. up_Write R bw b s = Returns (r, s') \<and> relay_ok s' \<and> tr_src (rl_tr s') = tr_src (rl_tr s) \<and>
      tr_serr (rl_tr s') = tr_serr (rl_tr s) \<and> rx_size (tr_conn (rl_tr s')) = rx_size (tr_conn (rl_tr s)) \<and>
      length (sent_part r b) = written r b \<and> (\<forall>d. up_snk s0 s d \<longrightarrow> up_snk s0 s' (d @ sent_part r b))" if "relay_ok s"
    by (rule exE [OF up_Write_law [of R bw b s]], elim exE conjE, intro exI conjI, assumption)
      (use that in \<open>auto simp: relay_ok_def up_snk_def split: sum.splits\<close>)
  show "relay_ok s \<Longrightarrow> relay_ok (up_Done s) \<and> (\<forall>d. up_snk s0 s d \<longrightarrow> up_snk s0 (up_Done s) d)"
    by (simp add: relay_ok_def up_Done_def up_snk_def conn_Close_def)
qed

interpretation down_side: copy_side down_Read "down_Write R bw X g" down_Done relay_ok "\<lambda>s. concat (rx (rl_target s))"
  "\<lambda>s. rx_end (rl_target s)" "down_snk s0" "\<lambda>s. rx_size (rl_target s)"
  for R :: "('f, 'l) ratelib" and bw X g s0
proof
  fix s n b
  show "relay_ok s \<Longrightarrow> 0 < n \<Longrightarrow> \<exists>r s'. down_Read n s = Returns (r, s') \<and> relay_ok s' \<and> (\<forall>d. down_snk s0 s d \<longrightarrow> down_snk s0 s' d) \<and>
      (case r of Inl e \<Rightarrow> concat (rx (rl_target s)) = [] \<and> e = rx_end (rl_target s)
       | Inr b \<Rightarrow> concat (rx (rl_target s)) = b @ concat (rx (rl_target s')) \<and> rx_end (rl_target s') = rx_end (rl_target s) \<and>
           rx_size (rl_target s') < rx_size (rl_target s))"
    by (drule (0) down_Read_law [of n s], elim exE conjE, intro exI conjI, assumption)
      (auto simp: relay_ok_def down_snk_def split: sum.splits)
  show "\<exists>r s'. down_Write R bw X g b s = Returns (r, s') \<and> relay_ok s' \<and> concat (rx (rl_target s')) = concat (rx (rl_target s)) \<and>
      rx_end (rl_target s') = rx_end (rl_target s) \<and> rx_size (rl_target s') = rx_size (rl_target s) \<and>
      length (sent_part r b) = written r b \<and> (\<forall>d. down_snk s0 s d \<longrightarrow> down_snk s0 s' (d @ sent_part r b))" if "relay_ok s"
    by (rule exE [OF down_Write_law [OF that, of R bw X g b]], elim exE conjE, intro exI conjI, assumption)
      (auto simp: relay_ok_def down_snk_def split: sum.splits)
  show "relay_ok s \<Longrightarrow> relay_ok (down_Done s) \<and> (\<forall>d. down_snk s0 s d \<longrightarrow> down_snk s0 (down_Done s) d)"
    using tr_Close_law(1,2) by (auto simp: relay_ok_def down_Done_def down_snk_def)
qed

lemma up_step_keeps:
  assumes "relay_ok s" and "copy_step (up_Read X g) (up_Write R bw) up_Done c s = Returns (c', s')"
  shows "down_side.keeps s0 s s'"
proof (rule copy_step_rel [of "down_side.keeps s0" relay_ok, OF down_side.keeps_refl down_side.keeps_trans _ _ _ assms])
  show "relay_ok s' \<and> down_side.keeps s0 s s'" if "relay_ok s" "up_Read X g 32768 s = Returns (r, s')" for s r s'
    using up_Read_law [OF that(1), of 32768 X g] that(2)
    by (auto simp: relay_ok_def down_side.keeps_def down_snk_def)
  show "relay_ok s' \<and> down_side.keeps s0 s s'" if "relay_ok s" "up_Write R bw b s = Returns (r, s')" for b s r s'
    using up_Write_law [of R bw b s] that
    unfolding down_side.keeps_def by (auto simp: relay_ok_def down_snk_def rx_size_def)
  show "down_side.keeps s0 s (up_Done s)" if "relay_ok s" for s
    unfolding down_side.keeps_def by (simp add: up_Done_def conn_Close_def closed_error_def down_snk_def rx_size_def)
qed

lemma down_step_keeps:
  assumes "relay_ok s" and "copy_step down_Read (down_Write R bw X g) down_Done c s = Returns (c', s')"
  shows "up_side.keeps s0 s s'"
proof (rule copy_step_rel [of "up_side.keeps s0" relay_ok, OF up_side.keeps_refl up_side.keeps_trans _ _ _ assms])
  show "relay_ok s' \<and> up_side.keeps s0 s s'" if "relay_ok s" "down_Read 32768 s = Returns (r, s')" for s r s'
    using down_Read_law [of 32768 s] that
    by (auto simp: relay_ok_def up_side.keeps_def up_snk_def)
  show "relay_ok s' \<and> up_side.keeps s0 s s'" if "relay_ok s" "down_Write R bw X g b s = Returns (r, s')" for b s r s'
    using down_Write_law [OF that(1), of R bw X g b] that(2)
    by (auto simp: relay_ok_def up_side.keeps_def up_snk_def)
  show "up_side.keeps s0 s (down_Done s)" if "relay_ok s" for s
    using tr_Close_law(3,4) [of "rl_tr s"] that
    by (auto simp: up_side.keeps_def down_Done_def up_snk_def relay_ok_def)
qed

interpretation wss_relay: relay_pair "up_Read X g" "up_Write R bw" up_Done relay_ok "\<lambda>s. tr_src (rl_tr s)" "\<lambda>s. tr_serr (rl_tr s)"
  "up_snk s0" "\<lambda>s. rx_size (tr_conn (rl_tr s))"
  down_Read "down_Write R bw X g" down_Done "\<lambda>s. concat (rx (rl_target s))"
  "\<lambda>s. rx_end (rl_target s)" "down_snk s0" "\<lambda>s. rx_size (rl_target s)"
  for X g and R :: "('f, 'l) ratelib" and bw s0
  by unfold_locales (rule up_step_keeps down_step_keeps, assumption+)+

section \<open>Properties\<close>

lemma run_relay_spec:
  assumes "tr_ok (rl_tr s)"
  shows "\<exists>u d s'. run_relay R bw X g sched s = Returns (u, d, s') \<and> finished u \<and> finished d \<and> tr_ok (rl_tr s') \<and>
    up_side.side_inv s (tr_src (rl_tr s)) u s' \<and> down_side.side_inv s (concat (rx (rl_target s))) d s'"
proof -
  have "relay_ok s" using assms by (simp add: relay_ok_def)
  moreover have "up_side.side_inv s (tr_src (rl_tr s)) (Copying 0) s" "down_side.side_inv s (concat (rx (rl_target s))) (Copying 0) s"
    using tr_snk_start [OF assms]
    by (auto intro!: up_side.side_inv_start down_side.side_inv_start simp: up_snk_def down_snk_def)
  ultimately show ?thesis
    using wss_relay.pair_run [of s s "tr_src (rl_tr s)" "Copying 0" "concat (rx (rl_target s))" "Copying 0" X g R bw
        "\<lambda>u d. finished u \<and> finished d"
        "sched @ replicate (rx_size (tr_conn (rl_tr s)) + 1) True @ replicate (rx_size (rl_target s) + 1) False"]
    by (auto simp: run_relay_def relay_ok_def)
qed

text \<open>
  C3. The relay is faithful under every interleaving of its two directions: it never panics and
  both copies end; what reaches the target is a prefix of what the client sent (deciphered), and
  what reaches the client is, under its cipher, a prefix of what the target sent; the counts the
  copies report and the traffic counters are exactly the numbers of bytes delivered, also when a
  connection breaks in the middle of a write; and a copy
  that reports no error has delivered everything.
\<close>

theorem relay_faithful:
  assumes "tr_ok (rl_tr s)"
  shows "\<exists>u e d f s'. run_relay R bw X g sched s = Returns (Copied (int (length u)) e, Copied (int (length d)) f, s') \<and>
    concat (tx (rl_target s')) = concat (tx (rl_target s)) @ u \<and> prefix u (tr_src (rl_tr s)) \<and>
    concat (tx (tr_conn (rl_tr s'))) = concat (tx (tr_conn (rl_tr s))) @ tr_cipher (rl_tr s) d \<and>
    prefix d (concat (rx (rl_target s))) \<and>
    rl_up s' = rl_up s + int (length u) \<and> rl_down s' = rl_down s + int (length d) \<and>
    (e = None \<longrightarrow> u = tr_src (rl_tr s)) \<and> (f = None \<longrightarrow> d = concat (rx (rl_target s)))"
proof -
  obtain u d s' where run: "run_relay R bw X g sched s = Returns (u, d, s')" "finished u" "finished d"
    "up_side.side_inv s (tr_src (rl_tr s)) u s'" "down_side.side_inv s (concat (rx (rl_target s))) d s'"
    using run_relay_spec [OF assms] by blast
  then obtain n e m f where "u = Copied n e" "d = Copied m f" by (cases u; cases d) auto
  with run show ?thesis
    unfolding up_side.side_inv_def down_side.side_inv_def up_snk_def down_snk_def tr_snk_def by auto
qed

text \<open>A target that breaks the connection after one byte.\<close>

definition demo_relay :: "int relay_state" where
  "demo_relay = \<lparr>rl_target = open_conn\<lparr>rx := [''SSH-2.0'', ''prompt''], tx_error := Some (1, IOError ''reset'')\<rparr>, rl_tr = Plain (open_conn\<lparr>rx := [''ls'']\<rparr>),
     rl_limiter = 8, rl_cw = \<lparr>lw_written = 0\<rparr>, rl_wsw = \<lparr>lw_written = 0\<rparr>, rl_up = 0, rl_down = 0\<rparr>"

theorem relay_faithful_witness:
  "\<forall>R bw X g sched. \<exists>u e d f s'. run_relay R bw X g sched demo_relay = Returns (Copied (int (length u)) e, Copied (int (length d)) f, s') \<and>
    concat (tx (rl_target s')) = u \<and> prefix u ''ls'' \<and> concat (tx (tr_conn (rl_tr s'))) = d \<and> prefix d ''SSH-2.0prompt'' \<and>
    (e = None \<longrightarrow> u = ''ls'') \<and> (f = None \<longrightarrow> d = ''SSH-2.0prompt'')"
proof (intro allI)
  fix R :: "('f, int) ratelib" and bw X g sched
  have "tr_ok (rl_tr demo_relay)" by (simp add: demo_relay_def tr_ok_def)
  from relay_faithful [OF this, of R bw X g sched]
  show "\<exists>u e d f s'. run_relay R bw X g sched demo_relay = Returns (Copied (int (length u)) e, Copied (int (length d)) f, s') \<and>
    concat (tx (rl_target s')) = u \<and> prefix u ''ls'' \<and> concat (tx (tr_conn (rl_tr s'))) = d \<and> prefix d ''SSH-2.0prompt'' \<and>
    (e = None \<longrightarrow> u = ''ls'') \<and> (f = None \<longrightarrow> d = ''SSH-2.0prompt'')"
    by (simp add: demo_relay_def open_conn_def tr_src_def tr_conn_def tr_cipher_def) blast
qed

end
