(* ===== verification/GoJson.thy ===== *)
theory GoJson
  imports GoCrypto
begin

text \<open>
  The part of package \<open>encoding/json\<close> the two programs use: the string encoder, a parser for
  JSON texts and the decoding of a parsed value into a struct of the program. A parsed number
  keeps its literal; a parsed string is unquoted, with invalid UTF-8 replaced as Go does.
\<close>

section \<open>UTF-8\<close>

abbreviation continuation :: "int \<Rightarrow> bool" where
  "continuation b \<equiv> 0x80 \<le> b \<and> b \<le> 0xBF"

text \<open>Length of the multi-byte sequence a string starts with; 0 when it is malformed.\<close>

definition rune_len :: "bytes \<Rightarrow> nat" where
  "rune_len s =
     (case map of_char (take 4 s) :: int list of
        a # b # r \<Rightarrow>
          if 0xC2 \<le> a \<and> a \<le> 0xDF \<and> continuation b then 2
          else (case r of
              [] \<Rightarrow> 0
            | c # r' \<Rightarrow>
                if (a = 0xE0 \<and> 0xA0 \<le> b \<and> b \<le> 0xBF \<or> a = 0xED \<and> 0x80 \<le> b \<and> b \<le> 0x9F
                    \<or> (0xE1 \<le> a \<and> a \<le> 0xEC \<or> 0xEE \<le> a \<and> a \<le> 0xEF) \<and> continuation b) \<and> continuation c
                then 3
                else (case r' of
                    [] \<Rightarrow> 0
                  | d # _ \<Rightarrow>
                      if (a = 0xF0 \<and> 0x90 \<le> b \<and> b \<le> 0xBF \<or> 0xF1 \<le> a \<and> a \<le> 0xF3 \<and> continuation b
                          \<or> a = 0xF4 \<and> 0x80 \<le> b \<and> b \<le> 0x8F) \<and> continuation c \<and> continuation d
                      then 4 else 0))
      | _ \<Rightarrow> 0)"

definition utf8_encode :: "int \<Rightarrow> bytes" where
  "utf8_encode r = map char_of
     (if r < 0x80 then [r]
      else if r < 0x800 then [0xC0 + r div 0x40, 0x80 + r mod 0x40]
      else if r < 0x10000 then [0xE0 + r div 0x1000, 0x80 + r div 0x40 mod 0x40, 0x80 + r mod 0x40]
      else [0xF0 + r div 0x40000, 0x80 + r div 0x1000 mod 0x40, 0x80 + r div 0x40 mod 0x40, 0x80 + r mod 0x40])"

abbreviation replacement :: bytes where
  "replacement \<equiv> [CHR 0xEF, CHR 0xBF, CHR 0xBD]"

section \<open>Encoding\<close>

abbreviation dquote :: char where "dquote \<equiv> CHR 0x22"
abbreviation bslash :: char where "bslash \<equiv> CHR 0x5C"

text \<open>
  Escapes of the encoder with HTML escaping. \<open>short\<close> tells whether the release has the short
  forms of backspace and form feed (Go 1.22 and later: the browser client; not the proxy).
\<close>

definition json_escape :: "bool \<Rightarrow> char \<Rightarrow> string" where
  "json_escape short c =
     (if c = dquote \<or> c = bslash then [bslash, c]
      else if c = CHR 0x0A then bslash # ''n''
      else if c = CHR 0x0D then bslash # ''r''
      else if c = CHR 0x09 then bslash # ''t''
      else if short \<and> c = CHR 0x08 then bslash # ''b''
      else if short \<and> c = CHR 0x0C then bslash # ''f''
      else if (of_char c :: nat) < 32 \<or> c = CHR ''<'' \<or> c = CHR ''>'' \<or> c = CHR ''&''
      then bslash # ''u00'' @ hex [c]
      else [c])"

function encode_body :: "bool \<Rightarrow> bytes \<Rightarrow> string" where
  "encode_body short s =
     (if s = [] then []
      else if (of_char (hd s) :: nat) < 128 then json_escape short (hd s) @ encode_body short (tl s)
      else let n = rune_len s in
        if n = 0 then bslash # ''ufffd'' @ encode_body short (tl s)
        else if take n s = [CHR 0xE2, CHR 0x80, CHR 0xA8] then bslash # ''u2028'' @ encode_body short (drop n s)
        else if take n s = [CHR 0xE2, CHR 0x80, CHR 0xA9] then bslash # ''u2029'' @ encode_body short (drop n s)
        else take n s @ encode_body short (drop n s))"
  by pat_completeness auto
termination by (relation "measure (\<lambda>(_, s). length s)") auto

declare encode_body.simps [simp del]

definition encode_string :: "bool \<Rightarrow> bytes \<Rightarrow> string" where
  "encode_string short s = dquote # encode_body short s @ [dquote]"

section \<open>Parsing\<close>

datatype json = JNull | JBool bool | JNum string | JStr bytes | JArr "json list" | JObj "(bytes \<times> json) list"

definition skip_ws :: "string \<Rightarrow> string" where
  "skip_ws s = dropWhile (\<lambda>c. c = CHR '' '' \<or> c = CHR 0x09 \<or> c = CHR 0x0A \<or> c = CHR 0x0D) s"

definition is_digit :: "char \<Rightarrow> bool" where
  "is_digit c \<longleftrightarrow> 48 \<le> (of_char c :: nat) \<and> (of_char c :: nat) \<le> 57"

definition hexval :: "char \<Rightarrow> int option" where
  "hexval c = (let n = (of_char c :: int) in
     if 48 \<le> n \<and> n \<le> 57 then Some (n - 48) else if 97 \<le> n \<and> n \<le> 102 then Some (n - 87)
     else if 65 \<le> n \<and> n \<le> 70 then Some (n - 55) else None)"

definition prepend :: "string \<Rightarrow> (string \<times> string) option \<Rightarrow> (string \<times> string) option" where
  "prepend p r = map_option (\<lambda>(a, b). (p @ a, b)) r"

text \<open>The raw text of a string literal after the opening quote, and the rest of the input.\<close>

fun scan_string :: "string \<Rightarrow> (string \<times> string) option" where
  "scan_string [] = None"
| "scan_string (c # s) =
     (if c = dquote then Some ([], s)
      else if c = bslash then
        (case s of
           [] \<Rightarrow> None
         | e # s1 \<Rightarrow>
             if e \<in> {dquote, bslash, CHR ''/'', CHR ''b'', CHR ''f'', CHR ''n'', CHR ''r'', CHR ''t''}
             then prepend [c, e] (scan_string s1)
             else if e = CHR ''u'' then
               (case s1 of
                  h1 # h2 # h3 # h4 # s2 \<Rightarrow>
                    if hexval h1 \<noteq> None \<and> hexval h2 \<noteq> None \<and> hexval h3 \<noteq> None \<and> hexval h4 \<noteq> None
                    then prepend [c, e, h1, h2, h3, h4] (scan_string s2) else None
                | _ \<Rightarrow> None)
             else None)
      else if (of_char c :: nat) < 32 then None
      else prepend [c] (scan_string s))"

definition hex4 :: "char \<Rightarrow> char \<Rightarrow> char \<Rightarrow> char \<Rightarrow> int" where
  "hex4 a b c d = (let v = (\<lambda>x. case hexval x of Some n \<Rightarrow> n | None \<Rightarrow> 0)
     in ((v a * 16 + v b) * 16 + v c) * 16 + v d)"

definition unescape :: "char \<Rightarrow> char" where
  "unescape e = (if e = CHR ''b'' then CHR 0x08 else if e = CHR ''f'' then CHR 0x0C
     else if e = CHR ''n'' then CHR 0x0A else if e = CHR ''r'' then CHR 0x0D
     else if e = CHR ''t'' then CHR 0x09 else e)"

function unquote :: "string \<Rightarrow> bytes" where
  "unquote s =
     (case s of
        [] \<Rightarrow> []
      | c # s1 \<Rightarrow>
          if c = bslash then
            (case s1 of
               [] \<Rightarrow> []
             | e # s2 \<Rightarrow>
                 if e = CHR ''u'' then
                   (let r = hex4 (s2 ! 0) (s2 ! 1) (s2 ! 2) (s2 ! 3); s3 = drop 4 s2 in
                    if 0xD800 \<le> r \<and> r < 0xE000 then
                      (let r2 = (if 6 \<le> length s3 \<and> s3 ! 0 = bslash \<and> s3 ! 1 = CHR ''u''
                                 then hex4 (s3 ! 2) (s3 ! 3) (s3 ! 4) (s3 ! 5) else 0)
                       in if r < 0xDC00 \<and> 0xDC00 \<le> r2 \<and> r2 < 0xE000
                          then utf8_encode ((r - 0xD800) * 0x400 + (r2 - 0xDC00) + 0x10000) @ unquote (drop 6 s3)
                          else replacement @ unquote s3)
                    else utf8_encode r @ unquote s3)
                 else unescape e # unquote s2)
          else if (of_char c :: nat) < 128 then c # unquote s1
          else let n = rune_len s in
            if n = 0 then replacement @ unquote s1 else take n s @ unquote (drop n s))"
  by pat_completeness auto
termination by (relation "measure length") auto

declare unquote.simps [simp del]

text \<open>Number literals: an optional sign, an integer part without leading zeros, fraction, exponent.\<close>

definition scan_frac :: "string \<Rightarrow> (string \<times> string) option" where
  "scan_frac s =
     (if HasPrefix s ''.'' then
        (if takeWhile is_digit (drop 1 s) = [] then None
         else Some (''.'' @ takeWhile is_digit (drop 1 s), dropWhile is_digit (drop 1 s)))
      else Some ([], s))"

definition scan_exp :: "string \<Rightarrow> (string \<times> string) option" where
  "scan_exp s =
     (if HasPrefix s ''e'' \<or> HasPrefix s ''E'' then
        (let t = drop 1 s; k = (if HasPrefix t ''+'' \<or> HasPrefix t ''-'' then 1 else 0); u = drop k t
         in if takeWhile is_digit u = [] then None
            else Some (take 1 s @ take k t @ takeWhile is_digit u, dropWhile is_digit u))
      else Some ([], s))"

definition scan_number :: "string \<Rightarrow> (string \<times> string) option" where
  "scan_number s =
     (let k = (if HasPrefix s ''-'' then 1 else 0); t = drop k s; ds = takeWhile is_digit t;
          ip = (if HasPrefix ds ''0'' then ''0'' else ds)
      in if ip = [] then None
         else case scan_frac (drop (length ip) t) of
           None \<Rightarrow> None
         | Some (fr, u) \<Rightarrow>
             (case scan_exp u of None \<Rightarrow> None | Some (ex, v) \<Rightarrow> Some (take k s @ ip @ fr @ ex, v)))"

lemma length_skip_ws: "length (skip_ws s) \<le> length s"
  by (simp add: skip_ws_def length_dropWhile_le)

text \<open>
  The recursive descent. The tests \<open>length \<dots> < length s\<close> always succeed, because a value has at
  least one character; they make the termination of the parser evident.
\<close>

function parse_value :: "string \<Rightarrow> (json \<times> string) option"
  and parse_arr :: "string \<Rightarrow> (json list \<times> string) option"
  and parse_obj :: "string \<Rightarrow> ((bytes \<times> json) list \<times> string) option"
where
  "parse_value s =
     (case skip_ws s of
        [] \<Rightarrow> None
      | c # t \<Rightarrow>
          if c = dquote then map_option (\<lambda>(r, u). (JStr (unquote r), u)) (scan_string t)
          else if c = CHR ''{'' then
            (if HasPrefix (skip_ws t) ''}'' then Some (JObj [], drop 1 (skip_ws t))
             else map_option (\<lambda>(ms, u). (JObj ms, u)) (parse_obj t))
          else if c = CHR ''['' then
            (if HasPrefix (skip_ws t) '']'' then Some (JArr [], drop 1 (skip_ws t))
             else map_option (\<lambda>(vs, u). (JArr vs, u)) (parse_arr t))
          else if HasPrefix (c # t) ''true'' then Some (JBool True, drop 3 t)
          else if HasPrefix (c # t) ''false'' then Some (JBool False, drop 4 t)
          else if HasPrefix (c # t) ''null'' then Some (JNull, drop 3 t)
          else map_option (\<lambda>(l, u). (JNum l, u)) (scan_number (c # t)))"
| "parse_arr s =
     (case parse_value s of
        None \<Rightarrow> None
      | Some (v, t) \<Rightarrow>
          (case skip_ws t of
             [] \<Rightarrow> None
           | d # u \<Rightarrow>
               if d = CHR '']'' then Some ([v], u)
               else if d = CHR '','' \<and> length u < length s
               then map_option (\<lambda>(vs, w). (v # vs, w)) (parse_arr u)
               else None))"
| "parse_obj s =
     (case skip_ws s of
        [] \<Rightarrow> None
      | c # s1 \<Rightarrow>
          if c \<noteq> dquote then None
          else case scan_string s1 of
            None \<Rightarrow> None
          | Some (k, s2) \<Rightarrow>
              (case skip_ws s2 of
                 [] \<Rightarrow> None
               | d # s3 \<Rightarrow>
                   if d \<noteq> CHR '':'' \<or> \<not> length s3 < length s then None
                   else case parse_value s3 of
                     None \<Rightarrow> None
                   | Some (v, s4) \<Rightarrow>
                       (case skip_ws s4 of
                          [] \<Rightarrow> None
                        | e # s5 \<Rightarrow>
                            if e = CHR ''}'' then Some ([(unquote k, v)], s5)
                            else if e = CHR '','' \<and> length s5 < length s
                            then map_option (\<lambda>(ms, w). ((unquote k, v) # ms, w)) (parse_obj s5)
                            else None)))"
  by pat_completeness auto
termination
proof (relation "measure (\<lambda>x. case x of Inl s \<Rightarrow> 2 * length s | Inr (Inl s) \<Rightarrow> 2 * length s + 1
    | Inr (Inr s) \<Rightarrow> 2 * length s + 1)", goal_cases)
  case (2 s c t)
  then show ?case using length_skip_ws [of s] by simp
next
  case (3 s c t)
  then show ?case using length_skip_ws [of s] by simp
qed auto

declare parse_value.simps [simp del] parse_arr.simps [simp del] parse_obj.simps [simp del]

section \<open>Decoding into structs\<close>

text \<open>
  A member sets a field when its key equals the field's name up to case folding, which also
  identifies the long s and the Kelvin sign with their letters.
\<close>

fun fold_key :: "bytes \<Rightarrow> bytes" where
  "fold_key (a # b # c # s) =
     (if [a, b, c] = [CHR 0xE2, CHR 0x84, CHR 0xAA] then CHR ''k'' # fold_key s
      else if [a, b] = [CHR 0xC5, CHR 0xBF] then CHR ''s'' # fold_key (c # s)
      else lower_char a # fold_key (b # c # s))"
| "fold_key [a, b] = (if [a, b] = [CHR 0xC5, CHR 0xBF] then ''s'' else [lower_char a, lower_char b])"
| "fold_key [a] = [lower_char a]"
| "fold_key [] = []"

text \<open>Assigning a value to a field: the new contents and whether the type is wrong.\<close>

definition set_string :: "json \<Rightarrow> string \<Rightarrow> string \<times> bool" where
  "set_string v old = (case v of JStr x \<Rightarrow> (x, False) | JNull \<Rightarrow> (old, False) | _ \<Rightarrow> (old, True))"

definition set_int :: "json \<Rightarrow> int \<Rightarrow> int \<times> bool" where
  "set_int v old =
     (case v of
        JNum l \<Rightarrow> (case ParseInt64 l of Some n \<Rightarrow> (n, False) | None \<Rightarrow> (old, True))
      | JNull \<Rightarrow> (old, False)
      | _ \<Rightarrow> (old, True))"

definition set_strings :: "json \<Rightarrow> string list \<Rightarrow> string list \<times> bool" where
  "set_strings v old =
     (case v of
        JArr vs \<Rightarrow> (map (\<lambda>x. fst (set_string x [])) vs, list_ex (\<lambda>x. snd (set_string x [])) vs)
      | JNull \<Rightarrow> ([], False)
      | _ \<Rightarrow> (old, True))"

text \<open>
  \<open>decode_struct put zero\<close> folds the members over the struct, \<open>put\<close> handling one member; a type
  error is remembered and reported at the end. \<open>Unmarshal\<close> wants the whole input to be one
  value, \<open>Decode\<close> takes the first value of the stream.
\<close>

definition decode_struct :: "(bytes \<Rightarrow> json \<Rightarrow> 'a \<Rightarrow> 'a \<times> bool) \<Rightarrow> 'a \<Rightarrow> json \<Rightarrow> 'a option" where
  "decode_struct put zero v =
     (case v of
        JObj ms \<Rightarrow>
          (case foldl (\<lambda>(st, bad) (k, x). case put (fold_key k) x st of (st', b) \<Rightarrow> (st', bad \<or> b)) (zero, False) ms of
             (st, bad) \<Rightarrow> if bad then None else Some st)
      | JNull \<Rightarrow> Some zero
      | _ \<Rightarrow> None)"

definition Unmarshal :: "(bytes \<Rightarrow> json \<Rightarrow> 'a \<Rightarrow> 'a \<times> bool) \<Rightarrow> 'a \<Rightarrow> string \<Rightarrow> 'a option" where
  "Unmarshal put zero s =
     (case parse_value s of
        None \<Rightarrow> None
      | Some (v, rest) \<Rightarrow> if skip_ws rest = [] then decode_struct put zero v else None)"

definition Decode :: "(bytes \<Rightarrow> json \<Rightarrow> 'a \<Rightarrow> 'a \<times> bool) \<Rightarrow> 'a \<Rightarrow> string \<Rightarrow> 'a option" where
  "Decode put zero s = (case parse_value s of None \<Rightarrow> None | Some (v, rest) \<Rightarrow> decode_struct put zero v)"

text \<open>The struct \<open>{Host string; Port int}\<close> of the connection requests, and its encoding.\<close>

definition put_host_port :: "bytes \<Rightarrow> json \<Rightarrow> string \<times> int \<Rightarrow> (string \<times> int) \<times> bool" where
  "put_host_port k v st =
     (case st of (h, p) \<Rightarrow>
        if k = ''host'' then (case set_string v h of (h', b) \<Rightarrow> ((h', p), b))
        else if k = ''port'' then (case set_int v p of (p', b) \<Rightarrow> ((h, p'), b))
        else (st, False))"

definition json_quoted :: "string \<Rightarrow> string" where
  "json_quoted s = dquote # s @ [dquote]"

definition marshal_host_port :: "bool \<Rightarrow> string \<Rightarrow> int \<Rightarrow> string" where
  "marshal_host_port short h p =
     ''{'' @ json_quoted ''Host'' @ '':'' @ encode_string short h @ '','' @ json_quoted ''Port'' @ '':'' @ FormatInt p @ ''}''"

section \<open>Round trip\<close>

definition ascii :: "bytes \<Rightarrow> bool" where
  "ascii s \<longleftrightarrow> (\<forall>c \<in> set s. (of_char c :: nat) < 128)"

lemma hexval_hexdigit: "n < 16 \<Longrightarrow> hexval (hexdigit n) = Some (int n)"
proof -
  assume "n < 16"
  then have "n \<in> set [0..<16]" by simp
  moreover have "\<forall>m \<in> set [0..<16]. hexval (hexdigit m) = Some (int m)" by code_simp
  ultimately show ?thesis by blast
qed

lemma hex_byte:
  obtains h l where "hex [c] = [h, l]" "hexval h \<noteq> None" "hexval l \<noteq> None"
    "hex4 (CHR ''0'') (CHR ''0'') h l = of_char c"
proof -
  have c: "(of_char c :: nat) < 256" by simp
  then have d: "(of_char c :: nat) div 16 < 16" "(of_char c :: nat) mod 16 < 16" by arith simp
  have "int (of_char c div 16) * 16 + int (of_char c mod 16) = of_char c"
    by (metis mult.commute mult_div_mod_eq of_nat_add of_nat_mult of_nat_numeral of_nat_of_char)
  moreover have "hexval (CHR ''0'') = Some 0" by code_simp
  ultimately show ?thesis
    using hexval_hexdigit [OF d(1)] hexval_hexdigit [OF d(2)]
    by (intro that [of "hexdigit (of_char c div 16)" "hexdigit (of_char c mod 16)"]) (simp_all add: hex_def hex4_def)
qed

text \<open>The three shapes of an encoded ASCII character.\<close>

lemma json_escape_cases:
  obtains (short) e where "json_escape short c = [bslash, e]" "unescape e = c" "e \<noteq> CHR ''u''"
      "e \<in> {dquote, bslash, CHR ''/'', CHR ''b'', CHR ''f'', CHR ''n'', CHR ''r'', CHR ''t''}"
  | (hex) h l where "json_escape short c = [bslash, CHR ''u'', CHR ''0'', CHR ''0'', h, l]"
      "hexval h \<noteq> None" "hexval l \<noteq> None" "hex4 (CHR ''0'') (CHR ''0'') h l = of_char c"
  | (plain) "json_escape short c = [c]" "c \<noteq> dquote" "c \<noteq> bslash" "32 \<le> (of_char c :: nat)"
proof (cases "c \<in> {dquote, bslash, CHR 0x0A, CHR 0x0D, CHR 0x09} \<or> short \<and> c \<in> {CHR 0x08, CHR 0x0C}")
  case True
  then show ?thesis using that(1) by (auto simp: json_escape_def unescape_def)
next
  case False
  show ?thesis
  proof (cases "(of_char c :: nat) < 32 \<or> c = CHR ''<'' \<or> c = CHR ''>'' \<or> c = CHR ''&''")
    case True
    obtain h l where hl: "hex [c] = [h, l]" "hexval h \<noteq> None" "hexval l \<noteq> None"
      "hex4 (CHR ''0'') (CHR ''0'') h l = of_char c" by (rule hex_byte)
    have "json_escape short c = [bslash, CHR ''u'', CHR ''0'', CHR ''0'', h, l]"
      using False True hl(1) unfolding json_escape_def by auto
    then show ?thesis using hl(2-4) by (rule that(2))
  next
    case plain: False
    with False show ?thesis by (intro that(3)) (auto simp: json_escape_def)
  qed
qed

lemma hexval_0: "hexval (CHR ''0'') = Some 0"
  by code_simp

lemma scan_string_escape:
  "scan_string (json_escape short c @ s) = prepend (json_escape short c) (scan_string s)"
  by (cases rule: json_escape_cases [of short c]) (auto simp: hexval_0)

lemma unquote_escape:
  assumes "(of_char c :: nat) < 128"
  shows "unquote (json_escape short c @ s) = c # unquote s"
proof (cases rule: json_escape_cases [of short c])
  case (short e)
  then show ?thesis by (subst unquote.simps) simp
next
  case (hex h l)
  have "int (of_char c) < 128" using assms by linarith
  then have c: "(of_char c :: int) < 128" unfolding of_nat_of_char .
  have "utf8_encode (of_char c) = [c]" using c by (simp add: utf8_encode_def)
  moreover have "nth (CHR ''0'' # CHR ''0'' # h # l # s) 2 = h" "nth (CHR ''0'' # CHR ''0'' # h # l # s) 3 = l"
    by (simp_all add: numeral_2_eq_2 numeral_3_eq_3)
  ultimately show ?thesis using hex c by (subst unquote.simps) (simp add: Let_def)
next
  case plain
  then show ?thesis using assms by (subst unquote.simps) simp
qed

lemma ascii_Cons [simp]: "ascii (c # s) \<longleftrightarrow> (of_char c :: nat) < 128 \<and> ascii s"
  by (simp add: ascii_def)

lemma encode_body_ascii:
  "ascii s \<Longrightarrow> encode_body short s = concat (map (json_escape short) s)"
proof (induction s)
  case (Cons c s)
  then show ?case by (subst encode_body.simps) simp
qed (simp add: encode_body.simps)

lemma prepend_Some [simp]: "prepend p (Some (a, b)) = Some (p @ a, b)"
  by (simp add: prepend_def)

lemma scan_encoded:
  "ascii s \<Longrightarrow> scan_string (encode_body short s @ dquote # rest) = Some (encode_body short s, rest)"
  unfolding encode_body_ascii by (induction s) (simp_all add: scan_string_escape)

lemma unquote_encoded: "ascii s \<Longrightarrow> unquote (encode_body short s) = s"
proof -
  assume "ascii s"
  then have "unquote (concat (map (json_escape short) s)) = s"
    by (induction s) (simp_all add: unquote_escape unquote.simps [of "[]"])
  then show ?thesis using \<open>ascii s\<close> by (simp add: encode_body_ascii)
qed

text \<open>A decimal integer is scanned as a whole when no digit, dot or exponent follows.\<close>

lemma takeWhile_digits:
  "(\<forall>c \<in> set ds. is_digit c) \<Longrightarrow> \<not> (rest \<noteq> [] \<and> is_digit (hd rest)) \<Longrightarrow>
   takeWhile is_digit (ds @ rest) = ds \<and> dropWhile is_digit (ds @ rest) = rest"
  by (cases rest) auto

lemma dec_is_digit: "0 \<le> n \<Longrightarrow> \<forall>c \<in> set (dec n). is_digit c"
proof -
  assume "0 \<le> n"
  moreover have "\<forall>c \<in> set ''0123456789''. is_digit c" by code_simp
  ultimately show ?thesis using set_dec by blast
qed

lemma dec_0: "dec 0 = ''0''"
  by code_simp

lemma dec_leading: "0 \<le> n \<Longrightarrow> hd (dec n) = CHR ''0'' \<Longrightarrow> dec n = ''0''"
proof (induction n rule: dec.induct)
  case (1 n)
  show ?case
  proof (cases "n < 10")
    case True
    then show ?thesis using "1.prems" by (simp add: dec.simps [of n])
  next
    case False
    then have "hd (dec (n div 10)) = CHR ''0''" using "1.prems"(2) by (simp add: dec.simps [of n])
    then have "dec (n div 10) = ''0''" using 1 False by simp
    then have "Some 0 = Some (n div 10)"
      using read_digits_dec [of "n div 10"] read_digits_dec [of 0] False dec_0 by simp
    then show ?thesis using False by simp
  qed
qed

lemma scan_tail:
  assumes "\<not> HasPrefix t ''.''" "\<not> HasPrefix t ''e''" "\<not> HasPrefix t ''E''"
  shows "scan_frac t = Some ([], t)" "scan_exp t = Some ([], t)"
  using assms by (simp_all add: scan_frac_def scan_exp_def)

lemma scan_number_FormatInt:
  assumes "hd t \<in> {CHR '','', CHR ''}''}" and "t \<noteq> []"
  shows "scan_number (FormatInt p @ t) = Some (FormatInt p, t)"
proof -
  have nodigit: "\<not> is_digit (hd t)" using assms(1) by (auto simp: is_digit_def)
  have tail: "scan_frac t = Some ([], t)" "scan_exp t = Some ([], t)"
    using assms by (auto intro!: scan_tail simp: HasPrefix_def neq_Nil_conv)
  have num: "takeWhile is_digit (dec n @ t) = dec n" "HasPrefix (dec n) ''0'' \<Longrightarrow> dec n = ''0''"
    if "0 \<le> n" for n
  proof -
    show "takeWhile is_digit (dec n @ t) = dec n"
      using takeWhile_digits [OF dec_is_digit [OF that], of t] nodigit by simp
    show "dec n = ''0''" if "HasPrefix (dec n) ''0''"
      using that dec_leading [OF \<open>0 \<le> n\<close>] by (cases "dec n") (auto simp: HasPrefix_def)
  qed
  show ?thesis
  proof (cases "p < 0")
    case True
    then have "FormatInt p = CHR ''-'' # dec (- p)" by (simp add: FormatInt_def)
    moreover have "HasPrefix (CHR ''-'' # u) ''-''" for u by (simp add: HasPrefix_def)
    ultimately show ?thesis using num [of "- p"] True tail
      by (cases "HasPrefix (dec (- p)) ''0''") (simp_all add: scan_number_def Let_def)
  next
    case False
    then have f: "FormatInt p = dec p" by (simp add: FormatInt_def)
    have "\<not> HasPrefix (dec p @ t) ''-''"
      using dec_no_sign [of p] False by (cases "dec p") (auto simp: HasPrefix_def)
    with num [of p] False tail f show ?thesis
      by (cases "HasPrefix (dec p) ''0''") (simp_all add: scan_number_def Let_def)
  qed
qed

lemma FormatInt_head: "\<exists>c s. FormatInt p = c # s \<and> c \<in> set ''-0123456789''"
  using set_FormatInt [of p] FormatInt_not_Nil [of p] by (cases "FormatInt p") auto

lemma skip_ws_Cons: "c \<notin> {CHR '' '', CHR 0x09, CHR 0x0A, CHR 0x0D} \<Longrightarrow> skip_ws (c # s) = c # s"
  by (simp add: skip_ws_def)

lemma parse_value_int:
  assumes "hd t \<in> {CHR '','', CHR ''}''}" and "t \<noteq> []"
  shows "parse_value (FormatInt p @ t) = Some (JNum (FormatInt p), t)"
proof -
  obtain c s where c: "FormatInt p = c # s" "c \<in> set ''-0123456789''" using FormatInt_head by blast
  have "c \<notin> {CHR '' '', CHR 0x09, CHR 0x0A, CHR 0x0D}" "c \<notin> {dquote, CHR ''{'', CHR ''['', CHR ''t'', CHR ''f'', CHR ''n''}"
    using c(2) by auto
  then show ?thesis
    using scan_number_FormatInt [OF assms, of p] c(1)
    by (subst parse_value.simps) (simp add: skip_ws_Cons HasPrefix_def)
qed

lemma parse_value_string:
  "ascii h \<Longrightarrow> parse_value (encode_string short h @ t) = Some (JStr h, t)"
  by (subst parse_value.simps) (simp add: encode_string_def skip_ws_Cons scan_encoded unquote_encoded)

lemma marshal_parse:
  assumes "ascii h"
  shows "parse_value (marshal_host_port short h p @ rest) =
    Some (JObj [(''Host'', JStr h), (''Port'', JNum (FormatInt p))], rest)"
proof -
  let ?v2 = "FormatInt p @ ''}'' @ rest"
  let ?m2 = "json_quoted ''Port'' @ '':'' @ ?v2"
  let ?v1 = "encode_string short h @ '','' @ ?m2"
  have key: "scan_string (''Host'' @ dquote # t) = Some (''Host'', t)" "scan_string (''Port'' @ dquote # t) = Some (''Port'', t)" for t
    by simp_all
  have uq: "unquote ''Host'' = ''Host''" "unquote ''Port'' = ''Port''" by code_simp+
  have v2: "parse_value ?v2 = Some (JNum (FormatInt p), ''}'' @ rest)" by (rule parse_value_int) simp_all
  have m2: "parse_obj ?m2 = Some ([(''Port'', JNum (FormatInt p))], rest)"
    using v2 key(2) uq(2) by (subst parse_obj.simps) (simp add: json_quoted_def skip_ws_Cons)
  have v1: "parse_value ?v1 = Some (JStr h, '','' @ ?m2)" using assms by (rule parse_value_string)
  have m1: "parse_obj (json_quoted ''Host'' @ '':'' @ ?v1) = Some ([(''Host'', JStr h), (''Port'', JNum (FormatInt p))], rest)"
    using v1 m2 key(1) uq(1) by (subst parse_obj.simps) (simp add: json_quoted_def skip_ws_Cons)
  show ?thesis
    using m1 by (subst parse_value.simps) (simp add: marshal_host_port_def json_quoted_def skip_ws_Cons HasPrefix_def)
qed

lemma fold_keys: "fold_key ''Host'' = ''host''" "fold_key ''Port'' = ''port''"
  by code_simp+

lemma decode_host_port:
  "in_i64 p \<Longrightarrow> decode_struct put_host_port ([], 0) (JObj [(''Host'', JStr h), (''Port'', JNum (FormatInt p))]) = Some (h, p)"
  by (simp add: decode_struct_def put_host_port_def set_string_def set_int_def ParseInt64_FormatInt fold_keys del: fold_key.simps)

end
