(* ===== verification/Proxy.thy ===== *)
theory Proxy
  imports Relay GoJson
begin

text \<open>
  One websocket of the proxy (\<open>src/proxy/main.go\<close>, \<open>handleWss\<close>): source check, obfuscation,
  connection request, target check, dial, relay, and the deferred clean-up; the process state it
  shares with the other connections; the shutdown loop and the keep-alive. Outcomes of system
  calls (dialling, deadlines, the interleaving of the two copies) are arguments.
\<close>

section \<open>State\<close>

record ('f, 'l) proxy =
  px_sources :: "('f, 'l) sources"
  px_targets :: targets
  px_bandwidth :: "'f bandwidth"
  auditLog :: "string option"
  activeWebsocks :: int
  totalConnectionRequests :: int
  totalConnections :: int
  activeConnections :: int
  px_bytes_up :: int
  px_bytes_down :: int
  px_dials :: "(string \<times> int) list"

section \<open>The handler\<close>

record wss =
  ws_conn :: conn
  ws_header :: header
  ws_remote :: string
  ws_id :: string

text \<open>Outcomes of the calls into the system: the clock, deadlines, the dialler, the schedule of the relay.\<close>

record wss_env =
  we_now :: "nat \<Rightarrow> instant"
  we_deadline :: "nat \<Rightarrow> io_error option"
  we_dial :: "string \<Rightarrow> int \<Rightarrow> conn io"
  we_sched :: "bool list"
  we_fmt :: "instant \<Rightarrow> string"
  we_err :: "io_error \<Rightarrow> string"

datatype wss_end = Refused | NoDeadline | NoRequest | BadRequest | Forbidden | DialFailed | Relayed

abbreviation ok_response :: string where
  "ok_response \<equiv> ''{'' @ json_quoted ''status'' @ '':'' @ json_quoted ''ok'' @ ''}''"

text \<open>The error text is omitted when it is empty.\<close>

definition failed_response :: "string \<Rightarrow> string" where
  "failed_response msg = ''{'' @ json_quoted ''status'' @ '':'' @ json_quoted ''failed''
     @ (if msg = [] then [] else '','' @ json_quoted ''error'' @ '':'' @ encode_string False msg) @ ''}''"

definition err_text :: "(io_error \<Rightarrow> string) \<Rightarrow> io_error option \<Rightarrow> string" where
  "err_text f e = (case e of None \<Rightarrow> ''<nil>'' | Some x \<Rightarrow> f x)"

definition finished_msg :: "(io_error \<Rightarrow> string) \<Rightarrow> copying \<Rightarrow> copying \<Rightarrow> string" where
  "finished_msg f up down =
     ''proxy finished copied ('' @ FormatInt (moved up) @ ''/'' @ FormatInt (moved down) @ '')bytes anyerrors (''
     @ err_text f (copy_error up) @ '','' @ err_text f (copy_error down) @ '')''"

definition audit :: "wss_env \<Rightarrow> nat \<Rightarrow> string \<Rightarrow> string \<Rightarrow> int \<Rightarrow> string \<Rightarrow> ('f, 'l) proxy \<Rightarrow> ('f, 'l) proxy" where
  "audit E i src host port msg st =
     st\<lparr>auditLog := writeAuditLog (we_fmt E) (we_now E i) src host port msg (auditLog st)\<rparr>"

text \<open>The relay runs on the state of this connection and the shared traffic counters.\<close>

definition run_copies ::
  "('f, 'l) ratelib \<Rightarrow> curve \<Rightarrow> rng \<Rightarrow> bool list \<Rightarrow> conn \<Rightarrow> transport \<Rightarrow> ('f, 'l) proxy \<Rightarrow>
   (copying \<times> copying \<times> ('f, 'l) proxy) res" where
  "run_copies R X g sched target tr st =
     (case newLimters R (px_bandwidth st) of (lim, cw, wsw) \<Rightarrow>
        bind_res (run_relay R (px_bandwidth st) X g sched
            \<lparr>rl_target = target, rl_tr = tr, rl_limiter = lim, rl_cw = cw, rl_wsw = wsw,
             rl_up = px_bytes_up st, rl_down = px_bytes_down st\<rparr>)
          (\<lambda>(up, down, s). Returns (up, down, st\<lparr>px_bytes_up := rl_up s, px_bytes_down := rl_down s\<rparr>)))"

text \<open>After the dial: answer, count, relay both ways and log.\<close>

definition relay ::
  "('f, 'l) ratelib \<Rightarrow> curve \<Rightarrow> rng \<Rightarrow> wss_env \<Rightarrow> string \<Rightarrow> string \<Rightarrow> int \<Rightarrow> conn \<Rightarrow> transport \<Rightarrow> ('f, 'l) proxy \<Rightarrow>
   (wss_end \<times> ('f, 'l) proxy) res" where
  "relay R X g E src host port target tr st =
     bind_res (tr_Write X g ok_response tr) (\<lambda>(_, tr').
       let st1 = audit E 2 src host port ''connection established''
                   (st\<lparr>totalConnections := totalConnections st + 1, activeConnections := activeConnections st + 1\<rparr>)
       in bind_res (run_copies R X g (we_sched E) target tr' st1) (\<lambda>(up, down, st2).
            Returns (Relayed, audit E 3 src host port (finished_msg (we_err E) up down) st2)))"

definition connect ::
  "('f, 'l) ratelib \<Rightarrow> curve \<Rightarrow> rng \<Rightarrow> wss_env \<Rightarrow> string \<Rightarrow> string \<Rightarrow> int \<Rightarrow> transport \<Rightarrow> ('f, 'l) proxy \<Rightarrow>
   (wss_end \<times> ('f, 'l) proxy) res" where
  "connect R X g E src host port tr st =
     (let st0 = audit E 1 src host port ''connection request'' st in
      case isAllowedTarger host (px_targets st0) of (allowed, tg) \<Rightarrow>
        let st1 = st0\<lparr>px_targets := tg\<rparr> in
        if \<not> allowed then Returns (Forbidden, st1)
        else let st2 = st1\<lparr>px_dials := px_dials st1 @ [(host, port)]\<rparr> in
          (case we_dial E host port of
             Inl e \<Rightarrow>
               let st3 = audit E 2 src host port ''connection failed'' st2 in
               bind_res (tr_Write X g (failed_response (we_err E e)) tr) (\<lambda>_. Returns (DialFailed, st3))
           | Inr target \<Rightarrow> relay R X g E src host port target tr st2))"

definition wss_body ::
  "('f, 'l) ratelib \<Rightarrow> environ \<Rightarrow> curve \<Rightarrow> rng \<Rightarrow> wss_env \<Rightarrow> wss \<Rightarrow> ('f, 'l) proxy \<Rightarrow>
   (wss_end \<times> ('f, 'l) proxy) res" where
  "wss_body R env X g E ws st =
     bind_res (logFromID (ws_id ws)) (\<lambda>_.
       case getIPAdress R (we_now E 0) (ws_header ws) (ws_remote ws) (px_sources st) of ((blocked, ips), srcs) \<Rightarrow>
         let st1 = st\<lparr>px_sources := srcs\<rparr> in
         if blocked then Returns (Refused, st1)
         else
           let st2 = st1\<lparr>totalConnectionRequests := totalConnectionRequests st1 + 1\<rparr>;
               tr = (if obfsEnabled env then Wrapped (newObfConn (ws_conn ws) True (obfsPSK env)) else Plain (ws_conn ws))
           in if we_deadline E 0 \<noteq> None then Returns (NoDeadline, st2)
              else bind_res (tr_Read X g 2048 tr) (\<lambda>(r, tr').
                case r of
                  Inl e \<Rightarrow> Returns (NoRequest, st2)
                | Inr b \<Rightarrow>
                    (case Decode put_host_port ([], 0) (b @ replicate (2048 - length b) (CHR 0x00)) of
                       None \<Rightarrow> Returns (BadRequest, st2)
                     | Some (host, port) \<Rightarrow>
                         if we_deadline E 1 \<noteq> None then Returns (NoDeadline, st2)
                         else connect R X g E (hd ips) host port tr' st2)))"

text \<open>The deferred function runs on every exit; the gauge is set only by a relay.\<close>

definition handleWss ::
  "('f, 'l) ratelib \<Rightarrow> environ \<Rightarrow> curve \<Rightarrow> rng \<Rightarrow> wss_env \<Rightarrow> wss \<Rightarrow> ('f, 'l) proxy \<Rightarrow>
   (wss_end \<times> ('f, 'l) proxy) res" where
  "handleWss R env X g E ws st =
     bind_res (wss_body R env X g E ws (st\<lparr>activeWebsocks := i64 (activeWebsocks st + 1)\<rparr>)) (\<lambda>(x, st').
       Returns (x, st'\<lparr>activeWebsocks := i64 (activeWebsocks st' - 1),
         activeConnections := activeConnections st' - (if x = Relayed then 1 else 0)\<rparr>))"

section \<open>Keep-alive and shutdown\<close>

text \<open>
  \<open>ping\<close> sends an empty frame on every tick until a write fails or the connection is done: the
  number of pings sent for a sequence of events.
\<close>

datatype ping_event = Tick bool | Done

fun ping :: "ping_event list \<Rightarrow> nat" where
  "ping [] = 0"
| "ping (Tick ok # es) = (if ok then Suc (ping es) else 0)"
| "ping (Done # es) = 0"

text \<open>
  The end of \<open>main\<close>: poll the counter of open websockets until it is not positive. \<open>counts\<close> are
  the values of the successive polls; the result is the number of waits, \<open>None\<close> while it waits on.
\<close>

fun await_websockets :: "int list \<Rightarrow> nat \<Rightarrow> nat option" where
  "await_websockets [] wc = None"
| "await_websockets (a # as) wc = (if a \<le> 0 then Some wc else await_websockets as (wc + 1))"

section \<open>The handler: properties\<close>

definition tr_inv :: "transport \<Rightarrow> bool" where
  "tr_inv t = (case t of Plain c \<Rightarrow> True | Wrapped oc \<Rightarrow> obf_inv oc)"

lemma tr_ok_inv: "tr_ok t \<Longrightarrow> tr_inv t"
  by (cases t) (auto simp: tr_ok_def tr_inv_def)

text \<open>The first read runs the handshake.\<close>

lemma tr_Read_returns: "tr_inv t \<Longrightarrow> \<exists>r t'. tr_Read X g n t = Returns (r, t') \<and> tr_ok t'"
proof (cases t)
  case (Plain c)
  then show ?thesis by (auto simp: tr_Read_def tr_ok_def split: prod.split)
next
  case (Wrapped oc)
  assume "tr_inv t"
  with Wrapped obtain r oc' where r: "obf_Read X g n oc = Returns (r, oc')" "obf_inv oc'"
    using obf_Read_returns [of oc X g n] by (auto simp: tr_inv_def)
  have "oc_once oc'"
    using r(1) by (auto simp: obf_Read_def handshake_def split: if_splits prod.splits option.splits sum.splits)
  with r Wrapped show ?thesis by (simp add: tr_Read_def tr_ok_def)
qed

lemma run_copies_returns:
  assumes "tr_ok tr"
  shows "\<exists>up down cu cd. run_copies R X g sched target tr st = Returns (up, down, st\<lparr>px_bytes_up := cu, px_bytes_down := cd\<rparr>)"
proof -
  obtain lim cw wsw where l: "newLimters R (px_bandwidth st) = (lim, cw, wsw)" by (metis prod_cases3)
  with run_relay_spec [of "\<lparr>rl_target = target, rl_tr = tr, rl_limiter = lim, rl_cw = cw, rl_wsw = wsw,
      rl_up = px_bytes_up st, rl_down = px_bytes_down st\<rparr>" R "px_bandwidth st" X g sched] assms
  show ?thesis by (auto simp: run_copies_def) blast
qed

lemma audit_simps [simp]:
  "px_dials (audit E i s h p m st) = px_dials st" "activeWebsocks (audit E i s h p m st) = activeWebsocks st"
  "activeConnections (audit E i s h p m st) = activeConnections st" "px_targets (audit E i s h p m st) = px_targets st"
  "px_sources (audit E i s h p m st) = px_sources st" "px_bandwidth (audit E i s h p m st) = px_bandwidth st"
  by (simp_all add: audit_def)

lemma relay_spec:
  assumes "tr_ok tr"
  shows "\<exists>st'. relay R X g E src host port target tr st = Returns (Relayed, st') \<and> activeWebsocks st' = activeWebsocks st \<and>
     activeConnections st' = activeConnections st + 1 \<and> px_dials st' = px_dials st \<and> px_targets st' = px_targets st \<and>
     px_bandwidth st' = px_bandwidth st"
proof -
  obtain r tr' where w: "tr_Write X g ok_response tr = Returns (r, tr')" "tr_ok tr'"
    using tr_Write_law [OF assms] by blast
  let ?st = "audit E 2 src host port ''connection established''
      (st\<lparr>totalConnections := totalConnections st + 1, activeConnections := activeConnections st + 1\<rparr>)"
  obtain up down cu cd where "run_copies R X g (we_sched E) target tr' ?st =
      Returns (up, down, ?st\<lparr>px_bytes_up := cu, px_bytes_down := cd\<rparr>)"
    using run_copies_returns [OF w(2), of R X g "we_sched E" target ?st] by blast
  with w show ?thesis by (simp add: relay_def Let_def)
qed

text \<open>What \<open>connect\<close> and the body do to the counters, the configuration and the list of dialled targets.\<close>

definition wss_effect :: "bool \<Rightarrow> string list \<Rightarrow> wss_end \<times> ('f, 'l) proxy \<Rightarrow> ('f, 'l) proxy \<Rightarrow> bool" where
  "wss_effect blocked bl r st \<longleftrightarrow>
     activeWebsocks (snd r) = activeWebsocks st \<and>
     activeConnections (snd r) = activeConnections st + (if fst r = Relayed then 1 else 0) \<and>
     blacklistedTargets (px_targets (snd r)) = blacklistedTargets (px_targets st) \<and> px_bandwidth (snd r) = px_bandwidth st \<and>
     (if fst r \<in> {DialFailed, Relayed}
      then \<exists>host port. px_dials (snd r) = px_dials st @ [(host, port)] \<and> host \<notin> set bl \<and> \<not> blocked
      else px_dials (snd r) = px_dials st)"

lemma connect_spec:
  assumes "tr_ok tr" and "\<not> blocked"
  shows "\<exists>r. connect R X g E src host port tr st = Returns r \<and> wss_effect blocked (blacklistedTargets (px_targets st)) r st"
proof (cases "host \<in> set (blacklistedTargets (px_targets st))")
  case True
  then show ?thesis by (simp add: connect_def isAllowedTarger_iff Let_def wss_effect_def)
next
  case False
  let ?st = "(audit E 1 src host port ''connection request'' st)\<lparr>px_targets := (px_targets st)\<lparr>bl_readers := bl_readers (px_targets st)\<rparr>,
      px_dials := px_dials st @ [(host, port)]\<rparr>"
  show ?thesis
  proof (cases "we_dial E host port")
    case (Inl e)
    obtain r tr' where "tr_Write X g (failed_response (we_err E e)) tr = Returns (r, tr')"
      using tr_Write_law [OF assms(1)] by blast
    with Inl False assms(2) show ?thesis
      by (simp add: connect_def isAllowedTarger_iff Let_def wss_effect_def)
  next
    case (Inr target)
    from relay_spec [OF assms(1), of R X g E src host port target ?st] Inr False assms(2) show ?thesis
      by (auto simp: connect_def isAllowedTarger_iff Let_def wss_effect_def)
  qed
qed

lemma wss_body_spec:
  assumes "8 \<le> length (ws_id ws)"
  shows "\<exists>r. wss_body R env X g E ws st = Returns r \<and>
    wss_effect (fst (fst (getIPAdress R (we_now E 0) (ws_header ws) (ws_remote ws) (px_sources st))))
      (blacklistedTargets (px_targets st)) r st"
proof -
  obtain blocked ips srcs where ip: "getIPAdress R (we_now E 0) (ws_header ws) (ws_remote ws) (px_sources st) = ((blocked, ips), srcs)"
    by (metis prod.exhaust)
  let ?tr = "if obfsEnabled env then Wrapped (newObfConn (ws_conn ws) True (obfsPSK env)) else Plain (ws_conn ws)"
  let ?st = "st\<lparr>px_sources := srcs, totalConnectionRequests := totalConnectionRequests st + 1\<rparr>"
  have "tr_inv ?tr" by (simp add: tr_inv_def)
  then obtain r tr' where rd: "tr_Read X g 2048 ?tr = Returns (r, tr')" "tr_ok tr'"
    using tr_Read_returns [of ?tr X g 2048] by blast
  have quiet: "wss_effect blocked bl (x, ?st) st" "wss_effect blocked bl (x, st\<lparr>px_sources := srcs\<rparr>) st"
    if "x \<notin> {DialFailed, Relayed}" for x bl
    using that by (auto simp: wss_effect_def)
  have via: "wss_effect blocked bl q ?st \<Longrightarrow> wss_effect blocked bl q st" for bl q
    by (auto simp: wss_effect_def split: if_splits)
  show ?thesis
  proof (cases "blocked \<or> we_deadline E 0 \<noteq> None \<or> isl r")
    case True
    with ip rd assms quiet show ?thesis
      by (cases r) (auto simp: wss_body_def logFromID_def Let_def)
  next
    case False
    then obtain b where b: "r = Inr b" by (cases r) auto
    show ?thesis
    proof (cases "Decode put_host_port ([], 0) (b @ replicate (2048 - length b) (CHR 0x00))")
      case None
      with False b ip rd assms quiet show ?thesis by (simp add: wss_body_def logFromID_def Let_def)
    next
      case (Some hp)
      obtain host port where hp: "hp = (host, port)" by fastforce
      from connect_spec [OF rd(2), of blocked R X g E "hd ips" host port ?st] False obtain q where
        q: "connect R X g E (hd ips) host port tr' ?st = Returns q" "wss_effect blocked (blacklistedTargets (px_targets st)) q st"
        using via by auto
      show ?thesis
      proof (cases "we_deadline E 1")
        case None
        with Some False b ip rd assms q hp show ?thesis by (simp add: wss_body_def logFromID_def Let_def)
      next
        case (Some e)
        with \<open>Decode _ _ _ = Some hp\<close> False b ip rd assms quiet hp show ?thesis
          by (simp add: wss_body_def logFromID_def Let_def)
      qed
    qed
  qed
qed

text \<open>
  C9. Whatever a client sends and whatever fails, \<open>handleWss\<close> returns (its request identifier
  has eight characters, as \<open>bootHandshake\<close> gives it), and the counters of open websockets and of
  active connections are what they were before: nothing leaks on any path.
\<close>

theorem handleWss_balanced:
  assumes "8 \<le> length (ws_id ws)" and "in_i64 (activeWebsocks st)"
  shows "\<exists>x st'. handleWss R env X g E ws st = Returns (x, st') \<and>
    activeWebsocks st' = activeWebsocks st \<and> activeConnections st' = activeConnections st"
proof -
  let ?st = "st\<lparr>activeWebsocks := i64 (activeWebsocks st + 1)\<rparr>"
  obtain x st1 where "wss_body R env X g E ws ?st = Returns (x, st1)"
    "activeWebsocks st1 = i64 (activeWebsocks st + 1)"
    "activeConnections st1 = activeConnections st + (if x = Relayed then 1 else 0)"
    using wss_body_spec [OF assms(1), of R env X g E ?st] by (auto simp: wss_effect_def)
  moreover have "i64 (i64 (activeWebsocks st + 1) - 1) = activeWebsocks st"
    using i64_add_left [of "activeWebsocks st + 1" "- 1"] assms(2) by simp
  ultimately show ?thesis by (simp add: handleWss_def)
qed

text \<open>
  C10. The proxy dials at most one target per websocket, and only when the source was let in and
  the target is not on the blacklist; on every other exit nothing is dialled.
\<close>

theorem handleWss_dials_allowed:
  assumes "handleWss R env X g E ws st = Returns (x, st')" and "8 \<le> length (ws_id ws)"
  shows "if x \<in> {DialFailed, Relayed}
    then \<exists>host port. px_dials st' = px_dials st @ [(host, port)] \<and>
      host \<notin> set (blacklistedTargets (px_targets st)) \<and>
      \<not> fst (fst (getIPAdress R (we_now E 0) (ws_header ws) (ws_remote ws) (px_sources st)))
    else px_dials st' = px_dials st"
proof -
  let ?st = "st\<lparr>activeWebsocks := i64 (activeWebsocks st + 1)\<rparr>"
  obtain st1 where st': "wss_body R env X g E ws ?st = Returns (x, st1)" "px_dials st' = px_dials st1"
    using assms(1) by (auto simp: handleWss_def bind_res_Returns_iff)
  have "wss_effect (fst (fst (getIPAdress R (we_now E 0) (ws_header ws) (ws_remote ws) (px_sources st))))
      (blacklistedTargets (px_targets st)) (x, st1) ?st"
    using wss_body_spec [OF assms(2), of R env X g E ?st] st'(1) by simp
  then show ?thesis unfolding st'(2) by (auto simp: wss_effect_def split: if_splits)
qed

definition demo_proxy :: "(int, int) proxy" where
  "demo_proxy = \<lparr>px_sources = \<lparr>src_conf = \<lparr>srcConnRate = 1, srcConnBurst = 1, srcLimitEnabled = True\<rparr>,
       sourceRates = (\<lambda>_. None), blacklistedSources = [''10.66.'']\<rparr>,
     px_targets = initial_targets, px_bandwidth = \<lparr>freeLimit = 1073741824, maxLimitedRate = 102400, maxBurst = 65536\<rparr>,
     auditLog = Some [], activeWebsocks = 0, totalConnectionRequests = 0, totalConnections = 0,
     activeConnections = 0, px_bytes_up = 0, px_bytes_down = 0, px_dials = []\<rparr>"

definition demo_wss :: wss where
  "demo_wss = \<lparr>ws_conn = open_conn, ws_header = (\<lambda>k. if k = ''X-Forwarded-For'' then Some [''10.66.0.9''] else None),
     ws_remote = ''<nil>'', ws_id = ''not-uuid''\<rparr>"

definition demo_env :: wss_env where
  "demo_env = \<lparr>we_now = (\<lambda>_. 0), we_deadline = (\<lambda>_. None), we_dial = (\<lambda>_ _. Inr open_conn),
     we_sched = [],
     we_fmt = (\<lambda>_. ''t''), we_err = (\<lambda>_. ''e'')\<rparr>"

definition demo_random :: rng where
  "demo_random = \<lparr>rand_Read = (\<lambda>n. Inr (replicate n (CHR ''s''))), rand_Key = Inr ''k''\<rparr>"

definition demo_group :: curve where
  "demo_group = \<lparr>PublicKey = (\<lambda>a. a), NewPublicKey = (\<lambda>_. None), ECDH = (\<lambda>a b. Inr b)\<rparr>"

theorem handleWss_balanced_witness:
  "\<exists>x st'. handleWss demo_ratelib (\<lambda>_. []) demo_group demo_random demo_env demo_wss demo_proxy = Returns (x, st') \<and>
    activeWebsocks st' = 0"
proof -
  have "8 \<le> length (ws_id demo_wss)" "in_i64 (activeWebsocks demo_proxy)" "activeWebsocks demo_proxy = 0"
    by (simp_all add: demo_wss_def demo_proxy_def in_i64_def)
  then show ?thesis using handleWss_balanced by metis
qed

theorem handleWss_dials_allowed_witness:
  "\<exists>st'. handleWss demo_ratelib (\<lambda>_. []) demo_group demo_random demo_env demo_wss demo_proxy = Returns (Refused, st') \<and>
    px_dials st' = []"
proof -
  have "fst (fst (getIPAdress demo_ratelib (we_now demo_env 0) (ws_header demo_wss) (ws_remote demo_wss) (px_sources demo_proxy)))"
    by code_simp
  then obtain ips srcs where ip: "getIPAdress demo_ratelib (we_now demo_env 0) (ws_header demo_wss) (ws_remote demo_wss)
      (px_sources demo_proxy) = ((True, ips), srcs)" by (metis (full_types) prod.collapse)
  have id: "8 \<le> length (ws_id demo_wss)" by (simp add: demo_wss_def)
  obtain st' where run: "handleWss demo_ratelib (\<lambda>_. []) demo_group demo_random demo_env demo_wss demo_proxy = Returns (Refused, st')"
    using ip id by (simp add: handleWss_def wss_body_def logFromID_def Let_def)
  from handleWss_dials_allowed [OF run id] run show ?thesis by (simp add: demo_proxy_def)
qed

section \<open>Shutdown\<close>

text \<open>
  On shutdown the process waits exactly as long as the counter of open websockets is positive:
  it ends at the first poll that finds none, and never before.
\<close>

theorem shutdown_waits:
  "await_websockets polls wc = Some n \<longleftrightarrow>
     (\<exists>i < length polls. polls ! i \<le> 0 \<and> (\<forall>j < i. 0 < polls ! j) \<and> n = wc + i)"
proof (induction polls wc rule: await_websockets.induct)
  case (2 a as wc)
  then show ?case by (cases "a \<le> 0") (auto simp: Ex_less_Suc2 All_less_Suc2)
qed simp

end
