(* ===== verification/Mux.thy ===== *)
theory Mux
  imports Proxy
begin

text \<open>
  The proxy's side of the stream multiplexer (\<open>src/proxy/mux.go\<close>): the length-prefixed header
  of a stream, the handler of one stream and the accept loop of a session. A yamux stream is a
  \<open>conn\<close>; the session itself is represented by the streams it accepts.
\<close>

section \<open>Definitions\<close>

definition be16 :: "bytes \<Rightarrow> nat" where
  "be16 b = of_char (b ! 0) * 256 + of_char (b ! 1)"

definition readMuxHeader :: "conn \<Rightarrow> (string \<times> int) io \<times> conn" where
  "readMuxHeader r =
     (case ReadFull 2 r of
        (Inl e, r1) \<Rightarrow> (Inl e, r1)
      | (Inr lb, r1) \<Rightarrow>
          let n = be16 lb in
          if n = 0 \<or> 4096 < n then (Inl (IOError (''mux: implausible header length '' @ FormatInt (int n))), r1)
          else (case ReadFull n r1 of
              (Inl e, r2) \<Rightarrow> (Inl e, r2)
            | (Inr buf, r2) \<Rightarrow>
                (case Unmarshal put_host_port ([], 0) buf of
                   None \<Rightarrow> (Inl (IOError ''json''), r2)
                 | Some hp \<Rightarrow> (Inr hp, r2))))"

text \<open>\<open>net.JoinHostPort\<close>, and the effects of one stream on the rest of the world.\<close>

definition JoinHostPort :: "string \<Rightarrow> string \<Rightarrow> string" where
  "JoinHostPort host port =
     (if CHR '':'' \<in> set host then ''['' @ host @ '']:'' @ port else host @ '':'' @ port)"

record mux_env =
  me_now :: "nat \<Rightarrow> instant"
  me_fmt :: "instant \<Rightarrow> string"
  me_dial :: "string \<Rightarrow> conn io"
  me_sched :: "bool list"
  me_late :: "bool list"

datatype mux_end = BadHeader | MuxForbidden | MuxDialFailed | StatusLost | MuxRelayed conn copying copying

text \<open>
  The two copies of a stream run on the pair of its ends. The handler waits for the first of them to
  end; the turns added to the schedule let the upward one end when none has. Until the handler has
  closed both ends the other copy may go on, for the turns \<open>late\<close>.
\<close>

definition fst_Read :: "nat \<Rightarrow> conn \<times> conn \<Rightarrow> (bytes io \<times> conn \<times> conn) res" where
  "fst_Read n s = (case conn_Read n (fst s) of (r, c) \<Rightarrow> Returns (r, (c, snd s)))"

definition fst_Write :: "bytes \<Rightarrow> conn \<times> conn \<Rightarrow> (write_result \<times> conn \<times> conn) res" where
  "fst_Write b s = (case conn_Write b (fst s) of (r, c) \<Rightarrow> Returns (r, (c, snd s)))"

definition snd_Read :: "nat \<Rightarrow> conn \<times> conn \<Rightarrow> (bytes io \<times> conn \<times> conn) res" where
  "snd_Read n s = (case conn_Read n (snd s) of (r, c) \<Rightarrow> Returns (r, (fst s, c)))"

definition snd_Write :: "bytes \<Rightarrow> conn \<times> conn \<Rightarrow> (write_result \<times> conn \<times> conn) res" where
  "snd_Write b s = (case conn_Write b (snd s) of (r, c) \<Rightarrow> Returns (r, (fst s, c)))"

definition mux_relay :: "bool list \<Rightarrow> bool list \<Rightarrow> conn \<Rightarrow> conn \<Rightarrow> (copying \<times> copying \<times> conn \<times> conn) res" where
  "mux_relay sched late st target =
     (let up = copy_step fst_Read snd_Write id; down = copy_step snd_Read fst_Write id in
      bind_res (copy_pair up down (\<lambda>u d. finished u \<or> finished d) (sched @ replicate (rx_size st + 1) True)
          (Copying 0) (Copying 0) (st, target))
        (\<lambda>(u, d, s). copy_pair up down (\<lambda>_ _. False) late u d s))"

text \<open>
  \<open>handleMuxStream\<close>: the result is the stream, the way it ended (with the target connection and
  the two copies after a relay) and the process state. Deferred calls close both connections.
\<close>

definition handleMuxStream ::
  "mux_env \<Rightarrow> string \<Rightarrow> conn \<Rightarrow> ('f, 'l) proxy \<Rightarrow> (conn \<times> mux_end \<times> ('f, 'l) proxy) res" where
  "handleMuxStream E src st px =
     (case readMuxHeader st of
        (Inl e, st1) \<Rightarrow> Returns (conn_Close st1, BadHeader, px)
      | (Inr (host, port), st1) \<Rightarrow>
          (case isAllowedTarger host (px_targets px) of (allowed, tg) \<Rightarrow>
             let px1 = px\<lparr>px_targets := tg\<rparr> in
             if \<not> allowed then Returns (conn_Close (snd (conn_Write [CHR 0x00] st1)), MuxForbidden, px1)
             else let px2 = px1\<lparr>px_dials := px_dials px1 @ [(host, port)]\<rparr> in
               (case me_dial E (JoinHostPort host (FormatInt port)) of
                  Inl e \<Rightarrow>
                    let px3 = px2\<lparr>auditLog := writeAuditLog (me_fmt E) (me_now E 0) src host port ''mux dial failed'' (auditLog px2)\<rparr>
                    in Returns (conn_Close (snd (conn_Write [CHR 0x00] st1)), MuxDialFailed, px3)
                | Inr target \<Rightarrow>
                    (case conn_Write [CHR 0x01] st1 of
                       (Inl e, st2) \<Rightarrow> Returns (conn_Close st2, StatusLost, px2)
                     | (Inr _, st2) \<Rightarrow>
                         let px3 = px2\<lparr>auditLog := writeAuditLog (me_fmt E) (me_now E 0) src host port ''mux stream established''
                               (auditLog px2)\<rparr>
                         in bind_res (mux_relay (me_sched E) (me_late E) st2 target) (\<lambda>(u, d, st3, target').
                              Returns (conn_Close st3, MuxRelayed (conn_Close target') u d, px3))))))"

text \<open>
  \<open>handleMuxWss\<close>: a refused source ends the websocket; otherwise \<open>yamux.Server\<close>, a parameter, runs a
  session over the transport, and every stream it accepts is served. The streams of a session run
  concurrently; \<open>accepted\<close> lists them in the order in which they act on the process state.
\<close>

primrec serve_streams ::
  "string \<Rightarrow> (mux_env \<times> conn) list \<Rightarrow> ('f, 'l) proxy \<Rightarrow> ((conn \<times> mux_end) list \<times> ('f, 'l) proxy) res" where
  "serve_streams src [] px = Returns ([], px)"
| "serve_streams src (a # accepted) px =
     (case a of (E, st) \<Rightarrow>
        bind_res (handleMuxStream E src st px) (\<lambda>(st', x, px1).
        bind_res (serve_streams src accepted px1) (\<lambda>(xs, px2). Returns ((st', x) # xs, px2))))"

definition handleMuxWss ::
  "('f, 'l) ratelib \<Rightarrow> environ \<Rightarrow> (transport \<Rightarrow> (mux_env \<times> conn) list io) \<Rightarrow> instant \<Rightarrow> wss \<Rightarrow> ('f, 'l) proxy \<Rightarrow>
   ((conn \<times> mux_end) list \<times> ('f, 'l) proxy) res" where
  "handleMuxWss R env yamux_Server now ws px =
     (case getIPAdress R now (ws_header ws) (ws_remote ws) (px_sources px) of ((blocked, ips), srcs) \<Rightarrow>
        let px1 = px\<lparr>px_sources := srcs\<rparr> in
        if blocked then Returns ([], px1)
        else let tr = (if obfsEnabled env then Wrapped (newObfConn (ws_conn ws) True (obfsPSK env)) else Plain (ws_conn ws))
             in (case yamux_Server tr of
                   Inl e \<Rightarrow> Returns ([], px1)
                 | Inr accepted \<Rightarrow> serve_streams (hd ips) accepted px1))"

section \<open>The relay of a stream\<close>

definition fst_snk :: "conn \<Rightarrow> conn \<times> conn \<Rightarrow> bytes \<Rightarrow> bool" where
  "fst_snk c s d \<longleftrightarrow> concat (tx (fst s)) = concat (tx c) @ d"

definition snd_snk :: "conn \<Rightarrow> conn \<times> conn \<Rightarrow> bytes \<Rightarrow> bool" where
  "snd_snk c s d \<longleftrightarrow> concat (tx (snd s)) = concat (tx c) @ d"

lemma pair_Read_law:
  assumes "0 < n"
  shows "\<exists>r c. fst_Read n s = Returns (r, (c, snd s)) \<and> tx c = tx (fst s) \<and>
     (case r of Inl e \<Rightarrow> c = fst s \<and> rx (fst s) = [] \<and> e = rx_end (fst s)
      | Inr b \<Rightarrow> concat (rx (fst s)) = b @ concat (rx c) \<and> rx_end c = rx_end (fst s) \<and> rx_size c < rx_size (fst s))"
    and "\<exists>r c. snd_Read n s = Returns (r, (fst s, c)) \<and> tx c = tx (snd s) \<and>
     (case r of Inl e \<Rightarrow> c = snd s \<and> rx (snd s) = [] \<and> e = rx_end (snd s)
      | Inr b \<Rightarrow> concat (rx (snd s)) = b @ concat (rx c) \<and> rx_end c = rx_end (snd s) \<and> rx_size c < rx_size (snd s))"
  using conn_Read_law [OF assms, of "fst s"] conn_Read_law [OF assms, of "snd s"]
  by (auto simp: fst_Read_def snd_Read_def)

interpretation stream_up: copy_side fst_Read snd_Write id "\<lambda>_. True" "\<lambda>s. concat (rx (fst s))" "\<lambda>s. rx_end (fst s)"
  "snd_snk c" "\<lambda>s. rx_size (fst s)" for c
proof
  fix s :: "conn \<times> conn" and n b
  show "0 < n \<Longrightarrow> \<exists>r s'. fst_Read n s = Returns (r, s') \<and> True \<and> (\<forall>d. snd_snk c s d \<longrightarrow> snd_snk c s' d) \<and>
      (case r of Inl e \<Rightarrow> concat (rx (fst s)) = [] \<and> e = rx_end (fst s)
       | Inr b \<Rightarrow> concat (rx (fst s)) = b @ concat (rx (fst s')) \<and> rx_end (fst s') = rx_end (fst s) \<and> rx_size (fst s') < rx_size (fst s))"
    by (drule pair_Read_law(1) [of n s], elim exE conjE, intro exI conjI, assumption)
      (auto simp: snd_snk_def split: sum.splits)
  show "\<exists>r s'. snd_Write b s = Returns (r, s') \<and> True \<and> concat (rx (fst s')) = concat (rx (fst s)) \<and> rx_end (fst s') = rx_end (fst s) \<and>
      rx_size (fst s') = rx_size (fst s) \<and> length (sent_part r b) = written r b \<and> (\<forall>d. snd_snk c s d \<longrightarrow> snd_snk c s' (d @ sent_part r b))"
    using conn_Write_law [of b "snd s"] by (auto simp: snd_Write_def snd_snk_def rx_size_def)
qed simp

interpretation stream_down: copy_side snd_Read fst_Write id "\<lambda>_. True" "\<lambda>s. concat (rx (snd s))" "\<lambda>s. rx_end (snd s)"
  "fst_snk c" "\<lambda>s. rx_size (snd s)" for c
proof
  fix s :: "conn \<times> conn" and n b
  show "0 < n \<Longrightarrow> \<exists>r s'. snd_Read n s = Returns (r, s') \<and> True \<and> (\<forall>d. fst_snk c s d \<longrightarrow> fst_snk c s' d) \<and>
      (case r of Inl e \<Rightarrow> concat (rx (snd s)) = [] \<and> e = rx_end (snd s)
       | Inr b \<Rightarrow> concat (rx (snd s)) = b @ concat (rx (snd s')) \<and> rx_end (snd s') = rx_end (snd s) \<and> rx_size (snd s') < rx_size (snd s))"
    by (drule pair_Read_law(2) [of n s], elim exE conjE, intro exI conjI, assumption)
      (auto simp: fst_snk_def split: sum.splits)
  show "\<exists>r s'. fst_Write b s = Returns (r, s') \<and> True \<and> concat (rx (snd s')) = concat (rx (snd s)) \<and> rx_end (snd s') = rx_end (snd s) \<and>
      rx_size (snd s') = rx_size (snd s) \<and> length (sent_part r b) = written r b \<and> (\<forall>d. fst_snk c s d \<longrightarrow> fst_snk c s' (d @ sent_part r b))"
    using conn_Write_law [of b "fst s"] by (auto simp: fst_Write_def fst_snk_def rx_size_def)
qed simp

lemma stream_up_keeps:
  assumes "copy_step fst_Read snd_Write id x s = Returns (x', s')"
  shows "stream_down.keeps c s s'"
proof (rule copy_step_rel [of "stream_down.keeps c" "\<lambda>_. True", OF stream_down.keeps_refl stream_down.keeps_trans _ _ _ _ assms])
  show "True \<and> stream_down.keeps c s s'" if "fst_Read 32768 s = Returns (r, s')" for s r s'
    using conn_Read_law [of 32768 "fst s"] that by (auto simp: fst_Read_def stream_down.keeps_def fst_snk_def)
  show "True \<and> stream_down.keeps c s s'" if "snd_Write b s = Returns (r, s')" for b s r s'
    using that conn_Write_law [of b "snd s"] unfolding stream_down.keeps_def
    by (auto simp: snd_Write_def fst_snk_def rx_size_def)
qed (simp_all add: stream_down.keeps_refl)

lemma stream_down_keeps:
  assumes "copy_step snd_Read fst_Write id x s = Returns (x', s')"
  shows "stream_up.keeps c s s'"
proof (rule copy_step_rel [of "stream_up.keeps c" "\<lambda>_. True", OF stream_up.keeps_refl stream_up.keeps_trans _ _ _ _ assms])
  show "True \<and> stream_up.keeps c s s'" if "snd_Read 32768 s = Returns (r, s')" for s r s'
    using conn_Read_law [of 32768 "snd s"] that by (auto simp: snd_Read_def stream_up.keeps_def snd_snk_def)
  show "True \<and> stream_up.keeps c s s'" if "fst_Write b s = Returns (r, s')" for b s r s'
    using that conn_Write_law [of b "fst s"] unfolding stream_up.keeps_def
    by (auto simp: fst_Write_def snd_snk_def rx_size_def)
qed (simp_all add: stream_up.keeps_refl)

interpretation stream_relay: relay_pair fst_Read snd_Write id "\<lambda>_. True" "\<lambda>s. concat (rx (fst s))" "\<lambda>s. rx_end (fst s)"
  "snd_snk c" "\<lambda>s. rx_size (fst s)" snd_Read fst_Write id "\<lambda>s. concat (rx (snd s))" "\<lambda>s. rx_end (snd s)"
  "fst_snk c'" "\<lambda>s. rx_size (snd s)" for c c'
  by unfold_locales (rule stream_up_keeps stream_down_keeps, assumption)+

lemma mux_relay_spec:
  "\<exists>u d st' target' up down. mux_relay sched late st target = Returns (u, d, st', target') \<and> (finished u \<or> finished d) \<and>
     concat (tx target') = concat (tx target) @ up \<and> moved u = int (length up) \<and> prefix up (concat (rx st)) \<and>
     concat (tx st') = concat (tx st) @ down \<and> moved d = int (length down) \<and> prefix down (concat (rx target)) \<and>
     (finished u \<and> copy_error u = None \<longrightarrow> up = concat (rx st)) \<and>
     (finished d \<and> copy_error d = None \<longrightarrow> down = concat (rx target))"
proof -
  have start: "stream_up.side_inv target (concat (rx (fst (st, target)))) (Copying 0) (st, target)"
    "stream_down.side_inv st (concat (rx (snd (st, target)))) (Copying 0) (st, target)"
    by (rule stream_up.side_inv_start, simp add: snd_snk_def) (rule stream_down.side_inv_start, simp add: fst_snk_def)
  let ?pair = "copy_pair (copy_step fst_Read snd_Write id) (copy_step snd_Read fst_Write id)"
  obtain u1 d1 s1 where 1: "?pair (\<lambda>u d. finished u \<or> finished d) (sched @ replicate (rx_size st + 1) True) (Copying 0) (Copying 0)
      (st, target) = Returns (u1, d1, s1)" "finished u1 \<or> finished d1"
    "stream_up.side_inv target (concat (rx st)) u1 s1" "stream_down.side_inv st (concat (rx target)) d1 s1"
    using stream_relay.pair_run [OF _ start, of "\<lambda>u d. finished u \<or> finished d" "sched @ replicate (rx_size st + 1) True"] by auto
  obtain u d s' where 2: "?pair (\<lambda>_ _. False) late u1 d1 s1 = Returns (u, d, s')" "finished u1 \<longrightarrow> finished u" "finished d1 \<longrightarrow> finished d"
    "stream_up.side_inv target (concat (rx st)) u s'" "stream_down.side_inv st (concat (rx target)) d s'"
    using stream_relay.pair_run [OF _ 1(3,4), of "\<lambda>_ _. False" late] by blast
  from 1 2 have "mux_relay sched late st target = Returns (u, d, s')" "finished u \<or> finished d"
    by (auto simp: mux_relay_def)
  with 2(4,5) show ?thesis
    unfolding stream_up.side_inv_def stream_down.side_inv_def snd_snk_def fst_snk_def
    by (cases s') (auto split: if_splits)
qed

section \<open>Header: properties\<close>

definition put16 :: "nat \<Rightarrow> bytes" where
  "put16 n = [char_of (n div 256), char_of n]"

lemma be16_put16: "be16 (put16 n) = n mod 65536"
proof -
  have "n div 256 mod 256 * 256 + n mod 256 = n mod 65536"
    using mod_mult2_eq [of n 256 256] by simp
  then show ?thesis by (simp add: be16_def put16_def)
qed

lemma length_put16 [simp]: "length (put16 n) = 2"
  by (simp add: put16_def)

text \<open>Reading a header off a stream whose bytes start with it.\<close>

lemma readMuxHeader_reads:
  assumes "concat (rx c) = put16 (length buf) @ buf @ rest" and "0 < length buf" and "length buf \<le> 4096"
    and "Unmarshal put_host_port ([], 0) buf = Some hp"
  shows "\<exists>c'. readMuxHeader c = (Inr hp, c') \<and> concat (rx c') = rest \<and> tx c' = tx c \<and> tx_error c' = tx_error c"
proof -
  obtain c1 where c1: "ReadFull 2 c = (Inr (put16 (length buf)), c1)" "concat (rx c1) = buf @ rest" "tx c1 = tx c"
      "tx_error c1 = tx_error c"
    using ReadFull_ok [of 2 c] assms(1) by auto
  obtain c2 where c2: "ReadFull (length buf) c1 = (Inr buf, c2)" "concat (rx c2) = rest" "tx c2 = tx c1"
      "tx_error c2 = tx_error c1"
    using ReadFull_ok [of "length buf" c1] c1(2) by auto
  have "be16 (put16 (length buf)) = length buf" using assms(3) by (simp add: be16_put16)
  with c1 c2 assms(2-4) show ?thesis by (simp add: readMuxHeader_def Let_def)
qed

lemma readMuxHeader_implausible:
  assumes "concat (rx c) = put16 n @ rest" and "n mod 65536 = 0 \<or> 4096 < n mod 65536"
  shows "\<exists>e c'. readMuxHeader c = (Inl e, c') \<and> concat (rx c') = rest"
proof -
  obtain c1 where "ReadFull 2 c = (Inr (put16 n), c1)" "concat (rx c1) = rest"
    using ReadFull_ok [of 2 c] assms(1) by auto
  with assms(2) show ?thesis by (auto simp: readMuxHeader_def Let_def be16_put16)
qed

lemma read_loop_frame: "read_loop n acc c = (r, c') \<Longrightarrow> tx c' = tx c \<and> tx_error c' = tx_error c"
proof (induction n acc c rule: read_loop.induct)
  case (1 n acc c)
  show ?case
  proof (cases "n \<le> length acc")
    case True
    with "1.prems" show ?thesis by (simp add: read_loop.simps [of n acc c])
  next
    case False
    show ?thesis
    proof (cases rule: conn_Read_cases [of c "n - length acc"])
      case eof
      with False "1.prems" show ?thesis by (auto simp: read_loop.simps [of n acc c])
    next
      case (data b c'')
      with False "1.prems" 1(1) [OF False data(2) [symmetric] refl] show ?thesis
        by (simp add: read_loop.simps [of n acc c])
    qed
  qed
qed

lemma readMuxHeader_frame:
  "readMuxHeader c = (r, c') \<Longrightarrow> tx c' = tx c \<and> tx_error c' = tx_error c"
  unfolding readMuxHeader_def ReadFull_def Let_def
  by (auto split: prod.splits sum.splits if_splits option.splits dest!: read_loop_frame)

lemma conn_Close_tx [simp]: "tx (conn_Close c) = tx c"
  by (simp add: conn_Close_def)

text \<open>A status byte is sent unless the stream has been lost.\<close>

lemma conn_Write_byte:
  "\<exists>r c'. conn_Write [x] c = (r, c') \<and> rx c' = rx c \<and> (isl r \<longleftrightarrow> \<not> can_write c) \<and>
     concat (tx c') = concat (tx c) @ (if can_write c then [x] else [])"
  by (auto simp: conn_Write_def can_write_def split: option.splits)

text \<open>What handling a stream does once its header has been read and the target let through and dialled.\<close>

lemma handleMuxStream_relay:
  assumes "readMuxHeader c = (Inr (host, port), c1)" and "can_write c1"
    and "host \<notin> set (blacklistedTargets (px_targets px))" and "me_dial E (JoinHostPort host (FormatInt port)) = Inr target"
  shows "\<exists>c' target' u d px' up down. handleMuxStream E src c px = Returns (c', MuxRelayed target' u d, px') \<and>
    px_dials px' = px_dials px @ [(host, port)] \<and> (finished u \<or> finished d) \<and>
    concat (tx target') = concat (tx target) @ up \<and> prefix up (concat (rx c1)) \<and>
    concat (tx c') = concat (tx c1) @ CHR 0x01 # down \<and> prefix down (concat (rx target)) \<and>
    (finished u \<and> copy_error u = None \<longrightarrow> up = concat (rx c1)) \<and>
    (finished d \<and> copy_error d = None \<longrightarrow> down = concat (rx target))"
proof -
  obtain q c2 where "conn_Write [CHR 0x01] c1 = (q, c2)" "rx c2 = rx c1" "concat (tx c2) = concat (tx c1) @ [CHR 0x01]" "\<not> isl q"
    using conn_Write_byte [of "CHR 0x01" c1] assms(2) by auto
  then have w: "conn_Write [CHR 0x01] c1 = (Inr (), c2)" "rx c2 = rx c1" "concat (tx c2) = concat (tx c1) @ [CHR 0x01]"
    by (cases q; simp)+
  obtain u d st' target' up down where r: "mux_relay (me_sched E) (me_late E) c2 target = Returns (u, d, st', target')"
    "finished u \<or> finished d" "concat (tx target') = concat (tx target) @ up" "prefix up (concat (rx c2))"
    "concat (tx st') = concat (tx c2) @ down" "prefix down (concat (rx target))"
    "finished u \<and> copy_error u = None \<longrightarrow> up = concat (rx c2)" "finished d \<and> copy_error d = None \<longrightarrow> down = concat (rx target)"
    using mux_relay_spec [of "me_sched E" "me_late E" c2 target] by blast
  define px' where "px' = px\<lparr>px_targets := snd (isAllowedTarger host (px_targets px)), px_dials := px_dials px @ [(host, port)],
      auditLog := writeAuditLog (me_fmt E) (me_now E 0) src host port ''mux stream established'' (auditLog px)\<rparr>"
  have run: "handleMuxStream E src c px = Returns (conn_Close st', MuxRelayed (conn_Close target') u d, px')"
    using assms w(1) r(1) by (simp add: handleMuxStream_def isAllowedTarger_iff Let_def px'_def)
  show ?thesis
    by (intro exI [of _ "conn_Close st'"] exI [of _ "conn_Close target'"] exI [of _ u] exI [of _ d] exI [of _ px']
        exI [of _ up] exI [of _ down] conjI, rule run) (use r(2-8) w(2,3) in \<open>simp_all add: px'_def\<close>)
qed

text \<open>
  C11. Every stream is handled to its end, and the header it sent decides which. Without a
  readable header nothing is dialled and nothing sent. A target on the blacklist is not dialled, any other is
  dialled exactly once; a forbidden target and a failed dial are answered with the byte 0 and nothing else, a
  connected one with the byte 1, followed by a prefix of what the target sent. When the stream can no
  longer be written to, no status byte gets out, and a target that has been dialled is given up without any
  relaying.
\<close>

theorem handleMuxStream_contract:
  "\<exists>c' x px'. handleMuxStream E src c px = Returns (c', x, px') \<and>
    (case fst (readMuxHeader c) of
      Inl _ \<Rightarrow> x = BadHeader \<and> tx c' = tx c \<and> px_dials px' = px_dials px
    | Inr (host, port) \<Rightarrow>
        if host \<in> set (blacklistedTargets (px_targets px))
        then x = MuxForbidden \<and> concat (tx c') = concat (tx c) @ (if can_write c then [CHR 0x00] else []) \<and> px_dials px' = px_dials px
        else px_dials px' = px_dials px @ [(host, port)] \<and>
          (case me_dial E (JoinHostPort host (FormatInt port)) of
            Inl _ \<Rightarrow> x = MuxDialFailed \<and> concat (tx c') = concat (tx c) @ (if can_write c then [CHR 0x00] else [])
          | Inr target \<Rightarrow>
              if can_write c
              then (\<exists>target' u d down. x = MuxRelayed target' u d \<and> concat (tx c') = concat (tx c) @ CHR 0x01 # down \<and>
                prefix down (concat (rx target)))
              else x = StatusLost \<and> concat (tx c') = concat (tx c)))"
proof -
  obtain r c1 where h: "readMuxHeader c = (r, c1)" by fastforce
  have c1: "tx c1 = tx c" "can_write c1 = can_write c" using readMuxHeader_frame [OF h] by (simp_all add: can_write_def)
  show ?thesis
  proof (cases r)
    case (Inl e)
    with h c1 show ?thesis by (simp add: handleMuxStream_def)
  next
    case (Inr hp)
    obtain host port where hp: "hp = (host, port)" by fastforce
    note header = h [unfolded Inr hp]
    obtain w0 s0 where w0: "conn_Write [CHR 0x00] c1 = (w0, s0)"
      "concat (tx s0) = concat (tx c) @ (if can_write c then [CHR 0x00] else [])"
      using conn_Write_byte [of "CHR 0x00" c1] c1 by auto
    obtain w1 s1 where w1: "conn_Write [CHR 0x01] c1 = (w1, s1)" "isl w1 \<longleftrightarrow> \<not> can_write c"
      "concat (tx s1) = concat (tx c) @ (if can_write c then [CHR 0x01] else [])"
      using conn_Write_byte [of "CHR 0x01" c1] c1 by auto
    show ?thesis
    proof (cases "host \<in> set (blacklistedTargets (px_targets px))")
      case True
      with header w0 show ?thesis by (simp add: handleMuxStream_def isAllowedTarger_iff Let_def)
    next
      case False
      show ?thesis
      proof (cases "me_dial E (JoinHostPort host (FormatInt port))")
        case (Inl e)
        with header w0 False show ?thesis by (simp add: handleMuxStream_def isAllowedTarger_iff Let_def)
      next
        case dialled: (Inr target)
        show ?thesis
        proof (cases "can_write c")
          case True
          from handleMuxStream_relay [OF header _ False dialled, of src] c1 True header False dialled show ?thesis by fastforce
        next
          case lost: False
          with w1(2) obtain e where "w1 = Inl e" by (auto simp: isl_def)
          with header w1 lost False dialled show ?thesis
            by (simp add: handleMuxStream_def isAllowedTarger_iff Let_def)
        qed
      qed
    qed
  qed
qed

text \<open>What the streams do to the process state, whatever happens to them.\<close>

definition mux_effect :: "('f, 'l) proxy \<Rightarrow> ('f, 'l) proxy \<Rightarrow> bool" where
  "mux_effect px px' \<longleftrightarrow> activeWebsocks px' = activeWebsocks px \<and> activeConnections px' = activeConnections px \<and>
     blacklistedTargets (px_targets px') = blacklistedTargets (px_targets px) \<and> px_bandwidth px' = px_bandwidth px \<and>
     (\<exists>ds. px_dials px' = px_dials px @ ds \<and> (\<forall>(host, port) \<in> set ds. host \<notin> set (blacklistedTargets (px_targets px))))"

lemma mux_effect_refl [step_effects]: "mux_effect px px"
  by (simp add: mux_effect_def)

lemma mux_effect_trans: "mux_effect a b \<Longrightarrow> mux_effect b c \<Longrightarrow> mux_effect a c"
  by (fastforce simp: mux_effect_def)

lemma handleMuxStream_effect:
  "\<exists>c' x px'. handleMuxStream E src c px = Returns (c', x, px') \<and> mux_effect px px'"
proof -
  obtain r c1 where h: "readMuxHeader c = (r, c1)" by fastforce
  show ?thesis
  proof (cases r)
    case (Inl e)
    with h show ?thesis by (simp add: handleMuxStream_def step_effects)
  next
    case (Inr hp)
    obtain host port where hp: "hp = (host, port)" by fastforce
    obtain w c2 where w: "conn_Write [CHR 0x01] c1 = (w, c2)" by fastforce
    show ?thesis
    proof (cases "host \<in> set (blacklistedTargets (px_targets px)) \<or> isl (me_dial E (JoinHostPort host (FormatInt port))) \<or> isl w")
      case True
      with h Inr hp w show ?thesis
        by (cases "me_dial E (JoinHostPort host (FormatInt port))"; cases w)
          (auto simp: handleMuxStream_def isAllowedTarger_iff Let_def mux_effect_def)
    next
      case False
      then obtain target where "me_dial E (JoinHostPort host (FormatInt port)) = Inr target" "w = Inr ()" "host \<notin> set (blacklistedTargets (px_targets px))"
        by (cases "me_dial E (JoinHostPort host (FormatInt port))"; cases w) auto
      moreover obtain u d st' target' where "mux_relay (me_sched E) (me_late E) c2 target = Returns (u, d, st', target')"
        using mux_relay_spec [of "me_sched E" "me_late E" c2 target] by blast
      ultimately show ?thesis using h Inr hp w
        by (simp add: handleMuxStream_def isAllowedTarger_iff Let_def mux_effect_def)
    qed
  qed
qed

lemma serve_streams_effect: "\<exists>xs px'. serve_streams src accepted px = Returns (xs, px') \<and> mux_effect px px'"
proof (induction accepted arbitrary: px)
  case (Cons a accepted)
  obtain E st where a: "a = (E, st)" by fastforce
  obtain c' x px1 where 1: "handleMuxStream E src st px = Returns (c', x, px1)" "mux_effect px px1"
    using handleMuxStream_effect by blast
  obtain xs px2 where 2: "serve_streams src accepted px1 = Returns (xs, px2)" "mux_effect px1 px2" using Cons.IH by blast
  have "mux_effect px px2" using 1(2) 2(2) by (rule mux_effect_trans)
  with a 1(1) 2(1) show ?case by simp
qed (simp add: step_effects)

lemma handleMuxWss_effect: "\<exists>xs px'. handleMuxWss R env yamux_Server now ws px = Returns (xs, px') \<and> mux_effect px px'"
proof -
  obtain blocked ips srcs where ip: "getIPAdress R now (ws_header ws) (ws_remote ws) (px_sources px) = ((blocked, ips), srcs)"
    by (metis prod.exhaust)
  have s: "mux_effect px (px\<lparr>px_sources := srcs\<rparr>)" by (simp add: mux_effect_def)
  show ?thesis
  proof (cases "blocked \<or> isl (yamux_Server (if obfsEnabled env then Wrapped (newObfConn (ws_conn ws) True (obfsPSK env)) else Plain (ws_conn ws)))")
    case True
    with ip s show ?thesis by (cases blocked) (auto simp: handleMuxWss_def isl_def Let_def)
  next
    case False
    then obtain accepted where acc: "yamux_Server (if obfsEnabled env then Wrapped (newObfConn (ws_conn ws) True (obfsPSK env))
        else Plain (ws_conn ws)) = Inr accepted" by (metis sum.collapse(2))
    obtain xs px' where "serve_streams (hd ips) accepted (px\<lparr>px_sources := srcs\<rparr>) = Returns (xs, px')"
      "mux_effect (px\<lparr>px_sources := srcs\<rparr>) px'" using serve_streams_effect by blast
    moreover from this(2) have "mux_effect px px'" by (rule mux_effect_trans [OF s])
    ultimately show ?thesis using ip acc False unfolding handleMuxWss_def Let_def by simp
  qed
qed

definition demo_mux_env :: mux_env where
  "demo_mux_env = \<lparr>me_now = (\<lambda>_. 0), me_fmt = (\<lambda>_. ''t''), me_dial = (\<lambda>_. Inr open_conn), me_sched = [], me_late = []\<rparr>"

theorem handleMuxStream_contract_witness:
  "\<exists>c' px'. handleMuxStream demo_mux_env ''src'' open_conn demo_proxy = Returns (c', BadHeader, px') \<and> tx c' = [] \<and> px_dials px' = []"
proof -
  have "length (concat (rx open_conn)) < 2" by (simp add: open_conn_def)
  from ReadFull_short [OF this] have "isl (fst (readMuxHeader open_conn))" by (auto simp: readMuxHeader_def)
  then obtain e where "fst (readMuxHeader open_conn) = Inl e" by (auto simp: isl_def)
  with handleMuxStream_contract [of demo_mux_env "''src''" open_conn demo_proxy] show ?thesis
    by (auto simp: open_conn_def demo_proxy_def)
qed

end
