(* ===== verification/Admin.thy ===== *)
theory Admin
  imports Proxy
begin

text \<open>
  The administration interface of the proxy (\<open>src/proxy/admin.go\<close>): the handlers, the key check
  and the routing table. The router of \<open>gorilla/mux\<close> and the metrics page are parameters; the only
  thing relied on is that the router picks a route of the table whose path and method fit.
\<close>

section \<open>Initialisation\<close>

text \<open>
  The metrics of the proxy with the labels a use of them must give. Registering two under the same
  name would panic (\<open>metrics_distinct\<close>).
\<close>

datatype metric_kind = Counter | Gauge

record metric =
  mt_kind :: metric_kind
  mt_name :: string
  mt_help :: string
  mt_labels :: "string list"

definition metrics :: "metric list" where
  "metrics =
     [\<lparr>mt_kind = Counter, mt_name = ''connection_requests_total'', mt_help = ''The total number of connection requests'',
       mt_labels = [''host'']\<rparr>,
      \<lparr>mt_kind = Counter, mt_name = ''bytes_total'', mt_help = ''The total number of bytes proxied'', mt_labels = [''host'', ''dir'']\<rparr>,
      \<lparr>mt_kind = Counter, mt_name = ''connections_total'', mt_help = ''The total number of connections'', mt_labels = [''host'']\<rparr>,
      \<lparr>mt_kind = Gauge, mt_name = ''connections_active'', mt_help = ''The current number of active connections'',
       mt_labels = [''host'']\<rparr>]"

lemma metrics_distinct: "distinct (map mt_name metrics)" "\<forall>m\<in>set metrics. distinct (mt_labels m)"
  by (simp_all add: metrics_def)

text \<open>\<open>init\<close>, which sets \<open>svcHost\<close> to what \<open>os.Hostname\<close> answers.\<close>

definition admin_init :: "os_error + string \<Rightarrow> string res" where
  "admin_init hostname = (case hostname of Inl e \<Rightarrow> Panics | Inr svcHost \<Rightarrow> Returns svcHost)"

section \<open>Handlers\<close>

text \<open>\<open>rateReq\<close>; a rate that is not given is zero, here \<open>None\<close>.\<close>

record 'f rateReq =
  rr_FreeLimit :: int
  rr_MaxBurst :: int
  rr_Rate :: "'f option"

definition put_rateReq :: "'f floats \<Rightarrow> bytes \<Rightarrow> json \<Rightarrow> 'f rateReq \<Rightarrow> 'f rateReq \<times> bool" where
  "put_rateReq F k v rr =
     (if k = ''freelimit'' then (case set_int v (rr_FreeLimit rr) of (n, b) \<Rightarrow> (rr\<lparr>rr_FreeLimit := n\<rparr>, b))
      else if k = ''maxburst'' then (case set_int v (rr_MaxBurst rr) of (n, b) \<Rightarrow> (rr\<lparr>rr_MaxBurst := n\<rparr>, b))
      else if k = ''rate'' then
        (case v of
           JNum l \<Rightarrow> (case ParseFloat F l of Some f \<Rightarrow> (rr\<lparr>rr_Rate := Some f\<rparr>, False) | None \<Rightarrow> (rr, True))
         | JNull \<Rightarrow> (rr, False)
         | _ \<Rightarrow> (rr, True))
      else (rr, False))"

definition put_Hosts :: "bytes \<Rightarrow> json \<Rightarrow> string list \<Rightarrow> string list \<times> bool" where
  "put_Hosts k v hs = (if k = ''hosts'' then set_strings v hs else (hs, False))"

definition getRate :: "'f floats \<Rightarrow> ('f, 'l) proxy \<Rightarrow> response_writer \<Rightarrow> response_writer" where
  "getRate F st w =
     (let bw = px_bandwidth st
      in write_body (''Free limit: '' @ FormatInt (freeLimit bw) @ '', Max burst: '' @ FormatInt (maxBurst bw)
           @ '', Limited rate: '' @ FormatFloat F (maxLimitedRate bw) @ nl) (WriteHeader 200 w))"

definition setRate ::
  "'f floats \<Rightarrow> string \<Rightarrow> ('f, 'l) proxy \<Rightarrow> response_writer \<Rightarrow> response_writer \<times> ('f, 'l) proxy" where
  "setRate F body st w =
     (case Decode (put_rateReq F) \<lparr>rr_FreeLimit = 0, rr_MaxBurst = 0, rr_Rate = None\<rparr> body of
        None \<Rightarrow> (WriteHeader 400 w, st)
      | Some rr \<Rightarrow>
          let bw = px_bandwidth st;
              bw1 = (if 0 < rr_FreeLimit rr then bw\<lparr>freeLimit := rr_FreeLimit rr\<rparr> else bw);
              bw2 = (if 0 < rr_MaxBurst rr then bw1\<lparr>maxBurst := rr_MaxBurst rr\<rparr> else bw1);
              bw3 = (case rr_Rate rr of
                       Some f \<Rightarrow> if positive F f then bw2\<lparr>maxLimitedRate := f\<rparr> else bw2
                     | None \<Rightarrow> bw2)
          in (WriteHeader 200 w, st\<lparr>px_bandwidth := bw3\<rparr>))"

text \<open>The writer's lock is granted when no reader holds it; \<open>None\<close> is a handler that waits for ever.\<close>

definition setBlackList ::
  "string \<Rightarrow> ('f, 'l) proxy \<Rightarrow> response_writer \<Rightarrow> (response_writer \<times> ('f, 'l) proxy) option" where
  "setBlackList body st w =
     (case Decode put_Hosts [] body of
        None \<Rightarrow> Some (WriteHeader 400 w, st)
      | Some hs \<Rightarrow>
          if bl_readers (px_targets st) = 0
          then Some (WriteHeader 200 w, st\<lparr>px_targets := (px_targets st)\<lparr>blacklistedTargets := hs\<rparr>\<rparr>)
          else None)"

definition getBlackList :: "('f, 'l) proxy \<Rightarrow> response_writer \<Rightarrow> response_writer" where
  "getBlackList st w = write_body (''Blacklisted Hosts: ['' @ join '' '' (blacklistedTargets (px_targets st)) @ '']'') w"

definition setSrcBlackList ::
  "string \<Rightarrow> ('f, 'l) proxy \<Rightarrow> response_writer \<Rightarrow> response_writer \<times> ('f, 'l) proxy" where
  "setSrcBlackList body st w =
     (case Decode put_Hosts [] body of
        None \<Rightarrow> (WriteHeader 400 w, st)
      | Some hs \<Rightarrow> (WriteHeader 200 w, st\<lparr>px_sources := (px_sources st)\<lparr>blacklistedSources := hs\<rparr>\<rparr>))"

definition getSrcBlackList :: "('f, 'l) proxy \<Rightarrow> response_writer \<Rightarrow> response_writer" where
  "getSrcBlackList st w =
     write_body (''Blacklisted Sources: ['' @ join '' '' (blacklistedSources (px_sources st)) @ '']'') w"

section \<open>Routes\<close>

datatype admin_handler = Metrics | GetRate | SetRate | GetBlackList | SetBlackList | GetSrcBlackList | SetSrcBlackList

record route =
  rt_path :: string
  rt_method :: "string option"
  rt_handler :: admin_handler

text \<open>The table that \<open>startAdmin\<close> builds, in order, with the subrouter's prefix.\<close>

definition admin_routes :: "route list" where
  "admin_routes =
     [\<lparr>rt_path = ''/metrics'', rt_method = None, rt_handler = Metrics\<rparr>,
      \<lparr>rt_path = ''/config'' @ ''/rate'', rt_method = Some ''GET'', rt_handler = GetRate\<rparr>,
      \<lparr>rt_path = ''/config'' @ ''/rate'', rt_method = Some ''POST'', rt_handler = SetRate\<rparr>,
      \<lparr>rt_path = ''/config'' @ ''/blacklist'', rt_method = Some ''GET'', rt_handler = GetBlackList\<rparr>,
      \<lparr>rt_path = ''/config'' @ ''/blacklist'', rt_method = Some ''GET'', rt_handler = GetBlackList\<rparr>,
      \<lparr>rt_path = ''/config'' @ ''/srcblacklist'', rt_method = Some ''GET'', rt_handler = GetSrcBlackList\<rparr>,
      \<lparr>rt_path = ''/config'' @ [CHR 0x09] @ ''/srcblacklist'', rt_method = Some ''POST'', rt_handler = SetSrcBlackList\<rparr>]"

record router =
  rt_match :: "route list \<Rightarrow> request \<Rightarrow> route option"
  rt_nomatch :: "request \<Rightarrow> response_writer \<Rightarrow> response_writer"
  rt_metrics :: "response_writer \<Rightarrow> response_writer"

definition routes_fit :: "router \<Rightarrow> bool" where
  "routes_fit M \<longleftrightarrow> (\<forall>rs r rt. rt_match M rs r = Some rt \<longrightarrow>
     rt \<in> set rs \<and> rt_path rt = URL_Path r \<and> (rt_method rt = None \<or> rt_method rt = Some (Method r)))"

text \<open>The middleware of the subrouter.\<close>

definition admin_authorized :: "string \<Rightarrow> request \<Rightarrow> bool" where
  "admin_authorized key r = (case req_Header r ''Authorization'' of
     None \<Rightarrow> False | Some [] \<Rightarrow> False | Some (v # _) \<Rightarrow> v = ''Basic '' @ key)"

definition admin_handle ::
  "'f floats \<Rightarrow> admin_handler \<Rightarrow> string \<Rightarrow> ('f, 'l) proxy \<Rightarrow> response_writer \<Rightarrow> (response_writer \<times> ('f, 'l) proxy) option" where
  "admin_handle F h body st w =
     (case h of
        Metrics \<Rightarrow> Some (w, st)
      | GetRate \<Rightarrow> Some (getRate F st w, st)
      | SetRate \<Rightarrow> Some (setRate F body st w)
      | GetBlackList \<Rightarrow> Some (getBlackList st w, st)
      | SetBlackList \<Rightarrow> setBlackList body st w
      | GetSrcBlackList \<Rightarrow> Some (getSrcBlackList st w, st)
      | SetSrcBlackList \<Rightarrow> Some (setSrcBlackList body st w))"

definition admin_serve ::
  "'f floats \<Rightarrow> router \<Rightarrow> string \<Rightarrow> request \<Rightarrow> string \<Rightarrow> ('f, 'l) proxy \<Rightarrow> response_writer \<Rightarrow>
   (response_writer \<times> ('f, 'l) proxy) option" where
  "admin_serve F M key r body st w =
     (case rt_match M admin_routes r of
        None \<Rightarrow> Some (rt_nomatch M r w, st)
      | Some rt \<Rightarrow>
          if rt_handler rt = Metrics then Some (rt_metrics M w, st)
          else if \<not> admin_authorized key r then Some (WriteHeader 401 w, st)
          else admin_handle F (rt_handler rt) body st w)"

section \<open>Properties\<close>

lemma admin_serve_cases:
  assumes "routes_fit M" and "admin_serve F M key r body st w = Some (w', st')"
  obtains (same) "st' = st"
  | (rate) "admin_authorized key r" "URL_Path r = ''/config/rate''" "Method r = ''POST''" "(w', st') = setRate F body st w"
  | (src) "admin_authorized key r" "URL_Path r = ''/config'' @ [CHR 0x09] @ ''/srcblacklist''" "Method r = ''POST''"
      "(w', st') = setSrcBlackList body st w"
proof (cases "rt_match M admin_routes r")
  case None
  with assms(2) show ?thesis by (intro same) (simp add: admin_serve_def)
next
  case (Some rt)
  with assms(1) have rt: "rt \<in> set admin_routes" "rt_path rt = URL_Path r" "rt_method rt = None \<or> rt_method rt = Some (Method r)"
    unfolding routes_fit_def by blast+
  show ?thesis
  proof (cases "rt_handler rt = Metrics \<or> \<not> admin_authorized key r")
    case True
    with Some assms(2) show ?thesis by (intro same) (auto simp: admin_serve_def split: if_splits)
  next
    case False
    with Some assms(2) have h: "admin_handle F (rt_handler rt) body st w = Some (w', st')"
      by (simp add: admin_serve_def)
    show ?thesis using rt h False same rate src
      unfolding admin_routes_def by (auto simp: admin_handle_def)
  qed
qed

lemma setRate_bandwidth:
  "snd (setRate F body st w) = st\<lparr>px_bandwidth := px_bandwidth (snd (setRate F body st w))\<rparr>"
  "0 < freeLimit (px_bandwidth st) \<Longrightarrow> 0 < freeLimit (px_bandwidth (snd (setRate F body st w)))"
  "0 < maxBurst (px_bandwidth st) \<Longrightarrow> 0 < maxBurst (px_bandwidth (snd (setRate F body st w)))"
  by (auto simp: setRate_def Let_def split: option.split)

lemma setSrcBlackList_sources:
  "snd (setSrcBlackList body st w) = st\<lparr>px_sources := px_sources (snd (setSrcBlackList body st w))\<rparr>"
  by (auto simp: setSrcBlackList_def split: option.split)

definition demo_router :: router where
  "demo_router = \<lparr>rt_match = (\<lambda>rs r. find (\<lambda>rt. rt_path rt = URL_Path r \<and>
       (rt_method rt = None \<or> rt_method rt = Some (Method r))) rs),
     rt_nomatch = (\<lambda>_ w. NotFound w), rt_metrics = (\<lambda>w. w)\<rparr>"

lemma demo_router_fits: "routes_fit demo_router"
  by (auto simp: routes_fit_def demo_router_def find_Some_iff)

definition demo_floats :: "int floats" where
  "demo_floats = \<lparr>ParseFloat = ParseInt64, positive = (\<lambda>f. 0 < f), FormatFloat = FormatInt\<rparr>"

definition rate_request :: request where
  "rate_request = \<lparr>Method = ''POST'', URL_Path = ''/config/rate'', RawQuery = [],
     req_Header = (\<lambda>k. if k = ''Authorization'' then Some [''Basic secret''] else None),
     RemoteAddr = ''10.0.0.7:1'', Cookies = [], FormValue = (\<lambda>_. [])\<rparr>"

definition rate_body :: string where
  "rate_body = ''{'' @ json_quoted ''maxburst'' @ '': 1000}''"

lemma rate_served:
  "\<exists>w' st'. admin_serve demo_floats demo_router ''secret'' rate_request rate_body st new_response = Some (w', st') \<and>
     maxBurst (px_bandwidth st') = 1000"
proof -
  have route: "rt_match demo_router admin_routes rate_request =
      Some \<lparr>rt_path = ''/config/rate'', rt_method = Some ''POST'', rt_handler = SetRate\<rparr>"
    "admin_authorized ''secret'' rate_request"
    by (simp_all add: demo_router_def admin_routes_def rate_request_def admin_authorized_def)
  have "Decode (put_rateReq demo_floats) \<lparr>rr_FreeLimit = 0, rr_MaxBurst = 0, rr_Rate = None\<rparr> rate_body =
      Some \<lparr>rr_FreeLimit = 0, rr_MaxBurst = 1000, rr_Rate = None\<rparr>"
    by code_simp
  with route show ?thesis by (simp add: admin_serve_def admin_handle_def setRate_def Let_def)
qed

lemma burst_before: "maxBurst (px_bandwidth demo_proxy) = 65536"
  by (simp add: demo_proxy_def)

text \<open>
  C34. Configuration is protected: whatever the router and the request, the state of the proxy
  changes only for a request that presents the administration key.
\<close>

theorem admin_requires_key:
  assumes "routes_fit M" and "admin_serve F M key r body st w = Some (w', st')" and "st' \<noteq> st"
  shows "\<exists>vs. req_Header r ''Authorization'' = Some ((''Basic '' @ key) # vs)"
proof -
  have "admin_authorized key r"
    using assms(1,2) by (rule admin_serve_cases) (use assms(3) in auto)
  then show ?thesis by (auto simp: admin_authorized_def split: option.splits list.splits)
qed

theorem admin_requires_key_witness:
  "\<exists>vs. req_Header rate_request ''Authorization'' = Some ((''Basic '' @ ''secret'') # vs)"
proof -
  obtain w' st' where run: "admin_serve demo_floats demo_router ''secret'' rate_request rate_body demo_proxy new_response = Some (w', st')"
    "maxBurst (px_bandwidth st') = 1000" using rate_served by blast
  then have "st' \<noteq> demo_proxy" using burst_before by auto
  with admin_requires_key [OF demo_router_fits run(1)] show ?thesis by blast
qed

text \<open>
  The blacklist of targets cannot be changed by any request, because its setter is not in
  the routing table; the blacklist of sources can be changed only under a path with a tab
  character in it.
\<close>

theorem blacklists_not_settable:
  assumes "routes_fit M" and "admin_serve F M key r body st w = Some (w', st')"
  shows "px_targets st' = px_targets st"
    and "px_sources st' = px_sources st \<or> URL_Path r = ''/config'' @ [CHR 0x09] @ ''/srcblacklist''"
proof -
  have "px_targets st' = px_targets st \<and>
      (px_sources st' = px_sources st \<or> URL_Path r = ''/config'' @ [CHR 0x09] @ ''/srcblacklist'')"
    using assms by (rule admin_serve_cases)
      (auto simp: setRate_def setSrcBlackList_def Let_def split: option.splits)
  then show "px_targets st' = px_targets st"
    "px_sources st' = px_sources st \<or> URL_Path r = ''/config'' @ [CHR 0x09] @ ''/srcblacklist''" by auto
qed

theorem blacklists_not_settable_witness:
  "\<exists>w' st'. admin_serve demo_floats demo_router ''secret'' rate_request rate_body demo_proxy new_response = Some (w', st') \<and>
     px_targets st' = initial_targets \<and> px_sources st' = px_sources demo_proxy"
proof -
  obtain w' st' where run: "admin_serve demo_floats demo_router ''secret'' rate_request rate_body demo_proxy new_response = Some (w', st')"
    using rate_served by blast
  have "px_targets demo_proxy = initial_targets" "URL_Path rate_request \<noteq> ''/config'' @ [CHR 0x09] @ ''/srcblacklist''"
    by (simp_all add: demo_proxy_def rate_request_def)
  with blacklists_not_settable [OF demo_router_fits run] run show ?thesis by auto
qed

text \<open>
  \<open>setRate\<close> keeps the limits usable: the free volume and the burst stay positive, a value that
  is absent or not positive changes nothing, and a body that is not a valid request changes
  nothing and is answered 400.
\<close>

theorem setRate_keeps_positive:
  assumes "0 < freeLimit (px_bandwidth st)" and "0 < maxBurst (px_bandwidth st)" and "rw_sent w = None"
  shows "0 < freeLimit (px_bandwidth (snd (setRate F body st w)))"
    and "0 < maxBurst (px_bandwidth (snd (setRate F body st w)))"
    and "status (fst (setRate F body st w)) = 400 \<Longrightarrow> snd (setRate F body st w) = st"
    and "status (fst (setRate F body st w)) \<in> {200, 400}"
  using assms by (auto simp: setRate_def Let_def split: option.splits)

theorem setRate_keeps_positive_witness:
  "0 < maxBurst (px_bandwidth (snd (setRate demo_floats ''{'' demo_proxy new_response)))"
  by (rule setRate_keeps_positive(2)) (simp_all add: demo_proxy_def)

end
