(* ===== verification/Startup.thy ===== *)
theory Startup
  imports Auth Mux Admin
begin

text \<open>
  The proxy process as a whole (\<open>main\<close> of \<open>src/proxy/main.go\<close>): start-up, the public routes behind
  the login gate, and the administration server next to it. Requests act one after the other on the
  state of the process; the relation \<open>site_step\<close> allows every sequence of them. The router, the
  websocket upgrade and the system are parameters.
\<close>

section \<open>Start-up\<close>

record flags =
  fl_pub :: string
  fl_priv :: string
  fl_adm_key :: string
  fl_al :: string

definition default_flags :: flags where
  "default_flags = \<lparr>fl_pub = '':5555'', fl_priv = '':6666'', fl_adm_key = ''qtIazZDhzrYERShXuYpqRx'', fl_al = ''connections.log''\<rparr>"

record server =
  sv_auth :: auth_config
  sv_brand :: branding
  sv_key :: string

text \<open>
  \<open>openFile\<close> opens the connection log for appending and gives its contents. A fatal error ends the
  process; the administration server is started before the login gate is configured.
\<close>

datatype ('f, 'l) startup = UsageExit | FatalExit string | Started server "('f, 'l) proxy"

definition main_start ::
  "flags \<Rightarrow> (string \<Rightarrow> os_error + string) \<Rightarrow> (string \<Rightarrow> duration option) \<Rightarrow> environ \<Rightarrow> (string \<Rightarrow> os_error + bytes) \<Rightarrow>
   ('f, 'l) proxy \<Rightarrow> ('f, 'l) startup" where
  "main_start fl openFile parseDuration env readFile st =
     (if fl_pub fl = [] \<or> fl_priv fl = [] then UsageExit
      else case openFile (fl_al fl) of
          Inl e \<Rightarrow> FatalExit (''failed to open connection log file '' @ fl_al fl)
        | Inr text \<Rightarrow>
            (case initAuth parseDuration env initial_config of
               Fatal msg \<Rightarrow> FatalExit msg
             | Running cfg \<Rightarrow>
                 Started \<lparr>sv_auth = cfg, sv_brand = loadBranding env readFile ''html'' initial_branding, sv_key = fl_adm_key fl\<rparr>
                   (st\<lparr>auditLog := Some text\<rparr>)))"

text \<open>
  The whole start of the program: the variables of the packages, their \<open>init\<close> functions in the order of the
  files, \<open>main\<close>. \<open>hostname\<close> is what \<open>os.Hostname\<close> answers; \<open>one\<close> and \<open>rate\<close> are the numbers 1 and 102400.
\<close>

definition initial_proxy :: "'f floats \<Rightarrow> 'f \<Rightarrow> 'f \<Rightarrow> environ \<Rightarrow> ('f, 'l) proxy" where
  "initial_proxy F one rate env =
     \<lparr>px_sources = initial_sources (src_init F env (initial_src_config one)), px_targets = initial_targets,
      px_bandwidth = initial_bandwidth rate, auditLog = None, activeWebsocks = 0, totalConnectionRequests = 0, totalConnections = 0,
      activeConnections = 0, px_bytes_up = 0, px_bytes_down = 0, px_dials = []\<rparr>"

definition program_start ::
  "os_error + string \<Rightarrow> 'f floats \<Rightarrow> 'f \<Rightarrow> 'f \<Rightarrow> flags \<Rightarrow> (string \<Rightarrow> os_error + string) \<Rightarrow> (string \<Rightarrow> duration option) \<Rightarrow> environ \<Rightarrow>
   (string \<Rightarrow> os_error + bytes) \<Rightarrow> ('f, 'l) startup res" where
  "program_start hostname F one rate fl openFile parseDuration env readFile =
     bind_res (admin_init hostname) (\<lambda>svcHost.
       Returns (main_start fl openFile parseDuration env readFile (initial_proxy F one rate env)))"

lemma program_start_proxy:
  assumes "program_start hostname F one rate fl openFile parseDuration env readFile = Returns (Started sv st)"
  shows "\<exists>log. st = (initial_proxy F one rate env)\<lparr>auditLog := log\<rparr>"
  using assms by (cases "admin_init hostname")
    (auto simp: program_start_def main_start_def split: if_splits sum.splits init_result.splits)

section \<open>Public routes\<close>

datatype endpoint = Login | Logout | ProxySocket | MuxSocket | Static

record public_route =
  pr_path :: string
  pr_prefix :: bool
  pr_endpoint :: endpoint

definition public_routes :: "public_route list" where
  "public_routes =
     [\<lparr>pr_path = ''/auth/login'', pr_prefix = False, pr_endpoint = Login\<rparr>,
      \<lparr>pr_path = ''/auth/logout'', pr_prefix = False, pr_endpoint = Logout\<rparr>,
      \<lparr>pr_path = ''/p'', pr_prefix = False, pr_endpoint = ProxySocket\<rparr>,
      \<lparr>pr_path = ''/ws'', pr_prefix = False, pr_endpoint = ProxySocket\<rparr>,
      \<lparr>pr_path = ''/pm'', pr_prefix = False, pr_endpoint = MuxSocket\<rparr>,
      \<lparr>pr_path = ''/'', pr_prefix = True, pr_endpoint = Static\<rparr>]"

record public_router =
  pm_match :: "public_route list \<Rightarrow> request \<Rightarrow> public_route option"
  pm_nomatch :: "request \<Rightarrow> response_writer \<Rightarrow> response_writer"

text \<open>What is relied on of the router: the route it picks is of the table and fits the path.\<close>

definition public_fit :: "public_router \<Rightarrow> bool" where
  "public_fit M \<longleftrightarrow> (\<forall>rs r rt. pm_match M rs r = Some rt \<longrightarrow> rt \<in> set rs \<and>
     (if pr_prefix rt then HasPrefix (URL_Path r) (pr_path rt) else URL_Path r = pr_path rt))"

text \<open>
  The state that requests act on, and what a request meets outside of the program: file system,
  clock, random numbers, the upgrade of its connection to a websocket (\<open>None\<close> when the request is
  not a websocket handshake), the system calls of the websocket handlers.
\<close>

record ('f, 'l) site =
  st_logins :: login_table
  st_proxy :: "('f, 'l) proxy"

record ('f, 'l) world =
  wd_lib :: weblib
  wd_boundary :: string
  wd_boundary' :: string
  wd_root :: fileSystem
  wd_env :: environ
  wd_clock :: "nat \<Rightarrow> instant"
  wd_rate :: "('f, 'l) ratelib"
  wd_curve :: curve
  wd_rng :: rng
  wd_wss :: wss_env
  wd_yamux :: "transport \<Rightarrow> (mux_env \<times> conn) list io"
  wd_uuid :: "string option"
  wd_upgrade :: "request \<Rightarrow> (conn \<times> string) option"
  wd_no_upgrade :: "request \<Rightarrow> response_writer \<Rightarrow> response_writer"
  wd_router :: public_router

text \<open>The websocket a handler gets: the request identifier is the one \<open>bootHandshake\<close> has set.\<close>

definition upgraded :: "('f, 'l) world \<Rightarrow> request \<Rightarrow> conn \<times> string \<Rightarrow> wss" where
  "upgraded W r c = \<lparr>ws_conn = fst c, ws_header = req_Header r, ws_remote = snd c,
     ws_id = header_Get (bootHandshake (wd_uuid W)) ''X-Request-Id''\<rparr>"

definition public_handle ::
  "('f, 'l) world \<Rightarrow> server \<Rightarrow> endpoint \<Rightarrow> response_writer \<Rightarrow> request \<Rightarrow> ('f, 'l) site \<Rightarrow>
   (response_writer \<times> ('f, 'l) site) res" where
  "public_handle W sv e w r s =
     (case e of
        Login \<Rightarrow> (case handleLogin (appName (sv_brand sv)) (sv_auth sv) (wd_clock W \<circ> Suc) w r (st_logins s) of
            (w', tbl) \<Rightarrow> Returns (w', s\<lparr>st_logins := tbl\<rparr>))
      | Logout \<Rightarrow> Returns (handleLogout w r, s)
      | ProxySocket \<Rightarrow>
          (case wd_upgrade W r of
             None \<Rightarrow> Returns (wd_no_upgrade W r w, s)
           | Some c \<Rightarrow>
               bind_res (handleWss (wd_rate W) (wd_env W) (wd_curve W) (wd_rng W) (wd_wss W) (upgraded W r c) (st_proxy s))
                 (\<lambda>(_, st). Returns (w, s\<lparr>st_proxy := st\<rparr>)))
      | MuxSocket \<Rightarrow>
          (case wd_upgrade W r of
             None \<Rightarrow> Returns (wd_no_upgrade W r w, s)
           | Some c \<Rightarrow>
               bind_res (handleMuxWss (wd_rate W) (wd_env W) (wd_yamux W) (wd_clock W 1) (upgraded W r c) (st_proxy s))
                 (\<lambda>(_, st). Returns (w, s\<lparr>st_proxy := st\<rparr>)))
      | Static \<Rightarrow>
          bind_res (spaFileServer (wd_lib W) (wd_boundary W) (wd_boundary' W) (sv_brand sv) (wd_root W) w r)
            (\<lambda>w'. Returns (w', s)))"

definition public_serve ::
  "('f, 'l) world \<Rightarrow> server \<Rightarrow> response_writer \<Rightarrow> request \<Rightarrow> ('f, 'l) site \<Rightarrow> (response_writer \<times> ('f, 'l) site) res" where
  "public_serve W sv =
     authMiddleware (sv_auth sv) (wd_clock W 0) (\<lambda>w r s.
       case pm_match (wd_router W) public_routes r of
         None \<Rightarrow> Returns (pm_nomatch (wd_router W) r w, s)
       | Some rt \<Rightarrow> public_handle W sv (pr_endpoint rt) w r s)"

section \<open>The process\<close>

text \<open>
  The laws of the parameters: the router fits, and an identifier of \<open>uuid.NewRandom\<close> has 36
  characters.
\<close>

definition world_ok :: "('f, 'l) world \<Rightarrow> bool" where
  "world_ok W \<longleftrightarrow> public_fit (wd_router W) \<and> (\<forall>u. wd_uuid W = Some u \<longrightarrow> length u = 36)"

text \<open>
  One request, public or administrative. The server recovers from the panic of a handler; only the
  handler of static files can panic, and it does not touch the state.
\<close>

inductive site_step :: "server \<Rightarrow> ('f, 'l) site \<Rightarrow> ('f, 'l) site \<Rightarrow> bool" for sv where
  public: "world_ok W \<Longrightarrow> public_serve W sv new_response r s = Returns (w, s') \<Longrightarrow> site_step sv s s'"
| public_panic: "world_ok W \<Longrightarrow> public_serve W sv new_response r s = Panics \<Longrightarrow> site_step sv s s"
| admin: "routes_fit M \<Longrightarrow> admin_serve F M (sv_key sv) r body (st_proxy s) new_response = Some (w, st') \<Longrightarrow>
    site_step sv s (s\<lparr>st_proxy := st'\<rparr>)"

section \<open>Handlers and the gate\<close>

lemma upgraded_id: "world_ok W \<Longrightarrow> 8 \<le> length (ws_id (upgraded W r c))"
  by (auto simp: world_ok_def upgraded_def bootHandshake_def request_id_def header_Get_def header_Set_def get_def
      split: option.splits)

text \<open>The part of the state that the websocket handlers and the administration work on.\<close>

definition proxy_effect :: "('f, 'l) proxy \<Rightarrow> ('f, 'l) proxy \<Rightarrow> bool" where
  "proxy_effect st st' \<longleftrightarrow> activeWebsocks st' = activeWebsocks st \<and> activeConnections st' = activeConnections st \<and>
     blacklistedTargets (px_targets st') = blacklistedTargets (px_targets st) \<and> px_bandwidth st' = px_bandwidth st \<and>
     (\<exists>ds. px_dials st' = px_dials st @ ds \<and> (\<forall>(host, port) \<in> set ds. host \<notin> set (blacklistedTargets (px_targets st))))"

lemma handleWss_effect:
  assumes "8 \<le> length (ws_id ws)" and "in_i64 (activeWebsocks st)"
  shows "\<exists>x st'. handleWss R env X g E ws st = Returns (x, st') \<and> proxy_effect st st'"
proof -
  let ?st = "st\<lparr>activeWebsocks := i64 (activeWebsocks st + 1)\<rparr>"
  obtain x st1 where b: "wss_body R env X g E ws ?st = Returns (x, st1)"
    "wss_effect (fst (fst (getIPAdress R (we_now E 0) (ws_header ws) (ws_remote ws) (px_sources st))))
      (blacklistedTargets (px_targets st)) (x, st1) ?st"
    using wss_body_spec [OF assms(1), of R env X g E ?st] by auto
  have "i64 (i64 (activeWebsocks st + 1) - 1) = activeWebsocks st"
    using i64_add_left [of "activeWebsocks st + 1" "- 1"] assms(2) by simp
  with b show ?thesis by (auto simp: handleWss_def wss_effect_def proxy_effect_def split: if_splits)
qed

lemma public_handle_cases:
  assumes "world_ok W" and "in_i64 (activeWebsocks (st_proxy s))"
  obtains (returns) w' s' where "public_handle W sv e w r s = Returns (w', s')" "proxy_effect (st_proxy s) (st_proxy s')"
    "e \<notin> {ProxySocket, MuxSocket} \<Longrightarrow> st_proxy s' = st_proxy s"
  | (panics) "public_handle W sv e w r s = Panics" "e = Static"
proof -
  have refl: "proxy_effect st st" for st :: "('a, 'b) proxy" by (simp add: proxy_effect_def)
  show thesis
  proof (cases e)
    case Login
    obtain w' tbl where "handleLogin (appName (sv_brand sv)) (sv_auth sv) (wd_clock W \<circ> Suc) w r (st_logins s) = (w', tbl)"
      by fastforce
    with Login show ?thesis by (intro returns [of w' "s\<lparr>st_logins := tbl\<rparr>"]) (auto simp: public_handle_def refl)
  next
    case Logout
    then show ?thesis by (intro returns) (auto simp: public_handle_def refl)
  next
    case ProxySocket
    show ?thesis
    proof (cases "wd_upgrade W r")
      case None
      with ProxySocket show ?thesis by (intro returns) (auto simp: public_handle_def refl)
    next
      case (Some c)
      from handleWss_effect [OF upgraded_id [OF assms(1)] assms(2), of "wd_rate W" "wd_env W" "wd_curve W" "wd_rng W" "wd_wss W" r c]
      obtain x st' where "handleWss (wd_rate W) (wd_env W) (wd_curve W) (wd_rng W) (wd_wss W) (upgraded W r c) (st_proxy s) = Returns (x, st')"
        "proxy_effect (st_proxy s) st'" by blast
      with ProxySocket Some show ?thesis by (intro returns [of w "s\<lparr>st_proxy := st'\<rparr>"]) (auto simp: public_handle_def)
    qed
  next
    case MuxSocket
    show ?thesis
    proof (cases "wd_upgrade W r")
      case None
      with MuxSocket show ?thesis by (intro returns) (auto simp: public_handle_def refl)
    next
      case (Some c)
      from handleMuxWss_effect [of "wd_rate W" "wd_env W" "wd_yamux W" "wd_clock W 1" "upgraded W r c" "st_proxy s"]
      obtain x st' where "handleMuxWss (wd_rate W) (wd_env W) (wd_yamux W) (wd_clock W 1) (upgraded W r c) (st_proxy s) = Returns (x, st')"
        "mux_effect (st_proxy s) st'" by blast
      with MuxSocket Some show ?thesis
        by (intro returns [of w "s\<lparr>st_proxy := st'\<rparr>"]) (auto simp: public_handle_def mux_effect_def proxy_effect_def)
    qed
  next
    case Static
    show ?thesis
    proof (cases "spaFileServer (wd_lib W) (wd_boundary W) (wd_boundary' W) (sv_brand sv) (wd_root W) w r")
      case Panics
      with Static show ?thesis by (intro panics) (auto simp: public_handle_def)
    next
      case (Returns w')
      with Static show ?thesis by (intro returns) (auto simp: public_handle_def refl)
    qed
  qed
qed

text \<open>A request that the gate does not let through, and the routes of the paths that are open to everyone.\<close>

lemma open_paths_no_socket:
  assumes "public_fit M" and "pm_match M public_routes r = Some rt"
    and "HasPrefix (URL_Path r) ''/auth/'' \<or> isPublicAsset (URL_Path r)"
  shows "pr_endpoint rt \<notin> {ProxySocket, MuxSocket}"
proof -
  have rt: "rt \<in> set public_routes" "if pr_prefix rt then HasPrefix (URL_Path r) (pr_path rt) else URL_Path r = pr_path rt"
    using assms(1,2) unfolding public_fit_def by blast+
  show ?thesis using rt assms(3) by (auto simp: public_routes_def HasPrefix_def isPublicAsset_def)
qed

lemma public_serve_cases:
  assumes "world_ok W" and "in_i64 (activeWebsocks (st_proxy s))" and "public_serve W sv w r s = Returns (w', s')"
  shows "proxy_effect (st_proxy s) (st_proxy s')"
    and "gateEnabled (sv_auth sv) \<Longrightarrow> \<not> authed (sv_auth sv) (wd_clock W 0) r \<Longrightarrow> st_proxy s' = st_proxy s"
proof -
  have refl: "proxy_effect (st_proxy s) (st_proxy s)" by (simp add: proxy_effect_def)
  let ?open = "HasPrefix (URL_Path r) ''/auth/'' \<or> isPublicAsset (URL_Path r)"
  have "proxy_effect (st_proxy s) (st_proxy s') \<and>
    (gateEnabled (sv_auth sv) \<and> \<not> authed (sv_auth sv) (wd_clock W 0) r \<longrightarrow> st_proxy s' = st_proxy s)"
  proof (cases "pm_match (wd_router W) public_routes r")
    case None
    with assms(3) refl show ?thesis by (auto simp: public_serve_def authMiddleware_def split: if_splits)
  next
    case (Some rt)
    show ?thesis
    proof (cases "\<not> gateEnabled (sv_auth sv) \<or> ?open \<or> authed (sv_auth sv) (wd_clock W 0) r")
      case False
      with assms(3) refl show ?thesis by (auto simp: public_serve_def authMiddleware_def split: if_splits)
    next
      case True
      with assms(3) Some have h: "public_handle W sv (pr_endpoint rt) w r s = Returns (w', s')"
        by (auto simp: public_serve_def authMiddleware_def)
      have "?open \<Longrightarrow> pr_endpoint rt \<notin> {ProxySocket, MuxSocket}"
        using open_paths_no_socket Some assms(1) unfolding world_ok_def by blast
      with True show ?thesis using public_handle_cases [OF assms(1,2), of sv "pr_endpoint rt" w r] h
        by (metis Pair_inject res.distinct(1) res.inject)
    qed
  qed
  then show "proxy_effect (st_proxy s) (st_proxy s')"
    and "gateEnabled (sv_auth sv) \<Longrightarrow> \<not> authed (sv_auth sv) (wd_clock W 0) r \<Longrightarrow> st_proxy s' = st_proxy s" by auto
qed

lemma initAuth_gate: "initAuth parseDuration env c0 = Running cfg \<Longrightarrow> \<not> truthy (env ''AUTH_DISABLED'') \<Longrightarrow> gateEnabled cfg"
  by (auto simp: initAuth_def Let_def split: if_splits option.splits)

text \<open>
  C1. The gate protects the proxy: in a process that started without \<open>AUTH_DISABLED\<close>, a request
  without a valid session leaves the whole proxy state as it was, whatever its path, method,
  headers and the router do: no websocket is served, nothing is dialled and nothing is logged.
\<close>

theorem unauthenticated_cannot_proxy:
  assumes "main_start fl openFile parseDuration env readFile st0 = Started sv st" and "\<not> truthy (env ''AUTH_DISABLED'')"
    and "world_ok W" and "in_i64 (activeWebsocks (st_proxy s))" and "\<not> authed (sv_auth sv) (wd_clock W 0) r"
    and "public_serve W sv w r s = Returns (w', s')"
  shows "st_proxy s' = st_proxy s"
proof -
  obtain cfg where "initAuth parseDuration env initial_config = Running cfg" "sv_auth sv = cfg"
    using assms(1) by (auto simp: main_start_def split: if_splits sum.splits init_result.splits)
  with assms(2) have "gateEnabled (sv_auth sv)" using initAuth_gate by blast
  with public_serve_cases(2) [OF assms(3,4,6)] assms(5) show ?thesis by blast
qed

definition demo_environ :: environ where
  "demo_environ v = (if v = ''TOTP_SEED'' then ''JBSWY3DPEHPK3PXP'' else if v = ''SESSION_SECRET'' then ''0123456789abcdef'' else [])"

lemma demo_auth_runs: "\<exists>cfg. initAuth (\<lambda>_. None) demo_environ initial_config = Running cfg \<and> gateEnabled cfg"
proof -
  have "case initAuth (\<lambda>_. None) demo_environ initial_config of Running cfg \<Rightarrow> gateEnabled cfg | Fatal _ \<Rightarrow> False"
    by code_simp
  then show ?thesis by (auto split: init_result.splits)
qed

definition demo_public :: public_router where
  "demo_public = \<lparr>pm_match = (\<lambda>rs r. find (\<lambda>rt. if pr_prefix rt then HasPrefix (URL_Path r) (pr_path rt) else URL_Path r = pr_path rt) rs),
     pm_nomatch = (\<lambda>r. NotFound)\<rparr>"

definition demo_world :: "(int, int) world" where
  "demo_world = \<lparr>wd_lib = seconds_lib, wd_boundary = ''b'', wd_boundary' = ''c'', wd_root = (\<lambda>_. Inl ErrNotExist), wd_env = demo_environ,
     wd_clock = (\<lambda>_. 0), wd_rate = demo_ratelib, wd_curve = demo_group, wd_rng = demo_random, wd_wss = demo_env,
     wd_yamux = (\<lambda>_. Inr [(demo_mux_env, open_conn)]), wd_uuid = None, wd_upgrade = (\<lambda>_. Some (open_conn, ''<nil>'')),
     wd_no_upgrade = (\<lambda>r. WriteHeader 400), wd_router = demo_public\<rparr>"

lemma demo_world_ok: "world_ok demo_world"
  by (auto simp: world_ok_def demo_world_def public_fit_def demo_public_def find_Some_iff)

definition demo_site :: "(int, int) site" where
  "demo_site = \<lparr>st_logins = (\<lambda>_. None), st_proxy = demo_proxy\<rparr>"

text \<open>A websocket request without a cookie, in a process that has been configured.\<close>

theorem unauthenticated_cannot_proxy_witness:
  "\<exists>sv st w' s'. main_start default_flags (\<lambda>_. Inr []) (\<lambda>_. None) demo_environ (\<lambda>_. Inl ErrNotExist) demo_proxy = Started sv st \<and>
     public_serve demo_world sv new_response (page_request\<lparr>URL_Path := ''/p''\<rparr>) demo_site = Returns (w', s') \<and> status w' = 401 \<and>
     st_proxy s' = demo_proxy"
proof -
  obtain cfg where cfg: "initAuth (\<lambda>_. None) demo_environ initial_config = Running cfg" "gateEnabled cfg"
    using demo_auth_runs by blast
  define sv where "sv = \<lparr>sv_auth = cfg, sv_brand = loadBranding demo_environ (\<lambda>_. Inl ErrNotExist) ''html'' initial_branding,
      sv_key = fl_adm_key default_flags\<rparr>"
  have start: "main_start default_flags (\<lambda>_. Inr []) (\<lambda>_. None) demo_environ (\<lambda>_. Inl ErrNotExist) demo_proxy =
      Started sv (demo_proxy\<lparr>auditLog := Some []\<rparr>)"
    using cfg(1) by (simp add: main_start_def default_flags_def sv_def)
  let ?r = "page_request\<lparr>URL_Path := ''/p''\<rparr>"
  have anon: "\<not> authed (sv_auth sv) (wd_clock demo_world 0) ?r" by (simp add: authed_def cookie_def page_request_def)
  have facts: "\<not> HasPrefix ''/p'' ''/auth/''" "\<not> isPublicAsset ''/p''" "\<not> Contains (header_Get (req_Header ?r) ''Accept'') ''text/html''"
    "\<not> truthy (demo_environ ''AUTH_DISABLED'')"
    by code_simp+
  then obtain w' s' where run: "public_serve demo_world sv new_response ?r demo_site = Returns (w', s')" "status w' = 401"
    using anon cfg(2) by (simp add: public_serve_def authMiddleware_def sv_def page_request_def)
  have "st_proxy s' = st_proxy demo_site"
    by (rule unauthenticated_cannot_proxy [OF start facts(4) demo_world_ok _ anon run(1)]) (simp add: demo_site_def demo_proxy_def in_i64_def)
  with start run show ?thesis by (simp add: demo_site_def)
qed

section \<open>Every sequence of requests\<close>

lemma site_step_proxy:
  assumes "site_step sv s s'" and "in_i64 (activeWebsocks (st_proxy s))"
  shows "proxy_effect (st_proxy s) (st_proxy s') \<or>
    (\<exists>bw srcs. st_proxy s' = (st_proxy s)\<lparr>px_bandwidth := bw, px_sources := srcs\<rparr> \<and>
       (0 < freeLimit (px_bandwidth (st_proxy s)) \<longrightarrow> 0 < freeLimit bw) \<and> (0 < maxBurst (px_bandwidth (st_proxy s)) \<longrightarrow> 0 < maxBurst bw))"
  using assms(1)
proof (cases rule: site_step.cases)
  case (public W r w)
  then show ?thesis using public_serve_cases(1) assms(2) by blast
next
  case (public_panic W r)
  then show ?thesis by (simp add: proxy_effect_def)
next
  case (admin M F r body w st')
  from admin(2,3) show ?thesis
  proof (cases rule: admin_serve_cases)
    case same
    with admin(1) show ?thesis by (simp add: proxy_effect_def)
  next
    case rate
    define bw where "bw = px_bandwidth (snd (setRate F body (st_proxy s) new_response))"
    have "st' = (st_proxy s)\<lparr>px_bandwidth := bw, px_sources := px_sources (st_proxy s)\<rparr>"
    proof -
      have "st' = snd (setRate F body (st_proxy s) new_response)" using rate(4) by (metis snd_conv)
      also have "\<dots> = (st_proxy s)\<lparr>px_bandwidth := bw\<rparr>" unfolding bw_def by (rule setRate_bandwidth(1))
      finally show ?thesis by simp
    qed
    with admin(1) setRate_bandwidth(2,3) [of "st_proxy s" F body new_response] show ?thesis
      by (intro disjI2 exI [of _ bw] exI [of _ "px_sources (st_proxy s)"]) (simp add: bw_def)
  next
    case src
    define srcs where "srcs = px_sources (snd (setSrcBlackList body (st_proxy s) new_response))"
    have "st' = (st_proxy s)\<lparr>px_bandwidth := px_bandwidth (st_proxy s), px_sources := srcs\<rparr>"
    proof -
      have "st' = snd (setSrcBlackList body (st_proxy s) new_response)" using src(4) by (metis snd_conv)
      also have "\<dots> = (st_proxy s)\<lparr>px_sources := srcs\<rparr>" unfolding srcs_def by (rule setSrcBlackList_sources)
      finally show ?thesis by simp
    qed
    with admin(1) show ?thesis
      by (intro disjI2 exI [of _ "px_bandwidth (st_proxy s)"] exI [of _ srcs]) simp
  qed
qed

text \<open>
  The invariant of the process: only targets that the blacklist allows have ever been dialled, no
  websocket or connection is counted as open between requests, and the bandwidth limits are positive.
\<close>

definition site_inv :: "string list \<Rightarrow> ('f, 'l) site \<Rightarrow> bool" where
  "site_inv bl s \<longleftrightarrow> blacklistedTargets (px_targets (st_proxy s)) = bl \<and>
     (\<forall>(host, port) \<in> set (px_dials (st_proxy s)). host \<notin> set bl) \<and>
     activeWebsocks (st_proxy s) = 0 \<and> activeConnections (st_proxy s) = 0 \<and>
     0 < freeLimit (px_bandwidth (st_proxy s)) \<and> 0 < maxBurst (px_bandwidth (st_proxy s))"

lemma site_step_inv: "site_step sv s s' \<Longrightarrow> site_inv bl s \<Longrightarrow> site_inv bl s'"
  using site_step_proxy [of sv s s'] by (auto simp: site_inv_def proxy_effect_def in_i64_def)

interpretation site: preserved "site_step sv" "site_inv bl" for sv bl
  by unfold_locales (rule site_step_inv)

text \<open>
  C2. Over the whole life of the process, from its start with any environment through every sequence of public and
  administrative requests with every behaviour of clients, targets and the system: the target
  blacklist is the one of the source, no target on it has ever been dialled, between
  requests every websocket and connection counter is back at zero, and the bandwidth limits stay positive.
\<close>

theorem site_invariant:
  assumes "program_start hostname F one rate fl openFile parseDuration env readFile = Returns (Started sv st)"
    and "(site_step sv)\<^sup>*\<^sup>* \<lparr>st_logins = (\<lambda>_. None), st_proxy = st\<rparr> s"
  shows "blacklistedTargets (px_targets (st_proxy s)) = [''localhost'', ''127.0.0.1'', ''::1''] \<and>
    fst ` set (px_dials (st_proxy s)) \<inter> {''localhost'', ''127.0.0.1'', ''::1''} = {} \<and>
    activeWebsocks (st_proxy s) = 0 \<and> activeConnections (st_proxy s) = 0 \<and>
    0 < freeLimit (px_bandwidth (st_proxy s)) \<and> 0 < maxBurst (px_bandwidth (st_proxy s))"
proof -
  have "site_inv [''localhost'', ''127.0.0.1'', ''::1''] \<lparr>st_logins = (\<lambda>_. None), st_proxy = st\<rparr>"
    using program_start_proxy [OF assms(1)]
    by (auto simp: site_inv_def initial_proxy_def initial_targets_def initial_bandwidth_def)
  from site.reached [OF assms(2) this]
  have "site_inv [''localhost'', ''127.0.0.1'', ''::1''] s" .
  then show ?thesis unfolding site_inv_def by fastforce
qed

theorem site_invariant_witness:
  "\<exists>sv st s. program_start (Inr ''host'') demo_floats 1 102400 (default_flags\<lparr>fl_adm_key := ''secret''\<rparr>) (\<lambda>_. Inr []) (\<lambda>_. None) demo_environ
       (\<lambda>_. Inl ErrNotExist) = Returns (Started sv (st :: (int, int) proxy)) \<and>
     (site_step sv)\<^sup>*\<^sup>* \<lparr>st_logins = (\<lambda>_. None), st_proxy = st\<rparr> s \<and>
     maxBurst (px_bandwidth (st_proxy s)) = 1000 \<and> activeWebsocks (st_proxy s) = 0"
proof -
  obtain cfg where cfg: "initAuth (\<lambda>_. None) demo_environ initial_config = Running cfg" using demo_auth_runs by blast
  define fl where "fl = default_flags\<lparr>fl_adm_key := ''secret''\<rparr>"
  define st :: "(int, int) proxy" where "st = (initial_proxy demo_floats 1 102400 demo_environ)\<lparr>auditLog := Some []\<rparr>"
  define sv where "sv = \<lparr>sv_auth = cfg, sv_brand = loadBranding demo_environ (\<lambda>_. Inl ErrNotExist) ''html'' initial_branding,
      sv_key = ''secret''\<rparr>"
  have start: "program_start (Inr ''host'') demo_floats 1 102400 fl (\<lambda>_. Inr []) (\<lambda>_. None) demo_environ (\<lambda>_. Inl ErrNotExist) =
      Returns (Started sv st)"
    using cfg by (simp add: program_start_def admin_init_def main_start_def fl_def default_flags_def sv_def st_def)
  obtain w' st' where run: "admin_serve demo_floats demo_router ''secret'' rate_request rate_body st new_response = Some (w', st')"
    "maxBurst (px_bandwidth st') = 1000" using rate_served by blast
  let ?s = "\<lparr>st_logins = (\<lambda>_. None), st_proxy = st\<rparr> :: (int, int) site"
  have "site_step sv ?s (?s\<lparr>st_proxy := st'\<rparr>)"
    by (rule site_step.admin [OF demo_router_fits, of demo_floats _ rate_request rate_body _ w']) (use run(1) in \<open>simp add: sv_def\<close>)
  then have reach: "(site_step sv)\<^sup>*\<^sup>* ?s (?s\<lparr>st_proxy := st'\<rparr>)" by (rule r_into_rtranclp)
  have "activeWebsocks st' = 0" using site_invariant [OF start reach] by simp
  with start reach run(2) show ?thesis unfolding fl_def
    by (intro exI [of _ sv] exI [of _ st] exI [of _ "?s\<lparr>st_proxy := st'\<rparr>"]) simp
qed

end
