(* ===== verification/Shutdown.thy ===== *)
theory Shutdown
  imports Proxy
begin

text \<open>
  The life of the proxy process after start-up (the rest of \<open>main\<close> in \<open>src/proxy/main.go\<close>) with its
  connections running concurrently: an interrupt shuts the public server down, which waits for
  requests but not for the websockets they have become; then the process polls the counter of open
  websockets and ends when it is not positive.
\<close>

section \<open>The process\<close>

datatype stage = Serving | Draining | Polling nat | Exited | Died

text \<open>
  Connections: requests in progress; \<open>/p\<close> websockets whose handler has not run its first
  statement yet, and those it has counted; \<open>/pm\<close> websockets. \<open>pc_active\<close> is \<open>activeWebsocks\<close>.
\<close>

record process =
  pc_stage :: stage
  pc_requests :: nat
  pc_upgraded :: nat
  pc_counted :: nat
  pc_mux :: nat
  pc_active :: int

definition running :: "process \<Rightarrow> bool" where
  "running s \<longleftrightarrow> pc_stage s \<noteq> Exited \<and> pc_stage s \<noteq> Died"

text \<open>What \<open>handleWss\<close> does to the counter when it begins, and deferred when it ends.\<close>

definition wss_enter :: "process \<Rightarrow> process" where
  "wss_enter s = s\<lparr>pc_upgraded := pc_upgraded s - 1, pc_counted := pc_counted s + 1, pc_active := i64 (pc_active s + 1)\<rparr>"

definition wss_leave :: "process \<Rightarrow> process" where
  "wss_leave s = s\<lparr>pc_counted := pc_counted s - 1, pc_active := i64 (pc_active s - 1)\<rparr>"

text \<open>One turn of the loop at the end of \<open>main\<close>.\<close>

definition poll :: "nat \<Rightarrow> process \<Rightarrow> process" where
  "poll wc s = s\<lparr>pc_stage := (case await_websockets [pc_active s] wc of Some _ \<Rightarrow> Exited | None \<Rightarrow> Polling (wc + 1))\<rparr>"

inductive process_step :: "process \<Rightarrow> process \<Rightarrow> bool" where
  accept: "pc_stage s = Serving \<Longrightarrow> process_step s (s\<lparr>pc_requests := pc_requests s + 1\<rparr>)"
| respond: "running s \<Longrightarrow> 0 < pc_requests s \<Longrightarrow> process_step s (s\<lparr>pc_requests := pc_requests s - 1\<rparr>)"
| upgrade: "running s \<Longrightarrow> 0 < pc_requests s \<Longrightarrow>
    process_step s (s\<lparr>pc_requests := pc_requests s - 1, pc_upgraded := pc_upgraded s + 1\<rparr>)"
| upgrade_mux: "running s \<Longrightarrow> 0 < pc_requests s \<Longrightarrow>
    process_step s (s\<lparr>pc_requests := pc_requests s - 1, pc_mux := pc_mux s + 1\<rparr>)"
| enter: "running s \<Longrightarrow> 0 < pc_upgraded s \<Longrightarrow> process_step s (wss_enter s)"
| leave: "running s \<Longrightarrow> 0 < pc_counted s \<Longrightarrow> process_step s (wss_leave s)"
| leave_mux: "running s \<Longrightarrow> 0 < pc_mux s \<Longrightarrow> process_step s (s\<lparr>pc_mux := pc_mux s - 1\<rparr>)"
| listen_failed: "pc_stage s = Serving \<Longrightarrow> process_step s (s\<lparr>pc_stage := Died\<rparr>)"
| interrupt: "pc_stage s = Serving \<Longrightarrow> process_step s (s\<lparr>pc_stage := Draining\<rparr>)"
| drained: "pc_stage s = Draining \<Longrightarrow> pc_requests s = 0 \<Longrightarrow> process_step s (s\<lparr>pc_stage := Polling 0\<rparr>)"
| polled: "pc_stage s = Polling wc \<Longrightarrow> process_step s (poll wc s)"

inductive_cases process_stepE: "process_step s s'"

definition started :: process where
  "started = \<lparr>pc_stage = Serving, pc_requests = 0, pc_upgraded = 0, pc_counted = 0, pc_mux = 0, pc_active = 0\<rparr>"

section \<open>Shutting down\<close>

text \<open>
  The counter counts the \<open>/p\<close> websockets, in 64 bits; once the server has drained no request is in
  progress, and the process ends only when the counter was not positive.
\<close>

definition process_inv :: "process \<Rightarrow> bool" where
  "process_inv s \<longleftrightarrow> pc_active s = i64 (int (pc_counted s)) \<and>
     (pc_stage s \<noteq> Serving \<and> pc_stage s \<noteq> Draining \<and> pc_stage s \<noteq> Died \<longrightarrow> pc_requests s = 0) \<and>
     (pc_stage s = Exited \<longrightarrow> pc_active s \<le> 0)"

lemma process_inv_step: "process_step s s' \<Longrightarrow> process_inv s \<Longrightarrow> process_inv s'"
proof (induction rule: process_step.induct)
  case (enter s)
  then show ?case by (auto simp: process_inv_def wss_enter_def running_def algebra_simps)
next
  case (leave s)
  then have "i64 (i64 (int (pc_counted s)) - 1) = i64 (int (pc_counted s - 1))"
    using i64_add_left [of "int (pc_counted s)" "- 1"] by (simp add: of_nat_diff)
  with leave show ?case by (auto simp: process_inv_def wss_leave_def running_def)
qed (auto simp: process_inv_def poll_def running_def split: if_splits)

interpretation process: preserved process_step process_inv
  by unfold_locales (rule process_inv_step)

text \<open>Any number of connections can be open when the interrupt comes.\<close>

lemma open_connections: "process_step\<^sup>*\<^sup>* started (started\<lparr>pc_mux := m, pc_upgraded := u\<rparr>)"
proof (induction u)
  case 0
  show ?case
  proof (induction m)
    case (Suc m)
    have "process_step (started\<lparr>pc_mux := m, pc_upgraded := 0\<rparr>) (started\<lparr>pc_mux := m, pc_upgraded := 0, pc_requests := 1\<rparr>)"
      using accept [of "started\<lparr>pc_mux := m, pc_upgraded := 0\<rparr>"] by (simp add: started_def)
    moreover have "process_step (started\<lparr>pc_mux := m, pc_upgraded := 0, pc_requests := 1\<rparr>) (started\<lparr>pc_mux := Suc m, pc_upgraded := 0\<rparr>)"
      using upgrade_mux [of "started\<lparr>pc_mux := m, pc_upgraded := 0, pc_requests := 1\<rparr>"] by (simp add: started_def running_def)
    ultimately show ?case using Suc by (meson rtranclp.rtrancl_into_rtrancl)
  qed (simp add: started_def)
next
  case (Suc u)
  have "process_step (started\<lparr>pc_mux := m, pc_upgraded := u\<rparr>) (started\<lparr>pc_mux := m, pc_upgraded := u, pc_requests := 1\<rparr>)"
    using accept [of "started\<lparr>pc_mux := m, pc_upgraded := u\<rparr>"] by (simp add: started_def)
  moreover have "process_step (started\<lparr>pc_mux := m, pc_upgraded := u, pc_requests := 1\<rparr>) (started\<lparr>pc_mux := m, pc_upgraded := Suc u\<rparr>)"
    using upgrade [of "started\<lparr>pc_mux := m, pc_upgraded := u, pc_requests := 1\<rparr>"] by (simp add: started_def running_def)
  ultimately show ?case using Suc by (meson rtranclp.rtrancl_into_rtrancl)
qed

lemma exit_from_idle:
  assumes "pc_stage s = Serving" and "pc_requests s = 0" and "pc_active s \<le> 0"
  shows "process_step\<^sup>*\<^sup>* s (s\<lparr>pc_stage := Exited\<rparr>)"
proof -
  have "process_step s (s\<lparr>pc_stage := Draining\<rparr>)" using assms by (intro interrupt)
  moreover have "process_step (s\<lparr>pc_stage := Draining\<rparr>) (s\<lparr>pc_stage := Polling 0\<rparr>)"
    using drained [of "s\<lparr>pc_stage := Draining\<rparr>"] assms by simp
  moreover have "process_step (s\<lparr>pc_stage := Polling 0\<rparr>) (s\<lparr>pc_stage := Exited\<rparr>)"
    using polled [of "s\<lparr>pc_stage := Polling 0\<rparr>" 0] assms by (simp add: poll_def)
  ultimately show ?thesis by (meson converse_rtranclp_into_rtranclp rtranclp.rtrancl_refl)
qed

text \<open>
  C16. A process that has ended after an interrupt has no request in progress and no counted websocket.
  But it does not wait for multiplexed connections, which are the default, nor for a websocket
  whose handler has not begun: it can end with any number of them open.
\<close>

theorem exit_waits_for_counted:
  "(process_step\<^sup>*\<^sup>* started s \<and> pc_stage s = Exited \<and> pc_counted s < 2 ^ 63 \<longrightarrow> pc_requests s = 0 \<and> pc_counted s = 0) \<and>
   (\<exists>s'. process_step\<^sup>*\<^sup>* started s' \<and> pc_stage s' = Exited \<and> pc_mux s' = m \<and> pc_upgraded s' = u)"
proof (intro conjI impI)
  assume s: "process_step\<^sup>*\<^sup>* started s \<and> pc_stage s = Exited \<and> pc_counted s < 2 ^ 63"
  have "process_inv started" by (simp add: process_inv_def started_def in_i64_def)
  with s have inv: "process_inv s" using process.reached by blast
  then show "pc_requests s = 0" using s by (simp add: process_inv_def)
  have "in_i64 (int (pc_counted s))" using s by (simp add: in_i64_def)
  with inv s show "pc_counted s = 0" by (simp add: process_inv_def)
next
  let ?s = "started\<lparr>pc_mux := m, pc_upgraded := u\<rparr>"
  have "process_step\<^sup>*\<^sup>* ?s (?s\<lparr>pc_stage := Exited\<rparr>)" by (rule exit_from_idle) (simp_all add: started_def)
  with open_connections have "process_step\<^sup>*\<^sup>* started (?s\<lparr>pc_stage := Exited\<rparr>)" by (rule rtranclp_trans)
  then show "\<exists>s'. process_step\<^sup>*\<^sup>* started s' \<and> pc_stage s' = Exited \<and> pc_mux s' = m \<and> pc_upgraded s' = u"
    by (intro exI [of _ "?s\<lparr>pc_stage := Exited\<rparr>"]) simp
qed

theorem exit_waits_for_counted_witness:
  "\<exists>s. process_step\<^sup>*\<^sup>* started s \<and> pc_stage s = Exited \<and> pc_mux s = 2 \<and> pc_requests s = 0 \<and> pc_counted s = 0"
proof -
  let ?s = "started\<lparr>pc_mux := 2, pc_upgraded := 1\<rparr>"
  have "process_step\<^sup>*\<^sup>* ?s (?s\<lparr>pc_stage := Exited\<rparr>)" by (rule exit_from_idle) (simp_all add: started_def)
  with open_connections have reach: "process_step\<^sup>*\<^sup>* started (?s\<lparr>pc_stage := Exited\<rparr>)" by (rule rtranclp_trans)
  moreover have "pc_counted (?s\<lparr>pc_stage := Exited\<rparr>) < 2 ^ 63" by (simp add: started_def)
  ultimately have "pc_requests (?s\<lparr>pc_stage := Exited\<rparr>) = 0 \<and> pc_counted (?s\<lparr>pc_stage := Exited\<rparr>) = 0"
    by (intro mp [OF conjunct1 [OF exit_waits_for_counted [of _ 2 1]]]) simp
  with reach show ?thesis by (intro exI [of _ "?s\<lparr>pc_stage := Exited\<rparr>"]) simp
qed

end
