(* ===== verification/Reverse.thy ===== *)
theory Reverse
  imports Transport
begin

text \<open>
  Reverse port forwarding in the browser (\<open>src/web/reverse.go\<close>). The forwards are objects that
  the map \<open>revFwds\<close> and the accept loops share, so the state has a store of objects addressed by
  numbers. Goroutines interleave: one step is one critical section. The remote side opens,
  refuses or ends a listener and delivers connections.
\<close>

section \<open>State\<close>

record revFwd =
  rf_host :: string
  rf_port :: int
  rf_stopped :: bool

datatype callback = CbOk string string | CbErr string

text \<open>
  \<open>rv_pending\<close>: goroutines about to call \<open>Listen\<close>; \<open>rv_loops\<close>: accept loops, with the key they listen
  on and their object; \<open>rv_forwarded\<close>: connections handed to \<open>handleReverseConn\<close>, with their key.
\<close>

record rev_state =
  rv_client :: bool
  revFwds :: "string \<Rightarrow> nat option"
  rv_objs :: "revFwd list"
  rv_pending :: "(string \<times> string \<times> int) list"
  rv_loops :: "(string \<times> nat) list"
  rv_callbacks :: "callback list"
  rv_forwarded :: "(string \<times> string \<times> int) list"

definition rev_init :: "bool \<Rightarrow> rev_state" where
  "rev_init client = \<lparr>rv_client = client, revFwds = (\<lambda>_. None), rv_objs = [], rv_pending = [], rv_loops = [],
     rv_callbacks = [], rv_forwarded = []\<rparr>"

section \<open>Operations\<close>

definition invokeCB :: "bool \<Rightarrow> callback \<Rightarrow> rev_state \<Rightarrow> rev_state" where
  "invokeCB is_function v st = (if is_function then st\<lparr>rv_callbacks := rv_callbacks st @ [v]\<rparr> else st)"

definition rev_key :: "int \<Rightarrow> bool \<Rightarrow> string" where
  "rev_key remotePort bindAll = (if bindAll then ''0.0.0.0'' else ''127.0.0.1'') @ '':'' @ FormatInt remotePort"

definition rev_info :: "string \<Rightarrow> string \<Rightarrow> int \<Rightarrow> string" where
  "rev_info key targetHost targetPort =
     ''remote '' @ key @ '' '' @ [CHR 0xE2, CHR 0x86, CHR 0x92] @ '' '' @ targetHost @ '':'' @ FormatInt targetPort"

record rev_args =
  ra_remotePort :: int
  ra_bindAll :: bool
  ra_targetHost :: string
  ra_targetPort :: int
  ra_cb :: bool

text \<open>\<open>None\<close> stands for a call with fewer than five arguments.\<close>

definition reverseForward :: "rev_args option \<Rightarrow> rev_state \<Rightarrow> rev_state" where
  "reverseForward args st =
     (case args of
        None \<Rightarrow> st
      | Some a \<Rightarrow>
          if \<not> rv_client st then invokeCB (ra_cb a) (CbErr ''no active session'') st
          else let key = rev_key (ra_remotePort a) (ra_bindAll a);
                   info = rev_info key (ra_targetHost a) (ra_targetPort a)
            in (case revFwds st key of
                  Some i \<Rightarrow>
                    invokeCB (ra_cb a) (CbOk key info)
                      (st\<lparr>rv_objs := (rv_objs st)[i := \<lparr>rf_host = ra_targetHost a, rf_port = ra_targetPort a, rf_stopped = False\<rparr>]\<rparr>)
                | None \<Rightarrow> st\<lparr>rv_pending := rv_pending st @ [(key, ra_targetHost a, ra_targetPort a)]\<rparr>))"

text \<open>The goroutine's first part, after \<open>Listen\<close> has returned: an error, or a new listener.\<close>

definition rev_listened :: "bool \<Rightarrow> string option \<Rightarrow> string \<times> string \<times> int \<Rightarrow> rev_state \<Rightarrow> rev_state" where
  "rev_listened cb err p st =
     (case p of (key, host, port) \<Rightarrow>
        let st1 = st\<lparr>rv_pending := remove1 p (rv_pending st)\<rparr> in
        (case err of
           Some e \<Rightarrow> invokeCB cb (CbErr e) st1
         | None \<Rightarrow>
             let i = length (rv_objs st1) in
             invokeCB cb (CbOk key (rev_info key host port))
               (st1\<lparr>rv_objs := rv_objs st1 @ [\<lparr>rf_host = host, rf_port = port, rf_stopped = False\<rparr>],
                    revFwds := (revFwds st1)(key \<mapsto> i), rv_loops := rv_loops st1 @ [(key, i)]\<rparr>)))"

text \<open>One turn of the accept loop: a connection, or the error that ends the loop.\<close>

definition rev_accepted :: "string \<times> nat \<Rightarrow> rev_state \<Rightarrow> rev_state" where
  "rev_accepted lp st =
     (let rf = rv_objs st ! snd lp in
      if rf_stopped rf then st
      else st\<lparr>rv_forwarded := rv_forwarded st @ [(fst lp, rf_host rf, rf_port rf)]\<rparr>)"

definition rev_accept_failed :: "string \<times> nat \<Rightarrow> rev_state \<Rightarrow> rev_state" where
  "rev_accept_failed lp st = st\<lparr>rv_loops := remove1 lp (rv_loops st)\<rparr>"

definition stopReverseForward :: "string option \<Rightarrow> rev_state \<Rightarrow> rev_state" where
  "stopReverseForward args st =
     (case args of
        None \<Rightarrow> st
      | Some key \<Rightarrow>
          (case revFwds st key of
             None \<Rightarrow> st
           | Some i \<Rightarrow> st\<lparr>rv_objs := (rv_objs st)[i := (rv_objs st ! i)\<lparr>rf_stopped := True\<rparr>]\<rparr>))"

text \<open>
  \<open>handleReverseConn\<close>: dial the target; \<open>up\<close> and \<open>down\<close> are the bytes the two copies have moved when
  the first of them ends. The result is the accepted connection and the target's, if any.
\<close>

definition handleReverseConn ::
  "(string \<Rightarrow> int \<Rightarrow> conn io) \<Rightarrow> nat \<Rightarrow> nat \<Rightarrow> conn \<Rightarrow> string \<Rightarrow> int \<Rightarrow> conn \<times> conn option" where
  "handleReverseConn dial up down rc host port =
     (case dial host port of
        Inl e \<Rightarrow> (rc, None)
      | Inr tc \<Rightarrow> (snd (conn_Write (take down (concat (rx tc))) rc), Some (snd (conn_Write (take up (concat (rx rc))) tc))))"

section \<open>Steps\<close>

text \<open>
  The actions of the page and of the remote side. The servers are those that open no second listener for a
  pair of address and port that is being listened on. For port 0, where a server picks a port itself, two
  listeners could have the same key; the page does not ask for port 0, and such servers are left out.
\<close>

datatype rev_act =
    Forward "rev_args option"
  | Listened "string \<times> string \<times> int"
  | ListenFailed "string \<times> string \<times> int" string
  | Accepted "string \<times> nat"
  | AcceptFailed "string \<times> nat"
  | Stop "string option"

inductive rev_step :: "rev_state \<Rightarrow> rev_act \<Rightarrow> rev_state \<Rightarrow> bool" where
  forward: "rev_step st (Forward a) (reverseForward a st)"
| listened: "p \<in> set (rv_pending st) \<Longrightarrow> fst p \<notin> fst ` set (rv_loops st) \<Longrightarrow>
    rev_step st (Listened p) (rev_listened cb None p st)"
| listen_failed: "p \<in> set (rv_pending st) \<Longrightarrow> rev_step st (ListenFailed p e) (rev_listened cb (Some e) p st)"
| accepted: "lp \<in> set (rv_loops st) \<Longrightarrow> rev_step st (Accepted lp) (rev_accepted lp st)"
| accept_failed: "lp \<in> set (rv_loops st) \<Longrightarrow> rev_step st (AcceptFailed lp) (rev_accept_failed lp st)"
| stop: "rev_step st (Stop k) (stopReverseForward k st)"

inductive_cases rev_stepE: "rev_step st act st'"

inductive rev_run :: "rev_state \<Rightarrow> rev_act list \<Rightarrow> rev_state \<Rightarrow> bool" where
  run_Nil: "rev_run st [] st"
| run_Cons: "rev_step st a st1 \<Longrightarrow> rev_run st1 as st2 \<Longrightarrow> rev_run st (a # as) st2"

section \<open>Invariant\<close>

text \<open>
  Registered objects exist; every accept loop works on the object registered under its key, and
  there is at most one loop per key.
\<close>

definition rev_inv :: "rev_state \<Rightarrow> bool" where
  "rev_inv st \<longleftrightarrow>
     (\<forall>key i. revFwds st key = Some i \<longrightarrow> i < length (rv_objs st)) \<and>
     (\<forall>lp \<in> set (rv_loops st). revFwds st (fst lp) = Some (snd lp)) \<and>
     distinct (map fst (rv_loops st)) \<and>
     (\<forall>k1 k2 i. revFwds st k1 = Some i \<longrightarrow> revFwds st k2 = Some i \<longrightarrow> k1 = k2)"

lemma invokeCB_simps [simp]:
  "revFwds (invokeCB b v st) = revFwds st" "rv_objs (invokeCB b v st) = rv_objs st"
  "rv_loops (invokeCB b v st) = rv_loops st" "rv_pending (invokeCB b v st) = rv_pending st"
  "rv_forwarded (invokeCB b v st) = rv_forwarded st"
  by (simp_all add: invokeCB_def)

lemma rev_inv_init: "rev_inv (rev_init c)"
  by (simp add: rev_inv_def rev_init_def)

lemma rev_inv_forward: "rev_inv st \<Longrightarrow> rev_inv (reverseForward a st)"
  by (auto simp: rev_inv_def reverseForward_def Let_def split: option.splits)

lemma rev_listened_ok:
  "rev_listened cb None (key, host, port) st = invokeCB cb (CbOk key (rev_info key host port))
     (st\<lparr>rv_pending := remove1 (key, host, port) (rv_pending st),
         rv_objs := rv_objs st @ [\<lparr>rf_host = host, rf_port = port, rf_stopped = False\<rparr>],
         revFwds := (revFwds st)(key \<mapsto> length (rv_objs st)), rv_loops := rv_loops st @ [(key, length (rv_objs st))]\<rparr>)"
  by (simp add: rev_listened_def Let_def)

lemma rev_inv_listened:
  assumes "rev_inv st" and "fst p \<notin> fst ` set (rv_loops st)"
  shows "rev_inv (rev_listened cb None p st)"
proof -
  obtain key host port where p: "p = (key, host, port)" by (metis prod_cases3)
  have old: "i < length (rv_objs st)" if "revFwds st k = Some i" for k i
    using that assms(1) by (simp add: rev_inv_def)
  have "lp \<in> set (rv_loops st) \<Longrightarrow> fst lp \<noteq> key" for lp using assms(2) p by auto
  with assms old show ?thesis
    unfolding p rev_listened_ok rev_inv_def by (auto simp: less_Suc_eq dest: old)
qed

lemma distinct_map_remove1: "distinct (map f xs) \<Longrightarrow> distinct (map f (remove1 x xs))"
proof (induction xs)
  case (Cons y xs)
  have "f ` set (remove1 x xs) \<subseteq> f ` set xs" by (rule image_mono [OF set_remove1_subset])
  with Cons show ?case by auto
qed simp

lemma rev_inv_step: "rev_step st a st' \<Longrightarrow> rev_inv st \<Longrightarrow> rev_inv st'"
proof (induction rule: rev_step.induct)
  case (listened p st cb)
  then show ?case using rev_inv_listened by blast
next
  case (accept_failed lp st)
  then show ?case
    by (auto simp: rev_accept_failed_def rev_inv_def dest: notin_set_remove1 distinct_remove1
        intro: distinct_map_remove1)
next
  case (forward st a)
  then show ?case by (rule rev_inv_forward)
qed (auto simp: rev_listened_def rev_accepted_def stopReverseForward_def rev_inv_def Let_def
      split: option.splits)

lemma rev_inv_run: "rev_run st as st' \<Longrightarrow> rev_inv st \<Longrightarrow> rev_inv st'"
  by (induction rule: rev_run.induct) (auto dest: rev_inv_step)

section \<open>Stopping\<close>

text \<open>Actions that ask for the forward again, or open a new listener for it.\<close>

definition restarts :: "string \<Rightarrow> rev_act \<Rightarrow> bool" where
  "restarts key act = (case act of
     Forward (Some a) \<Rightarrow> rev_key (ra_remotePort a) (ra_bindAll a) = key
   | Listened p \<Rightarrow> fst p = key
   | _ \<Rightarrow> False)"

definition gated :: "string \<Rightarrow> rev_state \<Rightarrow> bool" where
  "gated key st \<longleftrightarrow> rev_inv st \<and> (\<exists>i. revFwds st key = Some i \<and> rf_stopped (rv_objs st ! i))"

abbreviation forwarded_on :: "string \<Rightarrow> rev_state \<Rightarrow> (string \<times> string \<times> int) list" where
  "forwarded_on key st \<equiv> filter (\<lambda>f. fst f = key) (rv_forwarded st)"

lemma gated_step:
  assumes "rev_step st a st'" and "gated key st" and "\<not> restarts key a"
  shows "gated key st' \<and> forwarded_on key st' = forwarded_on key st"
proof -
  have inv: "rev_inv st'" using assms(1,2) rev_inv_step by (auto simp: gated_def)
  obtain i where i: "revFwds st key = Some i" "rf_stopped (rv_objs st ! i)" "i < length (rv_objs st)"
    using assms(2) by (auto simp: gated_def rev_inv_def)
  have other: "j \<noteq> i" if "revFwds st k = Some j" "k \<noteq> key" for k j
    using that i(1) assms(2) by (auto simp: gated_def rev_inv_def)
  have loop: "snd lp = i" if "lp \<in> set (rv_loops st)" "fst lp = key" for lp
    using that i(1) assms(2) by (auto simp: gated_def rev_inv_def)
  have "revFwds st' key = Some i \<and> rf_stopped (rv_objs st' ! i) \<and> forwarded_on key st' = forwarded_on key st"
    using assms(1)
  proof (cases rule: rev_step.cases)
    case (forward a')
    then show ?thesis using i assms(3) other
      by (auto simp: reverseForward_def restarts_def Let_def split: option.splits)
  next
    case (listened p cb)
    obtain k h q where p: "p = (k, h, q)" by (metis prod_cases3)
    with listened assms(3) have "k \<noteq> key" by (simp add: restarts_def)
    with listened i p show ?thesis by (simp add: rev_listened_ok nth_append)
  next
    case (accepted lp)
    with i loop show ?thesis by (auto simp: rev_accepted_def Let_def)
  next
    case (stop k)
    then show ?thesis using i other
      by (cases "k = Some key") (auto simp: stopReverseForward_def nth_list_update split: option.splits)
  qed (use i in \<open>auto simp: rev_listened_def rev_accept_failed_def Let_def\<close>)
  with inv show ?thesis by (auto simp: gated_def)
qed

lemma gated_run:
  "rev_run st as st' \<Longrightarrow> gated key st \<Longrightarrow> \<forall>a \<in> set as. \<not> restarts key a \<Longrightarrow>
   forwarded_on key st' = forwarded_on key st"
  by (induction rule: rev_run.induct) (auto dest: gated_step)

lemma gated_stop:
  assumes "rev_inv st" and "revFwds st key = Some i"
  shows "gated key (stopReverseForward (Some key) st)"
proof -
  have "i < length (rv_objs st)" using assms by (simp add: rev_inv_def)
  moreover have "rev_inv (stopReverseForward (Some key) st)" using rev_inv_step [OF stop assms(1)] .
  ultimately show ?thesis using assms(2) by (simp add: gated_def stopReverseForward_def)
qed

text \<open>
  Stopping a forward works: from any state the program can reach, once the page stops a
  registered forward no connection that arrives on its port is handed on, through any sequence
  of actions of the page, of the other forwards and of the server, until the page asks for the
  forward again or a new listener is opened for it.
\<close>

theorem stop_gates_forward:
  assumes "rev_run (rev_init client) before st" and "revFwds st key = Some i"
    and "rev_run (stopReverseForward (Some key) st) acts st'" and "\<forall>a \<in> set acts. \<not> restarts key a"
  shows "filter (\<lambda>f. fst f = key) (rv_forwarded st') = filter (\<lambda>f. fst f = key) (rv_forwarded st)"
proof -
  have "rev_inv st" using rev_inv_run [OF assms(1) rev_inv_init] .
  note gated_run [OF assms(3) gated_stop [OF this assms(2)] assms(4)]
  then show ?thesis using assms(2) by (simp add: stopReverseForward_def)
qed

text \<open>
  C32. Asking again for a forward that is registered re-enables it with the new target: the next
  connection on its listener goes to the new host and port. But the registration outlives the
  listener: after the listener has ended, the page is told that the forward is active although
  nothing listens and nothing will.
\<close>

theorem reforward_registered:
  assumes "rev_run (rev_init True) acts st" and "revFwds st (rev_key (ra_remotePort a) (ra_bindAll a)) = Some i"
    and "rv_client st" and "ra_cb a" and "key = rev_key (ra_remotePort a) (ra_bindAll a)"
  shows "((key, i) \<in> set (rv_loops st) \<longrightarrow>
      rv_forwarded (rev_accepted (key, i) (reverseForward (Some a) st)) = rv_forwarded st @ [(key, ra_targetHost a, ra_targetPort a)]) \<and>
    last (rv_callbacks (reverseForward (Some a) st)) = CbOk key (rev_info key (ra_targetHost a) (ra_targetPort a)) \<and>
    rv_loops (reverseForward (Some a) st) = rv_loops st \<and> rv_pending (reverseForward (Some a) st) = rv_pending st"
proof -
  have "i < length (rv_objs st)"
    using rev_inv_run [OF assms(1) rev_inv_init] assms(2) by (simp add: rev_inv_def)
  then have "rv_forwarded (rev_accepted (key, i) (reverseForward (Some a) st)) =
      rv_forwarded st @ [(key, ra_targetHost a, ra_targetPort a)]"
    using assms(2-5) by (simp add: rev_accepted_def reverseForward_def Let_def)
  moreover have "last (rv_callbacks (reverseForward (Some a) st)) = CbOk key (rev_info key (ra_targetHost a) (ra_targetPort a))"
    using assms(2-5) by (simp add: reverseForward_def Let_def invokeCB_def)
  moreover have "rv_loops (reverseForward (Some a) st) = rv_loops st \<and> rv_pending (reverseForward (Some a) st) = rv_pending st"
    using assms(2-5) by (simp add: reverseForward_def Let_def)
  ultimately show ?thesis by blast
qed

section \<open>A run\<close>

definition demo_args :: rev_args where
  "demo_args = \<lparr>ra_remotePort = 8080, ra_bindAll = False, ra_targetHost = ''10.0.0.2'', ra_targetPort = 80, ra_cb = True\<rparr>"

definition demo_key :: string where
  "demo_key = rev_key 8080 False"

definition demo_listening :: rev_state where
  "demo_listening = rev_listened True None (demo_key, ''10.0.0.2'', 80) (reverseForward (Some demo_args) (rev_init True))"

lemma demo_pending:
  "rv_pending (reverseForward (Some demo_args) (rev_init True)) = [(demo_key, ''10.0.0.2'', 80)]"
  "rv_loops (reverseForward (Some demo_args) (rev_init True)) = []"
  by (simp_all add: reverseForward_def demo_args_def rev_init_def demo_key_def Let_def)

lemma demo_steps:
  "rev_step (rev_init True) (Forward (Some demo_args)) (reverseForward (Some demo_args) (rev_init True))"
  "rev_step (reverseForward (Some demo_args) (rev_init True)) (Listened (demo_key, ''10.0.0.2'', 80)) demo_listening"
  unfolding demo_listening_def by (rule forward, rule listened) (simp_all add: demo_pending)

lemma demo_run: "rev_run (rev_init True) [Forward (Some demo_args), Listened (demo_key, ''10.0.0.2'', 80)] demo_listening"
  using demo_steps by (blast intro: run_Cons run_Nil)

lemma demo_state:
  "revFwds demo_listening demo_key = Some 0" "rv_loops demo_listening = [(demo_key, 0)]" "rv_forwarded demo_listening = []"
  "rv_client demo_listening"
  by (simp_all add: demo_listening_def rev_listened_ok reverseForward_def demo_args_def rev_init_def demo_key_def Let_def invokeCB_def)

theorem stop_gates_forward_witness:
  "filter (\<lambda>f. fst f = demo_key) (rv_forwarded (rev_accepted (demo_key, 0) (stopReverseForward (Some demo_key) demo_listening))) = []"
proof -
  have "rv_loops (stopReverseForward (Some demo_key) demo_listening) = [(demo_key, 0)]"
    using demo_state by (simp add: stopReverseForward_def)
  then have "rev_run (stopReverseForward (Some demo_key) demo_listening) [Accepted (demo_key, 0)]
      (rev_accepted (demo_key, 0) (stopReverseForward (Some demo_key) demo_listening))"
    by (intro run_Cons [OF accepted run_Nil]) simp
  from stop_gates_forward [OF demo_run demo_state(1) this] demo_state(3) show ?thesis
    by (simp add: restarts_def)
qed

theorem reforward_registered_witness:
  "last (rv_callbacks (reverseForward (Some demo_args) (rev_accept_failed (demo_key, 0) demo_listening))) =
     CbOk demo_key (rev_info demo_key ''10.0.0.2'' 80) \<and>
   rv_loops (reverseForward (Some demo_args) (rev_accept_failed (demo_key, 0) demo_listening)) = [] \<and>
   rv_forwarded (rev_accepted (demo_key, 0) (reverseForward (Some demo_args) demo_listening)) = [(demo_key, ''10.0.0.2'', 80)]"
proof -
  let ?dead = "rev_accept_failed (demo_key, 0) demo_listening"
  have run: "rev_run (rev_init True) [Forward (Some demo_args), Listened (demo_key, ''10.0.0.2'', 80), AcceptFailed (demo_key, 0)] ?dead"
  proof -
    have "rev_step demo_listening (AcceptFailed (demo_key, 0)) ?dead" by (rule accept_failed) (simp add: demo_state)
    with demo_steps show ?thesis by (blast intro: run_Cons run_Nil)
  qed
  have key: "rev_key (ra_remotePort demo_args) (ra_bindAll demo_args) = demo_key" "ra_cb demo_args"
    "ra_targetHost demo_args = ''10.0.0.2''" "ra_targetPort demo_args = 80"
    by (simp_all add: demo_args_def demo_key_def)
  have dead: "revFwds ?dead demo_key = Some 0" "rv_client ?dead" "rv_loops ?dead = []"
    using demo_state by (simp_all add: rev_accept_failed_def)
  from reforward_registered [OF run, of demo_args 0 demo_key] reforward_registered [OF demo_run, of demo_args 0 demo_key]
  show ?thesis using key dead demo_state by simp
qed

end
