(* ===== verification/ReversePorts.thy ===== *)
theory ReversePorts
  imports Reverse
begin

text \<open>
  What reverse forwarding promises, without its objects, loops and goroutines: a table that says
  to which target the connections of a port go. The forwards of \<open>Reverse\<close> implement it: every run
  of the program is a run of the table.
\<close>

section \<open>The table of ports\<close>

type_synonym target = "string \<times> int"
type_synonym ports = "string \<Rightarrow> target option"

text \<open>\<open>Deliver\<close> hands a connection of the port to the target of the table; a port that is off has none.\<close>

datatype port_event = Enable string target | Disable string | Deliver string target | Idle

fun port_next :: "ports \<Rightarrow> port_event \<Rightarrow> ports option" where
  "port_next m (Enable k t) = Some (m(k \<mapsto> t))"
| "port_next m (Disable k) = Some (m(k := None))"
| "port_next m (Deliver k t) = (if m k = Some t then Some m else None)"
| "port_next m Idle = Some m"

fun port_run :: "ports \<Rightarrow> port_event list \<Rightarrow> ports option" where
  "port_run m [] = Some m"
| "port_run m (e # es) = (case port_next m e of None \<Rightarrow> None | Some m' \<Rightarrow> port_run m' es)"

fun deliveries :: "port_event list \<Rightarrow> (string \<times> string \<times> int) list" where
  "deliveries [] = []"
| "deliveries (Deliver k t # es) = (k, t) # deliveries es"
| "deliveries (e # es) = deliveries es"

lemma port_run_append:
  "port_run m (as @ bs) = (case port_run m as of None \<Rightarrow> None | Some m' \<Rightarrow> port_run m' bs)"
  by (induction as arbitrary: m) (auto split: option.splits)

lemma deliveries_append [simp]: "deliveries (as @ bs) = deliveries as @ deliveries bs"
  by (induction as rule: deliveries.induct) auto

text \<open>The target of a port is the one it was last enabled with, unless it has been disabled since.\<close>

fun last_target :: "port_event list \<Rightarrow> string \<Rightarrow> target option \<Rightarrow> target option" where
  "last_target [] k d = d"
| "last_target (Enable k' t # es) k d = last_target es k (if k' = k then Some t else d)"
| "last_target (Disable k' # es) k d = last_target es k (if k' = k then None else d)"
| "last_target (e # es) k d = last_target es k d"

lemma port_run_target: "port_run m es = Some m' \<Longrightarrow> m' k = last_target es k (m k)"
  by (induction m es rule: port_run.induct; cases "hd es" rule: port_event.exhaust)
    (auto split: option.splits if_splits elim!: port_next.elims)

section \<open>The forwards as a table\<close>

text \<open>A forward is on while an accept loop runs for it and it is not stopped.\<close>

definition ports_of :: "rev_state \<Rightarrow> ports" where
  "ports_of st k =
     (case revFwds st k of
        None \<Rightarrow> None
      | Some i \<Rightarrow>
          if (k, i) \<in> set (rv_loops st) \<and> \<not> rf_stopped (rv_objs st ! i)
          then Some (rf_host (rv_objs st ! i), rf_port (rv_objs st ! i)) else None)"

text \<open>What an action of the program means for the table.\<close>

definition port_event :: "rev_state \<Rightarrow> rev_act \<Rightarrow> port_event" where
  "port_event st a =
     (case a of
        Forward (Some x) \<Rightarrow>
          (let k = rev_key (ra_remotePort x) (ra_bindAll x) in
           if rv_client st \<and> k \<in> fst ` set (rv_loops st) then Enable k (ra_targetHost x, ra_targetPort x) else Idle)
      | Listened (k, host, port) \<Rightarrow> Enable k (host, port)
      | Stop (Some k) \<Rightarrow> Disable k
      | AcceptFailed (k, i) \<Rightarrow> Disable k
      | Accepted (k, i) \<Rightarrow> (case ports_of st k of Some t \<Rightarrow> Deliver k t | None \<Rightarrow> Idle)
      | _ \<Rightarrow> Idle)"

text \<open>
  The events an action may stand for: a forward is enabled by asking for it or by its listener, it
  is disabled by stopping it or by the end of its listener, and only a connection is delivered.
\<close>

definition means :: "rev_act \<Rightarrow> port_event \<Rightarrow> bool" where
  "means a e =
     (case a of
        Forward (Some x) \<Rightarrow> e = Idle \<or> e = Enable (rev_key (ra_remotePort x) (ra_bindAll x)) (ra_targetHost x, ra_targetPort x)
      | Listened (k, host, port) \<Rightarrow> e = Enable k (host, port)
      | Stop (Some k) \<Rightarrow> e = Disable k
      | AcceptFailed (k, i) \<Rightarrow> e = Disable k
      | Accepted (k, i) \<Rightarrow> e = Idle \<or> (case e of Deliver k' t \<Rightarrow> k' = k | _ \<Rightarrow> False)
      | _ \<Rightarrow> e = Idle)"

lemma means_port_event: "means a (port_event st a)"
  by (auto simp: means_def port_event_def Let_def split: rev_act.split option.split prod.split)

section \<open>Refinement\<close>

lemma ports_invokeCB [simp]: "ports_of (invokeCB b v st) = ports_of st"
  by (rule ext) (simp add: ports_of_def split: option.split)

text \<open>Facts of the invariant in the form the steps use them.\<close>

lemma inv_range: "rev_inv st \<Longrightarrow> revFwds st k = Some i \<Longrightarrow> i < length (rv_objs st)"
  by (simp add: rev_inv_def)

lemma inv_inj: "rev_inv st \<Longrightarrow> revFwds st k = Some i \<Longrightarrow> revFwds st k' = Some i \<Longrightarrow> k' = k"
  unfolding rev_inv_def by blast

lemma inv_loop: "rev_inv st \<Longrightarrow> (k, i) \<in> set (rv_loops st) \<Longrightarrow> revFwds st k = Some i"
  by (fastforce simp: rev_inv_def)

lemma inv_live: "rev_inv st \<Longrightarrow> k \<in> fst ` set (rv_loops st) \<longleftrightarrow> (\<exists>i. revFwds st k = Some i \<and> (k, i) \<in> set (rv_loops st))"
  by (force dest: inv_loop)

text \<open>Replacing the object of a key changes the table at this key only.\<close>

lemma ports_update:
  assumes "rev_inv st" and "revFwds st k = Some i" and "rv_objs st' = (rv_objs st)[i := rf]"
    and "revFwds st' = revFwds st" and "rv_loops st' = rv_loops st"
  shows "ports_of st' = (ports_of st)
    (k := if (k, i) \<in> set (rv_loops st) \<and> \<not> rf_stopped rf then Some (rf_host rf, rf_port rf) else None)"
proof
  fix k'
  let ?m = "(ports_of st)(k := if (k, i) \<in> set (rv_loops st) \<and> \<not> rf_stopped rf then Some (rf_host rf, rf_port rf) else None)"
  show "ports_of st' k' = ?m k'"
  proof (cases "k' = k")
    case True
    with assms inv_range [OF assms(1,2)] show ?thesis by (simp add: ports_of_def)
  next
    case False
    then have "ports_of st' k' = ports_of st k'"
    proof (cases "revFwds st k'")
      case (Some j)
      with False inv_inj [OF assms(1) Some, of k] assms(2) have "j \<noteq> i" by blast
      with Some assms(3-5) show ?thesis by (simp add: ports_of_def)
    qed (simp add: ports_of_def assms(4))
    with False show ?thesis by simp
  qed
qed

lemma ports_forward:
  assumes "rev_inv st"
  shows "port_next (ports_of st) (port_event st (Forward a)) = Some (ports_of (reverseForward a st))"
proof (cases "\<exists>x i. a = Some x \<and> rv_client st \<and> revFwds st (rev_key (ra_remotePort x) (ra_bindAll x)) = Some i")
  case True
  then obtain x i where a: "a = Some x" "rv_client st" "revFwds st (rev_key (ra_remotePort x) (ra_bindAll x)) = Some i" by blast
  let ?k = "rev_key (ra_remotePort x) (ra_bindAll x)"
  let ?rf = "\<lparr>rf_host = ra_targetHost x, rf_port = ra_targetPort x, rf_stopped = False\<rparr>"
  have new: "ports_of (reverseForward a st) = (ports_of st)
      (?k := if (?k, i) \<in> set (rv_loops st) then Some (ra_targetHost x, ra_targetPort x) else None)"
    using ports_update [OF assms a(3), of "st\<lparr>rv_objs := (rv_objs st)[i := ?rf]\<rparr>" ?rf] a
    by (simp add: reverseForward_def Let_def)
  have live: "?k \<in> fst ` set (rv_loops st) \<longleftrightarrow> (?k, i) \<in> set (rv_loops st)" using a(3) inv_live [OF assms, of ?k] by simp
  have off: "(?k, i) \<notin> set (rv_loops st) \<Longrightarrow> ports_of st ?k = None" using a(3) by (simp add: ports_of_def)
  show ?thesis
  proof (cases "(?k, i) \<in> set (rv_loops st)")
    case True
    with new live a show ?thesis by (simp add: port_event_def Let_def)
  next
    case False
    with new live off a show ?thesis by (simp add: port_event_def Let_def fun_upd_idem)
  qed
next
  case False
  then have "ports_of (reverseForward a st) = ports_of st" "port_event st (Forward a) = Idle"
    using inv_live [OF assms]
    by (auto simp: reverseForward_def port_event_def Let_def ports_of_def split: option.splits)
  then show ?thesis by simp
qed

lemma ports_step:
  assumes "rev_step st a st'" and "rev_inv st"
  shows "port_next (ports_of st) (port_event st a) = Some (ports_of st') \<and>
    rv_forwarded st' = rv_forwarded st @ deliveries [port_event st a]"
  using assms
proof (cases rule: rev_step.cases)
  case (forward x)
  have "deliveries [port_event st (Forward x)] = []" by (auto simp: port_event_def Let_def split: option.split)
  moreover have "rv_forwarded (reverseForward x st) = rv_forwarded st"
    by (auto simp: reverseForward_def Let_def split: option.split)
  ultimately show ?thesis using ports_forward [OF assms(2), of x] forward by simp
next
  case (listened p cb)
  obtain k host port where p: "p = (k, host, port)" by (metis prod_cases3)
  have "ports_of st' = (ports_of st)(k \<mapsto> (host, port))"
  proof
    fix k'
    have "k \<notin> fst ` set (rv_loops st)" using listened(4) p by simp
    then show "ports_of st' k' = ((ports_of st)(k \<mapsto> (host, port))) k'"
      using listened(2) p inv_range [OF assms(2), of k'] inv_loop [OF assms(2)]
      by (auto simp: ports_of_def rev_listened_ok nth_append image_iff split: option.split)
  qed
  then show ?thesis using listened p by (simp add: port_event_def rev_listened_ok)
next
  case (listen_failed p e cb)
  then show ?thesis
    by (auto simp: port_event_def rev_listened_def ports_of_def Let_def fun_eq_iff split: prod.split option.split)
next
  case (accepted lp)
  obtain k i where lp: "lp = (k, i)" by fastforce
  have "revFwds st k = Some i" using inv_loop [OF assms(2)] accepted lp by simp
  with accepted lp show ?thesis
    by (auto simp: port_event_def rev_accepted_def Let_def ports_of_def fun_eq_iff split: option.split)
next
  case (accept_failed lp)
  obtain k i where lp: "lp = (k, i)" by fastforce
  have fwd: "revFwds st k = Some i" using inv_loop [OF assms(2)] accept_failed lp by simp
  have "distinct (rv_loops st)" using assms(2) by (simp add: rev_inv_def distinct_map)
  then have "set (remove1 (k, i) (rv_loops st)) = set (rv_loops st) - {(k, i)}" by simp
  with accept_failed lp fwd show ?thesis
    by (auto simp: port_event_def rev_accept_failed_def ports_of_def fun_eq_iff split: option.split)
next
  case (stop k)
  show ?thesis
  proof (cases "\<exists>x i. k = Some x \<and> revFwds st x = Some i")
    case True
    then obtain x i where k: "k = Some x" "revFwds st x = Some i" by blast
    let ?rf = "(rv_objs st ! i)\<lparr>rf_stopped := True\<rparr>"
    have "ports_of (st\<lparr>rv_objs := (rv_objs st)[i := ?rf]\<rparr>) = (ports_of st)(x := None)"
      using ports_update [OF assms(2) k(2), of "st\<lparr>rv_objs := (rv_objs st)[i := ?rf]\<rparr>" ?rf] by simp
    with stop k show ?thesis by (simp add: port_event_def stopReverseForward_def)
  next
    case False
    with stop show ?thesis
      by (auto simp: port_event_def stopReverseForward_def ports_of_def fun_eq_iff split: option.split)
  qed
qed

text \<open>The events of a run, in order.\<close>

lemma ports_run:
  "rev_run st as st' \<Longrightarrow> rev_inv st \<Longrightarrow>
   \<exists>es. list_all2 means as es \<and> port_run (ports_of st) es = Some (ports_of st') \<and> rv_forwarded st' = rv_forwarded st @ deliveries es"
proof (induction rule: rev_run.induct)
  case (run_Nil st)
  then show ?case by (intro exI [of _ "[]"]) simp
next
  case (run_Cons st a st1 as st2)
  have step: "port_next (ports_of st) (port_event st a) = Some (ports_of st1)"
    "rv_forwarded st1 = rv_forwarded st @ deliveries [port_event st a]"
    using ports_step [OF run_Cons.hyps(1) run_Cons.prems] by simp_all
  obtain es where "list_all2 means as es" "port_run (ports_of st1) es = Some (ports_of st2)" "rv_forwarded st2 = rv_forwarded st1 @ deliveries es"
    using run_Cons.IH rev_inv_step [OF run_Cons.hyps(1) run_Cons.prems] by blast
  with step deliveries_append [of "[port_event st a]" es] show ?case
    by (intro exI [of _ "port_event st a # es"]) (simp add: means_port_event)
qed

text \<open>
  C31. Reverse forwarding implements the table of ports: whatever the page, the accept loops and the
  server do, in any order, there is a run of the table, from the empty one to the table of the
  state, with one event for each action that this action may stand for, and the connections handed
  on are exactly its deliveries. So each connection went to the target its port had last been given,
  and none after the
  port was stopped, until it was asked for again or a listener that was still being opened came up.
\<close>

theorem forwards_refine_ports:
  assumes "rev_run (rev_init client) acts st"
  shows "\<exists>es. list_all2 means acts es \<and> port_run (\<lambda>_. None) es = Some (ports_of st) \<and>
    rv_forwarded st = deliveries es \<and> (\<forall>k. ports_of st k = last_target es k None)"
proof -
  have "ports_of (rev_init client) = (\<lambda>_. None)" by (simp add: ports_of_def rev_init_def fun_eq_iff)
  with ports_run [OF assms rev_inv_init] obtain es where
    "list_all2 means acts es" "port_run (\<lambda>_. None) es = Some (ports_of st)" "rv_forwarded st = deliveries es"
    by (auto simp: rev_init_def)
  with port_run_target show ?thesis by blast
qed

theorem forwards_refine_ports_witness:
  "\<exists>es. list_all2 means [Forward (Some demo_args), Listened (demo_key, ''10.0.0.2'', 80)] es \<and>
    port_run (\<lambda>_. None) es = Some (ports_of demo_listening) \<and> rv_forwarded demo_listening = deliveries es \<and>
    (\<forall>k. ports_of demo_listening k = last_target es k None)"
  by (rule forwards_refine_ports [OF demo_run])

end
