(* ===== verification/Sftp.thy ===== *)
theory Sftp
  imports GoCrypto
begin

text \<open>
  The file browser (\<open>src/web/browser.go\<close>): the functions the page calls, each with its argument
  checks, its calls to the SFTP client and its answer to the callback. The SFTP client
  (\<open>github.com/pkg/sftp\<close>) with the remote machine behind it is a parameter, a record of operations
  on a state \<open>'r\<close>; so are the zip writer, the remote shell and the engine's constructor \<open>Uint8Array\<close>.
\<close>

section \<open>JavaScript values\<close>

datatype js_value = JSUndefined | JSString string | JSNumber int | JSBool bool | JSArray "js_value list"
  | JSBytes bytes | JSFunction

definition js_String :: "js_value \<Rightarrow> string" where
  "js_String v = (case v of
     JSString s \<Rightarrow> s | JSUndefined \<Rightarrow> ''<undefined>'' | JSNumber n \<Rightarrow> ''<number: '' @ FormatInt n @ ''>''
   | JSBool b \<Rightarrow> (if b then ''<boolean: true>'' else ''<boolean: false>'') | JSFunction \<Rightarrow> ''<function>'' | _ \<Rightarrow> ''<object>'')"

definition js_Bool :: "js_value \<Rightarrow> bool res" where
  "js_Bool v = (case v of JSBool b \<Rightarrow> Returns b | _ \<Rightarrow> Panics)"

text \<open>
  \<open>Length\<close> and \<open>Index\<close>: the strings of an array. (A function also has a length, its arity; the page
  does not pass one for an array.)
\<close>

definition js_items :: "js_value \<Rightarrow> string list res" where
  "js_items v = (case v of
     JSArray vs \<Rightarrow> Returns (map js_String vs)
   | JSBytes b \<Rightarrow> Returns (map (\<lambda>c. js_String (JSNumber (of_char c))) b)
   | _ \<Rightarrow> Panics)"

text \<open>Indexing the argument slice; what the callback receives.\<close>

definition arg :: "js_value list \<Rightarrow> nat \<Rightarrow> js_value res" where
  "arg args i = (if i < length args then Returns (args ! i) else Panics)"

record File =
  f_Name :: string
  f_Rights :: string
  f_Size :: int
  f_Date :: string
  f_Type :: string

datatype js_result = RNull | RApi bool "string option" | RFiles "File list" | RText bytes | RBytes bytes
  | RUploaded string string

datatype reply = NoReply | Reply js_result int

text \<open>Calling something that is not a function panics; the functions of the page return.\<close>

definition invoke :: "js_value \<Rightarrow> js_result \<Rightarrow> int \<Rightarrow> 'r \<Rightarrow> (reply \<times> 'r) res" where
  "invoke cb x code r = (if cb = JSFunction then Returns (Reply x code, r) else Panics)"

definition apiResponse :: "js_value \<Rightarrow> string option \<Rightarrow> 'r \<Rightarrow> (reply \<times> 'r) res" where
  "apiResponse cb err r =
     (case err of None \<Rightarrow> invoke cb (RApi True None) 200 r | Some e \<Rightarrow> invoke cb (RApi False (Some e)) 500 r)"

section \<open>The SFTP client\<close>

record sf_info =
  si_Name :: string
  si_Mode :: int
  si_Size :: int
  si_ModTime :: instant

text \<open>
  \<open>js_Uint8Array\<close> is the constructor of typed arrays: the bytes of the array, or \<open>None\<close> when it throws, which is
  a panic of the Go program.
\<close>

record 'r sftp =
  sf_Lstat :: "string \<Rightarrow> 'r \<Rightarrow> string + sf_info"
  sf_ReadDir :: "string \<Rightarrow> 'r \<Rightarrow> string + sf_info list"
  sf_Getwd :: "'r \<Rightarrow> string + string"
  sf_RealPath :: "string \<Rightarrow> 'r \<Rightarrow> string + string"
  sf_Rename :: "string \<Rightarrow> string \<Rightarrow> 'r \<Rightarrow> string option \<times> 'r"
  sf_Remove :: "string \<Rightarrow> 'r \<Rightarrow> string option \<times> 'r"
  sf_RemoveDirectory :: "string \<Rightarrow> 'r \<Rightarrow> string option \<times> 'r"
  sf_Mkdir :: "string \<Rightarrow> 'r \<Rightarrow> string option \<times> 'r"
  sf_MkdirAll :: "string \<Rightarrow> 'r \<Rightarrow> string option \<times> 'r"
  sf_Chmod :: "string \<Rightarrow> int \<Rightarrow> 'r \<Rightarrow> string option \<times> 'r"
  sf_Create :: "string \<Rightarrow> 'r \<Rightarrow> string option \<times> 'r"
  sf_OpenTrunc :: "string \<Rightarrow> 'r \<Rightarrow> string option \<times> 'r"
  sf_Write :: "string \<Rightarrow> bytes \<Rightarrow> 'r \<Rightarrow> string option \<times> 'r"
  sf_Open :: "string \<Rightarrow> 'r \<Rightarrow> string option"
  sf_ReadAll :: "string \<Rightarrow> 'r \<Rightarrow> string + bytes"
  ssh_run :: "string \<Rightarrow> 'r \<Rightarrow> (string \<times> string option) \<times> 'r"
  js_Uint8Array :: "js_value \<Rightarrow> bytes option"

text \<open>
  What is documented of the constructor: an array made from bytes holds them; one made from a number has that many
  elements, all zero, and a negative number makes it throw.
\<close>

definition typed_arrays :: "'r sftp \<Rightarrow> bool" where
  "typed_arrays S \<longleftrightarrow> (\<forall>b d. js_Uint8Array S (JSBytes b) = Some d \<longrightarrow> d = b) \<and>
     (\<forall>n d. js_Uint8Array S (JSNumber n) = Some d \<longrightarrow> 0 \<le> n \<and> d = replicate (nat n) (CHR 0x00))"

unbundle bit_operations_syntax

definition IsDir :: "sf_info \<Rightarrow> bool" where
  "IsDir f \<longleftrightarrow> si_Mode f AND 2147483648 \<noteq> 0"

section \<open>Listing\<close>

definition safeMode :: "int \<Rightarrow> string" where
  "safeMode m =
     (if m AND push_bit 31 1 \<noteq> 0 then ''d'' else ''-'')
     @ map (\<lambda>(i, c). if m AND push_bit (9 - 1 - i) 1 \<noteq> 0 then c else CHR ''-'') (enumerate 0 ''rwxrwxrwx'')"

definition newFile :: "(instant \<Rightarrow> string) \<Rightarrow> sf_info \<Rightarrow> File" where
  "newFile fmt f = \<lparr>f_Name = si_Name f, f_Rights = safeMode (si_Mode f), f_Size = si_Size f,
     f_Date = fmt (si_ModTime f), f_Type = (if IsDir f then ''dir'' else ''file'')\<rparr>"

text \<open>Every exported function first checks the client and the number of arguments.\<close>

definition api :: "bool \<Rightarrow> nat \<Rightarrow> js_value list \<Rightarrow> 'r \<Rightarrow> (reply \<times> 'r) res \<Rightarrow> (reply \<times> 'r) res" where
  "api client n args r body = (if \<not> client \<or> length args < n then Returns (NoReply, r) else body)"

definition list_files ::
  "'r sftp \<Rightarrow> bool \<Rightarrow> (instant \<Rightarrow> string) \<Rightarrow> js_value list \<Rightarrow> 'r \<Rightarrow> (reply \<times> 'r) res" where
  "list_files S client fmt args r = api client 2 args r
     (case sf_ReadDir S (js_String (args ! 0)) r of
        Inl e \<Rightarrow> invoke (args ! 1) RNull 500 r
      | Inr files \<Rightarrow> invoke (args ! 1) (RFiles (map (newFile fmt) files)) 200 r)"

definition getwd :: "'r sftp \<Rightarrow> bool \<Rightarrow> 'r \<Rightarrow> string" where
  "getwd S client r =
     (if \<not> client then ''nil'' else case sf_Getwd S r of Inl e \<Rightarrow> ''/'' | Inr wd \<Rightarrow> wd)"

section \<open>Renaming, moving, copying\<close>

definition rename :: "'r sftp \<Rightarrow> bool \<Rightarrow> js_value list \<Rightarrow> 'r \<Rightarrow> (reply \<times> 'r) res" where
  "rename S client args r = api client 3 args r
     (case sf_Rename S (js_String (args ! 0)) (js_String (args ! 1)) r of (err, r') \<Rightarrow> apiResponse (args ! 2) err r')"

primrec move_all :: "'r sftp \<Rightarrow> bool \<Rightarrow> string \<Rightarrow> string list \<Rightarrow> 'r \<Rightarrow> string option \<times> 'r" where
  "move_all S isDir dst [] r = (None, r)"
| "move_all S isDir dst (s # ss) r =
     (case sf_Rename S s (if isDir then Join [dst, Base s] else dst) r of
        (Some e, r') \<Rightarrow> (Some e, r')
      | (None, r') \<Rightarrow> move_all S isDir dst ss r')"

text \<open>An error of \<open>Lstat\<close> is logged only; the nil result is used all the same.\<close>

definition move :: "'r sftp \<Rightarrow> bool \<Rightarrow> js_value list \<Rightarrow> 'r \<Rightarrow> (reply \<times> 'r) res" where
  "move S client args r = api client 3 args r
     (let dst = js_String (args ! 1) in
      case sf_Lstat S dst r of
        Inl e \<Rightarrow> Panics
      | Inr d \<Rightarrow>
          bind_res (js_items (args ! 0)) (\<lambda>ss.
            case move_all S (IsDir d) dst ss r of (err, r') \<Rightarrow> apiResponse (args ! 2) err r'))"

definition runCmd :: "'r sftp \<Rightarrow> string \<Rightarrow> 'r \<Rightarrow> (string \<times> string option) \<times> 'r" where
  "runCmd S cmd r = ssh_run S cmd r"

definition copy_cmd :: "string list \<Rightarrow> string \<Rightarrow> string" where
  "copy_cmd ss dst = ''cp '' @ concat (map (\<lambda>s. s @ '' '') ss) @ dst"

definition copy_files :: "'r sftp \<Rightarrow> bool \<Rightarrow> js_value list \<Rightarrow> 'r \<Rightarrow> (reply \<times> 'r) res" where
  "copy_files S client args r = api client 3 args r
     (bind_res (arg args 3) (\<lambda>cb.
      bind_res (js_items (args ! 0)) (\<lambda>ss.
        let single = js_String (args ! 2);
            dst0 = js_String (args ! 1);
            dst = (if single \<noteq> [] \<and> length ss = 1 then Join [dst0, single] else dst0)
        in case runCmd S (copy_cmd ss dst) r of ((out, err), r') \<Rightarrow> apiResponse cb err r')))"

section \<open>Deleting and changing permissions\<close>

text \<open>
  The recursions over the remote tree end when the tree is finite; \<open>fuel\<close> bounds their depth, and
  \<open>None\<close> is the answer when it runs out.
\<close>

fun recDelete :: "'r sftp \<Rightarrow> nat \<Rightarrow> string \<Rightarrow> 'r \<Rightarrow> (string option \<times> 'r) option"
  and recDelete_list :: "'r sftp \<Rightarrow> nat \<Rightarrow> string \<Rightarrow> sf_info list \<Rightarrow> 'r \<Rightarrow> (string option \<times> 'r) option" where
  "recDelete S 0 f r = None"
| "recDelete S (Suc n) f r =
     (case sf_Lstat S f r of
        Inl e \<Rightarrow> Some (Some (''failed to lstat '' @ f @ '': '' @ e), r)
      | Inr fs \<Rightarrow>
          if IsDir fs then
            (case sf_ReadDir S f r of
               Inl e \<Rightarrow> Some (Some (''failed to ReadDir '' @ f @ '': '' @ e), r)
             | Inr files \<Rightarrow>
                 (case recDelete_list S n f files r of
                    None \<Rightarrow> None
                  | Some (Some e, r') \<Rightarrow> Some (Some e, r')
                  | Some (None, r') \<Rightarrow>
                      (case sf_RemoveDirectory S f r' of
                         (Some e, r'') \<Rightarrow> Some (Some (''failed to RemoveDirectory '' @ f @ '': '' @ e), r'')
                       | (None, r'') \<Rightarrow> Some (None, r''))))
          else
            (case sf_Remove S f r of
               (Some e, r') \<Rightarrow> Some (Some (''failed to remove '' @ f @ '': '' @ e), r')
             | (None, r') \<Rightarrow> Some (None, r')))"
| "recDelete_list S n f [] r = Some (None, r)"
| "recDelete_list S n f (df # dfs) r =
     (case recDelete S n (Join [f, si_Name df]) r of
        None \<Rightarrow> None
      | Some (Some e, r') \<Rightarrow> Some (Some e, r')
      | Some (None, r') \<Rightarrow> recDelete_list S n f dfs r')"

primrec delete_all :: "'r sftp \<Rightarrow> nat \<Rightarrow> string list \<Rightarrow> 'r \<Rightarrow> (string option \<times> 'r) option" where
  "delete_all S n [] r = Some (None, r)"
| "delete_all S n (f # fs) r =
     (case recDelete S n f r of
        None \<Rightarrow> None
      | Some (Some e, r') \<Rightarrow> Some (Some e, r')
      | Some (None, r') \<Rightarrow> delete_all S n fs r')"

definition delete :: "'r sftp \<Rightarrow> nat \<Rightarrow> bool \<Rightarrow> js_value list \<Rightarrow> 'r \<Rightarrow> (reply \<times> 'r) res option" where
  "delete S n client args r =
     (if \<not> client \<or> length args < 2 then Some (Returns (NoReply, r))
      else case js_items (args ! 0) of
          Panics \<Rightarrow> Some Panics
        | Returns items \<Rightarrow>
            map_option (\<lambda>(err, r'). apiResponse (args ! 1) err r') (delete_all S n items r))"

fun chmod :: "'r sftp \<Rightarrow> nat \<Rightarrow> string \<Rightarrow> int \<Rightarrow> bool \<Rightarrow> 'r \<Rightarrow> (string option \<times> 'r) option"
  and chmod_list :: "'r sftp \<Rightarrow> nat \<Rightarrow> string \<Rightarrow> sf_info list \<Rightarrow> int \<Rightarrow> 'r \<Rightarrow> (string option \<times> 'r) option" where
  "chmod S 0 f perm rec r = None"
| "chmod S (Suc n) f perm rec r =
     (case sf_Chmod S f perm r of
        (Some e, r1) \<Rightarrow> Some (Some e, r1)
      | (None, r1) \<Rightarrow>
          if \<not> rec then Some (None, r1)
          else (case sf_Lstat S f r1 of
              Inl e \<Rightarrow> Some (Some (''failed to lstat '' @ f @ '': '' @ e), r1)
            | Inr fs \<Rightarrow>
                if \<not> IsDir fs then Some (None, r1)
                else (case sf_ReadDir S f r1 of
                    Inl e \<Rightarrow> Some (Some (''failed to ReadDir '' @ f @ '': '' @ e), r1)
                  | Inr files \<Rightarrow> chmod_list S n f files perm r1)))"
| "chmod_list S n f [] perm r = Some (None, r)"
| "chmod_list S n f (df # dfs) perm r =
     (case chmod S n (Join [f, si_Name df]) perm True r of
        None \<Rightarrow> None
      | Some (Some e, r') \<Rightarrow> Some (Some e, r')
      | Some (None, r') \<Rightarrow> chmod_list S n f dfs perm r')"

primrec chmod_all :: "'r sftp \<Rightarrow> nat \<Rightarrow> string list \<Rightarrow> int \<Rightarrow> bool \<Rightarrow> 'r \<Rightarrow> (string option \<times> 'r) option" where
  "chmod_all S n [] perm rec r = Some (None, r)"
| "chmod_all S n (f # fs) perm rec r =
     (case chmod S n f perm rec r of
        None \<Rightarrow> None
      | Some (Some e, r') \<Rightarrow> Some (Some e, r')
      | Some (None, r') \<Rightarrow> chmod_all S n fs perm rec r')"

text \<open>\<open>uint32(permCode)\<close> wraps a negative code around.\<close>

definition changePerm :: "'r sftp \<Rightarrow> nat \<Rightarrow> bool \<Rightarrow> js_value list \<Rightarrow> 'r \<Rightarrow> (reply \<times> 'r) res option" where
  "changePerm S n client args r =
     (if \<not> client \<or> length args < 4 then Some (Returns (NoReply, r))
      else case js_Bool (args ! 2) of
          Panics \<Rightarrow> Some Panics
        | Returns recursive \<Rightarrow>
            (case ParseOctal32 (js_String (args ! 1)) of
               None \<Rightarrow> Some (apiResponse (args ! 3) (Some ''invalid syntax'') r)
             | Some permCode \<Rightarrow>
                 (case js_items (args ! 0) of
                    Panics \<Rightarrow> Some Panics
                  | Returns items \<Rightarrow>
                      map_option (\<lambda>(err, r'). apiResponse (args ! 3) err r')
                        (chmod_all S n items (permCode mod 4294967296) recursive r))))"

section \<open>Contents\<close>

definition edit :: "'r sftp \<Rightarrow> bool \<Rightarrow> js_value list \<Rightarrow> 'r \<Rightarrow> (reply \<times> 'r) res" where
  "edit S client args r = api client 3 args r
     (let item = js_String (args ! 0) in
      case sf_OpenTrunc S item r of
        (Some e, r1) \<Rightarrow> apiResponse (args ! 2) (Some e) r1
      | (None, r1) \<Rightarrow>
          (case sf_Write S item (js_String (args ! 1)) r1 of (err, r2) \<Rightarrow> apiResponse (args ! 2) err r2))"

definition getContent :: "'r sftp \<Rightarrow> bool \<Rightarrow> js_value list \<Rightarrow> 'r \<Rightarrow> (reply \<times> 'r) res" where
  "getContent S client args r = api client 2 args r
     (let item = js_String (args ! 0) in
      case sf_Open S item r of
        Some e \<Rightarrow> invoke (args ! 1) RNull 400 r
      | None \<Rightarrow>
          (case sf_ReadAll S item r of
             Inl e \<Rightarrow> invoke (args ! 1) RNull 400 r
           | Inr fc \<Rightarrow> invoke (args ! 1) (RText fc) 200 r))"

definition createFolder :: "'r sftp \<Rightarrow> bool \<Rightarrow> js_value list \<Rightarrow> 'r \<Rightarrow> (reply \<times> 'r) res" where
  "createFolder S client args r = api client 2 args r
     (case sf_Mkdir S (js_String (args ! 0)) r of (err, r') \<Rightarrow> apiResponse (args ! 1) err r')"

section \<open>Uploads\<close>

definition isUnique :: "string \<Rightarrow> sf_info list \<Rightarrow> bool" where
  "isUnique fn files \<longleftrightarrow> list_all (\<lambda>f. si_Name f \<noteq> fn) files"

definition numbered :: "string \<Rightarrow> nat \<Rightarrow> string" where
  "numbered fileName i = fileName @ ''.'' @ FormatInt (int i)"

text \<open>
  The loop of \<open>upload\<close>: \<open>nfn :=\<close> declares a variable of the loop body, so the outer \<open>nfn\<close>, which is
  tested after the loop, is never assigned.
\<close>

primrec upload_scan :: "string \<Rightarrow> sf_info list \<Rightarrow> string \<Rightarrow> nat list \<Rightarrow> string" where
  "upload_scan fileName files nfn [] = nfn"
| "upload_scan fileName files nfn (i # is) =
     (let inner = numbered fileName i in
      if isUnique inner files then nfn else upload_scan fileName files nfn is)"

definition upload_name :: "string \<Rightarrow> sf_info list \<Rightarrow> string option" where
  "upload_name fileName files =
     (if \<not> isUnique fileName files
      then (let nfn = upload_scan fileName files [] [1..<10000] in if nfn = [] then None else Some nfn)
      else Some fileName)"

definition upload :: "'r sftp \<Rightarrow> bool \<Rightarrow> js_value list \<Rightarrow> 'r \<Rightarrow> (reply \<times> 'r) res" where
  "upload S client args r = api client 4 args r
     (case js_Uint8Array S (args ! 2) of None \<Rightarrow> Panics | Some data \<Rightarrow>
      let dst = js_String (args ! 0); fileName = js_String (args ! 1); cb = args ! 3 in
      case sf_ReadDir S dst r of
        Inl e \<Rightarrow> apiResponse cb (Some e) r
      | Inr files \<Rightarrow>
          (case upload_name fileName files of
             None \<Rightarrow> apiResponse cb (Some (''cannot make file name '' @ fileName @ '' unique'')) r
           | Some name \<Rightarrow>
               (case sf_Create S (Join [dst, name]) r of
                  (Some e, r1) \<Rightarrow> apiResponse cb (Some e) r1
                | (None, r1) \<Rightarrow>
                    (case sf_Write S (Join [dst, name]) data r1 of
                       (Some e, r2) \<Rightarrow> apiResponse cb (Some e) r2
                     | (None, r2) \<Rightarrow> apiResponse cb None r2))))"

definition downloads_name :: "string \<Rightarrow> sf_info list \<Rightarrow> string" where
  "downloads_name fileName files =
     (if \<not> isUnique fileName files
      then (case find (\<lambda>i. isUnique (numbered fileName i) files) [1..<10000] of
              Some i \<Rightarrow> numbered fileName i
            | None \<Rightarrow> fileName)
      else fileName)"

definition uploadToDownloads :: "'r sftp \<Rightarrow> bool \<Rightarrow> js_value list \<Rightarrow> 'r \<Rightarrow> (reply \<times> 'r) res" where
  "uploadToDownloads S client args r = api client 3 args r
     (case js_Uint8Array S (args ! 1) of None \<Rightarrow> Panics | Some data \<Rightarrow>
      let fileName = js_String (args ! 0); cb = args ! 2 in
      case sf_RealPath S ''.'' r of
        Inl e \<Rightarrow> apiResponse cb (Some e) r
      | Inr home \<Rightarrow>
          (let dst = Join [home, ''Downloads''] in
           case sf_MkdirAll S dst r of
             (Some e, r1) \<Rightarrow> apiResponse cb (Some e) r1
           | (None, r1) \<Rightarrow>
               (case sf_ReadDir S dst r1 of
                  Inl e \<Rightarrow> apiResponse cb (Some e) r1
                | Inr files \<Rightarrow>
                    (let name = downloads_name fileName files; full = Join [dst, name] in
                     case sf_Create S full r1 of
                       (Some e, r2) \<Rightarrow> apiResponse cb (Some e) r2
                     | (None, r2) \<Rightarrow>
                         (case sf_Write S full data r2 of
                            (Some e, r3) \<Rightarrow> apiResponse cb (Some e) r3
                          | (None, r3) \<Rightarrow> invoke cb (RUploaded full name) 200 r3)))))"

section \<open>Downloads\<close>

text \<open>
  \<open>CopyBytesToJS\<close>: the contents are copied into a typed array as far as both go. The array has the size
  \<open>Lstat\<close> reports; it is made before the file is read.
\<close>

definition js_buffer :: "bytes \<Rightarrow> bytes \<Rightarrow> bytes" where
  "js_buffer buf fc = take (length buf) fc @ drop (length fc) buf"

definition download :: "'r sftp \<Rightarrow> bool \<Rightarrow> js_value list \<Rightarrow> 'r \<Rightarrow> (reply \<times> 'r) res" where
  "download S client args r = api client 2 args r
     (let path = js_String (args ! 0); cb = args ! 1 in
      case sf_Lstat S path r of
        Inl e \<Rightarrow> invoke cb RNull 400 r
      | Inr fs \<Rightarrow>
          if IsDir fs then invoke cb RNull 400 r
          else (case sf_Open S path r of
              Some e \<Rightarrow> invoke cb RNull 400 r
            | None \<Rightarrow>
                (case js_Uint8Array S (JSNumber (si_Size fs)) of
                   None \<Rightarrow> Panics
                 | Some buf \<Rightarrow>
                     (case sf_ReadAll S path r of
                        Inl e \<Rightarrow> invoke cb RNull 400 r
                      | Inr fc \<Rightarrow> invoke cb (RBytes (js_buffer buf fc)) 200 r))))"

text \<open>The entries of the archive, or \<open>None\<close> when a file cannot be opened or read.\<close>

primrec zip_entries :: "'r sftp \<Rightarrow> string list \<Rightarrow> 'r \<Rightarrow> (string \<times> bytes) list option" where
  "zip_entries S [] r = Some []"
| "zip_entries S (s # ss) r =
     (if sf_Open S s r \<noteq> None then None
      else case sf_ReadAll S s r of
          Inl e \<Rightarrow> None
        | Inr fc \<Rightarrow> map_option (\<lambda>es. (Base s, fc) # es) (zip_entries S ss r))"

text \<open>\<open>archive\<close> stands for the writer of \<open>archive/zip\<close>.\<close>

definition downloadMultiple ::
  "'r sftp \<Rightarrow> ((string \<times> bytes) list \<Rightarrow> bytes option) \<Rightarrow> bool \<Rightarrow> js_value list \<Rightarrow> 'r \<Rightarrow> (reply \<times> 'r) res" where
  "downloadMultiple S archive client args r = api client 2 args r
     (bind_res (js_items (args ! 0)) (\<lambda>items.
        case zip_entries S items r of
          None \<Rightarrow> invoke (args ! 1) RNull 400 r
        | Some es \<Rightarrow>
            (case archive es of
               None \<Rightarrow> invoke (args ! 1) RNull 400 r
             | Some b \<Rightarrow>
                 (case js_Uint8Array S (JSNumber (int (length b))) of
                    None \<Rightarrow> Panics
                  | Some buf \<Rightarrow> invoke (args ! 1) (RBytes (js_buffer buf b)) 200 r))))"

section \<open>Properties\<close>

lemma upload_scan_outer [simp]: "upload_scan fileName files nfn is = nfn"
  by (induction "is") (simp_all add: Let_def)

lemma upload_name_iff: "upload_name fileName files = (if isUnique fileName files then Some fileName else None)"
  by (simp add: upload_name_def)

lemma and_push_bit_iff: "(m :: int) AND push_bit k 1 \<noteq> 0 \<longleftrightarrow> bit m k"
  by (simp add: and_exp_eq_0_iff_not_bit push_bit_eq_mult)

lemma find_case_unique:
  "if \<exists>i \<in> set is. isUnique (g i) files
   then isUnique (case find (\<lambda>i. isUnique (g i) files) is of Some i \<Rightarrow> g i | None \<Rightarrow> d) files
   else (case find (\<lambda>i. isUnique (g i) files) is of Some i \<Rightarrow> g i | None \<Rightarrow> d) = d"
  by (induction "is") auto

lemma js_buffer_length [simp]: "length (js_buffer buf fc) = length buf"
  by (simp add: js_buffer_def)

lemma js_buffer_eq: "js_buffer buf fc = fc \<longleftrightarrow> length buf = length fc"
proof
  assume "js_buffer buf fc = fc"
  then show "length buf = length fc" using js_buffer_length [of buf fc] by simp
qed (simp add: js_buffer_def)

text \<open>
  The rights column shows the mode faithfully: ten characters, a leading \<open>d\<close> exactly for the
  directory bit, and at each of the nine following positions the letter exactly when the
  corresponding permission bit is set.
\<close>

theorem safeMode_spec:
  "safeMode m = (if bit m 31 then CHR ''d'' else CHR ''-'')
     # map (\<lambda>i. if bit m (8 - i) then ''rwxrwxrwx'' ! i else CHR ''-'') [0..<9]"
proof -
  have "enumerate 0 ''rwxrwxrwx'' = map (\<lambda>i. (i, ''rwxrwxrwx'' ! i)) [0..<9]"
    by (simp add: upt_rec)
  then show ?thesis
    by (simp only: safeMode_def and_push_bit_iff if_distrib append_Cons append_Nil list.map_comp comp_def prod.case) simp
qed

text \<open>
  Uploading into the Downloads directory does not overwrite: the name the file gets is not
  taken, unless the name and all of its 9999 numbered variants are taken, in which case the
  existing file of that name is overwritten.
\<close>

theorem downloads_name_unique:
  "if isUnique fileName files \<or> (\<exists>i \<in> set [1..<10000]. isUnique (numbered fileName i) files)
   then isUnique (downloads_name fileName files) files
   else downloads_name fileName files = fileName"
  using find_case_unique [of "[1..<10000]" "numbered fileName" files fileName]
  unfolding downloads_name_def
  by (cases "isUnique fileName files") (simp_all only: simp_thms if_True if_False)

text \<open>
  A plain upload whose name is taken always fails, although numbered names are tried: no
  remote file is created and the page gets the error.
\<close>

theorem upload_collision_fails:
  assumes "sf_ReadDir S (js_String dst) r = Inr files" and "\<not> isUnique (js_String name) files"
    and "js_Uint8Array S data = Some d"
  shows "upload S True [dst, name, data, JSFunction] r =
    Returns (Reply (RApi False (Some (''cannot make file name '' @ js_String name @ '' unique''))) 500, r)"
  using assms by (simp add: upload_def api_def upload_name_iff Let_def apiResponse_def invoke_def)

text \<open>A server with one directory \<open>d\<close> that holds \<open>f\<close> and a symbolic link \<open>s\<close> of size 1 to it.\<close>

definition link_info :: sf_info where
  "link_info = \<lparr>si_Name = ''s'', si_Mode = 134218239, si_Size = 1, si_ModTime = undefined\<rparr>"

definition demo_Uint8Array :: "js_value \<Rightarrow> bytes option" where
  "demo_Uint8Array v = (case v of
     JSBytes b \<Rightarrow> Some b
   | JSNumber n \<Rightarrow> if 0 \<le> n \<and> n < 8589934592 then Some (replicate (nat n) (CHR 0x00)) else None
   | JSArray vs \<Rightarrow> Some (map (\<lambda>v. case v of JSNumber n \<Rightarrow> char_of n | _ \<Rightarrow> CHR 0x00) vs)
   | _ \<Rightarrow> Some [])"

definition small_server :: "unit sftp" where
  "small_server = \<lparr>
     sf_Lstat = (\<lambda>p r. if p = ''d/s'' then Inr link_info else Inl ''no such file''),
     sf_ReadDir = (\<lambda>p r. if p = ''d'' then Inr [link_info\<lparr>si_Name := ''f''\<rparr>, link_info] else Inl ''no such file''),
     sf_Getwd = (\<lambda>r. Inr ''d''), sf_RealPath = (\<lambda>p r. Inr p),
     sf_Rename = (\<lambda>p q r. (None, r)), sf_Remove = (\<lambda>p r. (None, r)), sf_RemoveDirectory = (\<lambda>p r. (None, r)),
     sf_Mkdir = (\<lambda>p r. (None, r)), sf_MkdirAll = (\<lambda>p r. (None, r)), sf_Chmod = (\<lambda>p m r. (None, r)),
     sf_Create = (\<lambda>p r. (None, r)), sf_OpenTrunc = (\<lambda>p r. (None, r)), sf_Write = (\<lambda>p b r. (None, r)),
     sf_Open = (\<lambda>p r. None), sf_ReadAll = (\<lambda>p r. Inr ''abc''), ssh_run = (\<lambda>c r. (([], None), r)),
     js_Uint8Array = demo_Uint8Array\<rparr>"

lemma small_server_typed_arrays: "typed_arrays small_server"
  by (auto simp: typed_arrays_def small_server_def demo_Uint8Array_def split: if_splits)

theorem upload_collision_fails_witness:
  "upload small_server True [JSString ''d'', JSString ''f'', JSBytes ''abc'', JSFunction] () =
    Returns (Reply (RApi False (Some ''cannot make file name f unique'')) 500, ())"
  by (rule upload_collision_fails [of small_server "JSString ''d''" "()"
        "[link_info\<lparr>si_Name := ''f''\<rparr>, link_info]" "JSString ''f''" "JSBytes ''abc''", simplified js_String_def, simplified])
    (simp_all add: small_server_def isUnique_def js_String_def demo_Uint8Array_def)

text \<open>
  Moving to a name that does not exist crashes the client: the result of the failed
  \<open>Lstat\<close> is dereferenced.
\<close>

theorem move_missing_target_panics:
  assumes "sf_Lstat S (js_String dst) r = Inl e"
  shows "move S True [src, dst, cb] r = Panics"
  using assms by (simp add: move_def api_def Let_def)

theorem move_missing_target_panics_witness:
  "move small_server True [JSArray [JSString ''d/f''], JSString ''d/new'', JSFunction] () = Panics"
  by (rule move_missing_target_panics [where e = "''no such file''"]) (simp add: small_server_def js_String_def)

text \<open>
  A download delivers the file exactly when the size that \<open>Lstat\<close> reports is the length of
  the contents; through a symbolic link, whose own size is reported, it is cut or padded with
  zero bytes.
\<close>

theorem download_exact_iff:
  assumes "sf_Lstat S (js_String path) r = Inr fs" and "\<not> IsDir fs" and "sf_Open S (js_String path) r = None"
    and "sf_ReadAll S (js_String path) r = Inr fc" and "typed_arrays S" and "js_Uint8Array S (JSNumber (si_Size fs)) = Some buf"
  shows "\<exists>b. download S True [path, JSFunction] r = Returns (Reply (RBytes b) 200, r) \<and>
    (b = fc \<longleftrightarrow> si_Size fs = int (length fc)) \<and> length b = nat (si_Size fs)"
proof -
  have "0 \<le> si_Size fs" "buf = replicate (nat (si_Size fs)) (CHR 0x00)" using assms(5,6) unfolding typed_arrays_def by blast+
  then have "0 \<le> si_Size fs" "length buf = nat (si_Size fs)" by simp_all
  then have "js_buffer buf fc = fc \<longleftrightarrow> si_Size fs = int (length fc)" by (auto simp: js_buffer_eq)
  with assms \<open>length buf = nat (si_Size fs)\<close> show ?thesis by (simp add: download_def api_def Let_def invoke_def)
qed

theorem download_exact_iff_witness:
  "\<exists>b. download small_server True [JSString ''d/s'', JSFunction] () = Returns (Reply (RBytes b) 200, ()) \<and>
    b \<noteq> ''abc'' \<and> length b = 1"
  using download_exact_iff [of small_server "JSString ''d/s''" "()" link_info "''abc''" "[CHR 0x00]"] small_server_typed_arrays
  by (simp add: small_server_def link_info_def js_String_def IsDir_def demo_Uint8Array_def)

end
