(* ===== verification/SftpTree.thy ===== *)
theory SftpTree
  imports Sftp
begin

text \<open>
  Deleting recursively on a remote file tree: what \<open>recDelete\<close> relies on of the SFTP server, and
  that it removes exactly the subtree it is given.
\<close>

section \<open>Remote trees\<close>

text \<open>
  What \<open>Lstat\<close> tells apart: directories and everything else (a symbolic link is not followed).
  A tree maps absolute cleaned paths to nodes.
\<close>

datatype node = NFile | NDir

type_synonym tree = "string \<Rightarrow> node option"

abbreviation child :: "string \<Rightarrow> string \<Rightarrow> string" where
  "child p n \<equiv> p @ CHR ''/'' # n"

definition children :: "tree \<Rightarrow> string \<Rightarrow> string set" where
  "children t p = {n. plain_comp n \<and> t (child p n) \<noteq> None}"

text \<open>A path is below another one when it is that path or continues it after a slash.\<close>

definition below :: "string \<Rightarrow> string \<Rightarrow> bool" where
  "below p q \<longleftrightarrow> q = p \<or> (\<exists>s. q = child p s)"

definition prune :: "string \<Rightarrow> tree \<Rightarrow> tree" where
  "prune p t = (\<lambda>q. if below p q then None else t q)"

text \<open>Every node lies in a directory, under a plain name.\<close>

definition tree_ok :: "tree \<Rightarrow> bool" where
  "tree_ok t \<longleftrightarrow> (\<forall>p s. p \<noteq> [] \<and> t (child p s) \<noteq> None \<longrightarrow>
     t p = Some NDir \<and> plain_comp (takeWhile (\<lambda>c. c \<noteq> CHR ''/'') s))"

text \<open>The depth of the tree below a path.\<close>

primrec bounded :: "nat \<Rightarrow> tree \<Rightarrow> string \<Rightarrow> bool" where
  "bounded 0 t p = False"
| "bounded (Suc n) t p = (\<forall>c \<in> children t p. bounded n t (child p c))"

text \<open>The server's side of a deletion: \<open>tree r\<close> is the tree of the remote state \<open>r\<close>.\<close>

definition deletion_laws :: "'r sftp \<Rightarrow> ('r \<Rightarrow> tree) \<Rightarrow> bool" where
  "deletion_laws S tr \<longleftrightarrow>
     (\<forall>r p. tr r p = Some NFile \<longrightarrow>
        (\<exists>fi. sf_Lstat S p r = Inr fi \<and> \<not> IsDir fi) \<and>
        (\<exists>r'. sf_Remove S p r = (None, r') \<and> tr r' = (tr r)(p := None))) \<and>
     (\<forall>r p. tr r p = Some NDir \<longrightarrow>
        (\<exists>fi. sf_Lstat S p r = Inr fi \<and> IsDir fi) \<and>
        (\<exists>fis. sf_ReadDir S p r = Inr fis \<and> distinct (map si_Name fis) \<and> set (map si_Name fis) = children (tr r) p) \<and>
        (children (tr r) p = {} \<longrightarrow> (\<exists>r'. sf_RemoveDirectory S p r = (None, r') \<and> tr r' = (tr r)(p := None))))"

definition clean_path :: "string \<Rightarrow> bool" where
  "clean_path f \<longleftrightarrow> (\<exists>cs. cs \<noteq> [] \<and> (\<forall>c \<in> set cs. plain_comp c) \<and> f = CHR ''/'' # join ''/'' cs)"

section \<open>Paths\<close>

lemma join_snoc: "cs \<noteq> [] \<Longrightarrow> join ''/'' (cs @ [n]) = child (join ''/'' cs) n"
  by (induction cs rule: list_nonempty_induct) (auto simp: neq_Nil_conv)

lemma Join_child:
  assumes "clean_path f" and "plain_comp n"
  shows "Join [f, n] = child f n" and "clean_path (child f n)"
proof -
  obtain cs where cs: "cs \<noteq> []" "\<forall>c \<in> set cs. plain_comp c" "f = CHR ''/'' # join ''/'' cs"
    using assms(1) by (auto simp: clean_path_def)
  have f: "child f n = CHR ''/'' # join ''/'' (cs @ [n])" using cs by (simp add: join_snoc)
  have plain: "\<forall>c \<in> set (cs @ [n]). plain_comp c" using cs(2) assms(2) by auto
  have "Clean (child f n) = child f n"
    unfolding f using clean_comps_abs [of "cs @ [n]"] plain by (subst Clean_rooted) auto
  then show "Join [f, n] = child f n" using cs(3) by (simp add: Join_def)
  show "clean_path (child f n)" unfolding clean_path_def using f plain by (intro exI [of _ "cs @ [n]"]) simp
qed

lemma below_refl [simp]: "below p p"
  by (simp add: below_def)

lemma below_child: "below (child p c) q \<Longrightarrow> below p q"
  by (auto simp: below_def)

lemma below_sibling:
  assumes "plain_comp c" and "plain_comp d" and "c \<noteq> d"
  shows "\<not> below (child p c) (child p d)"
proof
  assume "below (child p c) (child p d)"
  with assms(3) obtain s where "d = c @ CHR ''/'' # s" by (auto simp: below_def)
  with assms(2) show False by (simp add: plain_comp_def)
qed

lemma below_trans: "below p q \<Longrightarrow> below q x \<Longrightarrow> below p x"
  by (auto simp: below_def)

lemma clean_path_not_Nil [simp]: "clean_path f \<Longrightarrow> f \<noteq> []"
  by (auto simp: clean_path_def)

section \<open>Pruning\<close>

lemma existing_below:
  assumes "tree_ok t" and "p \<noteq> []" and "t (child p s) \<noteq> None"
  shows "\<exists>c \<in> children t p. below (child p c) (child p s)"
proof -
  let ?c = "takeWhile (\<lambda>c. c \<noteq> CHR ''/'') s" and ?d = "dropWhile (\<lambda>c. c \<noteq> CHR ''/'') s"
  have plain: "plain_comp ?c" using assms unfolding tree_ok_def by blast
  show ?thesis
  proof (cases "?d = []")
    case True
    then have "s = ?c" by (metis append_Nil2 takeWhile_dropWhile_id)
    then show ?thesis using plain assms(3) by (intro bexI [of _ ?c]) (auto simp: children_def)
  next
    case False
    then have "hd ?d = CHR ''/''" using hd_dropWhile [OF False] by simp
    with False obtain s' where "?d = CHR ''/'' # s'" by (metis list.collapse)
    then have s: "s = child ?c s'" by (metis takeWhile_dropWhile_id)
    have path: "child p s = child (child p ?c) s'" by (subst s) simp
    then have "t (child (child p ?c) s') \<noteq> None" using assms(3) by argo
    then have "t (child p ?c) = Some NDir" using assms(1) unfolding tree_ok_def by blast
    with plain path show ?thesis by (intro bexI [of _ ?c]) (auto simp: children_def below_def)
  qed
qed

lemma tree_ok_prune: "tree_ok t \<Longrightarrow> tree_ok (prune p t)"
proof -
  assume t: "tree_ok t"
  have "\<not> below p (child q s) \<Longrightarrow> \<not> below p q" for q s by (auto simp: below_def)
  with t show ?thesis unfolding tree_ok_def prune_def by (auto split: if_splits)
qed

lemma bounded_mono: "(\<And>q. t' q \<noteq> None \<Longrightarrow> t q \<noteq> None) \<Longrightarrow> bounded n t p \<Longrightarrow> bounded n t' p"
  by (induction n arbitrary: p) (auto simp: children_def)

lemma children_prune:
  assumes "plain_comp c"
  shows "children (prune (child f c) t) f = children t f - {c}"
  using assms by (auto simp: children_def prune_def below_sibling split: if_splits)

text \<open>Pruning a list of children.\<close>

definition prune_all :: "string \<Rightarrow> string set \<Rightarrow> tree \<Rightarrow> tree" where
  "prune_all f cs t = (\<lambda>q. if \<exists>c \<in> cs. below (child f c) q then None else t q)"

lemma prune_all_insert: "prune_all f cs (prune (child f c) t) = prune_all f (insert c cs) t"
  by (auto simp: prune_all_def prune_def fun_eq_iff)

lemma prune_all_children:
  assumes "tree_ok t" and "f \<noteq> []"
  shows "children (prune_all f (children t f) t) f = {}"
    and "(prune_all f (children t f) t)(f := None) = prune f t"
    and "prune_all f (children t f) t f = t f"
proof -
  show "children (prune_all f (children t f) t) f = {}"
    by (auto simp: children_def prune_all_def split: if_splits)
  have nf: "\<not> below (child f c) f" for c by (auto simp: below_def)
  then show "prune_all f (children t f) t f = t f" by (simp add: prune_all_def)
  show "(prune_all f (children t f) t)(f := None) = prune f t"
  proof
    fix q
    show "((prune_all f (children t f) t)(f := None)) q = prune f t q"
    proof (cases "q \<noteq> f \<and> below f q")
      case True
      then obtain s where q: "q = child f s" by (auto simp: below_def)
      have "t q = None \<or> (\<exists>c \<in> children t f. below (child f c) q)"
        using existing_below [OF assms, of s] unfolding q by blast
      with True show ?thesis by (auto simp: prune_all_def prune_def)
    next
      case False
      then show ?thesis using below_child by (auto simp: prune_all_def prune_def)
    qed
  qed
qed

section \<open>Deletion\<close>

lemma deletion_file:
  assumes "deletion_laws S tr" and "tr r p = Some NFile"
  obtains fi r' where "sf_Lstat S p r = Inr fi" "\<not> IsDir fi" "sf_Remove S p r = (None, r')" "tr r' = (tr r)(p := None)"
  using assms unfolding deletion_laws_def by blast

lemma deletion_dir:
  assumes "deletion_laws S tr" and "tr r p = Some NDir"
  obtains fi fis where "sf_Lstat S p r = Inr fi" "IsDir fi" "sf_ReadDir S p r = Inr fis"
    "distinct (map si_Name fis)" "set (map si_Name fis) = children (tr r) p"
  using assms unfolding deletion_laws_def by blast

lemma deletion_rmdir:
  assumes "deletion_laws S tr" and "tr r p = Some NDir" and "children (tr r) p = {}"
  obtains r' where "sf_RemoveDirectory S p r = (None, r')" "tr r' = (tr r)(p := None)"
  using assms unfolding deletion_laws_def by blast

text \<open>The loop over a directory, given that every entry is deleted.\<close>

lemma recDelete_list_exact:
  assumes each: "\<And>f r. tree_ok (tr r) \<Longrightarrow> clean_path f \<Longrightarrow> tr r f \<noteq> None \<Longrightarrow> bounded n (tr r) f \<Longrightarrow>
      \<exists>r'. recDelete S n f r = Some (None, r') \<and> tr r' = prune f (tr r)"
    and "clean_path f" and "tree_ok (tr r)" and "distinct (map si_Name dfs)"
    and "set (map si_Name dfs) \<subseteq> children (tr r) f" and "\<forall>c \<in> set (map si_Name dfs). bounded n (tr r) (child f c)"
  shows "\<exists>r'. recDelete_list S n f dfs r = Some (None, r') \<and> tr r' = prune_all f (set (map si_Name dfs)) (tr r)"
  using assms(3-6)
proof (induction dfs arbitrary: r)
  case Nil
  then show ?case by (simp add: prune_all_def)
next
  case (Cons df dfs)
  let ?c = "si_Name df"
  have plain: "plain_comp ?c" and ex: "tr r (child f ?c) \<noteq> None" using Cons.prems(3) by (auto simp: children_def)
  note path = Join_child [OF assms(2) plain]
  obtain r1 where r1: "recDelete S n (child f ?c) r = Some (None, r1)" "tr r1 = prune (child f ?c) (tr r)"
    using each [OF Cons.prems(1) path(2) ex] Cons.prems(4) by auto
  have "tree_ok (tr r1)" using r1(2) Cons.prems(1) tree_ok_prune by simp
  moreover have "set (map si_Name dfs) \<subseteq> children (tr r1) f"
    unfolding r1(2) children_prune [OF plain] using Cons.prems(2,3) by (simp add: image_iff) blast
  moreover have "\<forall>c \<in> set (map si_Name dfs). bounded n (tr r1) (child f c)"
  proof
    fix c
    assume "c \<in> set (map si_Name dfs)"
    then have "bounded n (tr r) (child f c)" using Cons.prems(4) by auto
    then show "bounded n (tr r1) (child f c)"
      by (rule bounded_mono [rotated]) (auto simp: r1(2) prune_def split: if_splits)
  qed
  ultimately obtain r2 where r2: "recDelete_list S n f dfs r1 = Some (None, r2)"
      "tr r2 = prune_all f (set (map si_Name dfs)) (tr r1)"
    using Cons.IH [of r1] Cons.prems(2) by auto
  then show ?case using r1 path(1) by (simp add: prune_all_insert)
qed

lemma recDelete_exact_lemma:
  assumes "deletion_laws S tr"
  shows "tree_ok (tr r) \<Longrightarrow> clean_path f \<Longrightarrow> tr r f \<noteq> None \<Longrightarrow> bounded n (tr r) f \<Longrightarrow>
    \<exists>r'. recDelete S n f r = Some (None, r') \<and> tr r' = prune f (tr r)"
proof (induction n arbitrary: f r)
  case (Suc n)
  show ?case
  proof (cases "tr r f")
    case (Some nd)
    show ?thesis
    proof (cases nd)
      case NFile
      obtain fi r' where d: "sf_Lstat S f r = Inr fi" "\<not> IsDir fi" "sf_Remove S f r = (None, r')" "tr r' = (tr r)(f := None)"
        using assms Some NFile by (auto elim: deletion_file)
      have "(tr r)(f := None) = prune f (tr r)"
      proof
        fix q
        have "tr r (child f s) = None" for s
          using Suc.prems(1) clean_path_not_Nil [OF Suc.prems(2)] Some NFile unfolding tree_ok_def by fastforce
        then show "((tr r)(f := None)) q = prune f (tr r) q" by (auto simp: prune_def below_def)
      qed
      with d show ?thesis by simp
    next
      case NDir
      obtain fi fis where d: "sf_Lstat S f r = Inr fi" "IsDir fi" "sf_ReadDir S f r = Inr fis"
          "distinct (map si_Name fis)" "set (map si_Name fis) = children (tr r) f"
        using assms Some NDir by (auto elim: deletion_dir)
      have bnd: "\<forall>c \<in> set (map si_Name fis). bounded n (tr r) (child f c)" unfolding d(5) using Suc.prems(4) by simp
      have sub: "set (map si_Name fis) \<subseteq> children (tr r) f" unfolding d(5) ..
      obtain r1 where r1: "recDelete_list S n f fis r = Some (None, r1)" "tr r1 = prune_all f (children (tr r) f) (tr r)"
        using recDelete_list_exact [of tr n S f r fis, OF Suc.IH Suc.prems(2,1) d(4) sub bnd] unfolding d(5) by blast
      note pruned = prune_all_children [OF Suc.prems(1) clean_path_not_Nil [OF Suc.prems(2)]]
      obtain r2 where "sf_RemoveDirectory S f r1 = (None, r2)" "tr r2 = (tr r1)(f := None)"
        using deletion_rmdir [OF assms, of r1 f] r1(2) pruned Some NDir by auto
      then show ?thesis using d(1-3) r1 pruned(2) by simp
    qed
  qed (use Suc.prems(3) in simp)
qed simp

text \<open>
  C30. Deleting is exact and ends: for a remote tree of bounded depth, a recursive delete of an existing
  path succeeds and leaves the tree without that path and everything below it, every other path
  being exactly as before; symbolic links are removed, not followed.
\<close>

theorem recDelete_exact:
  assumes "deletion_laws S tr" and "tree_ok (tr r)" and "clean_path f" and "tr r f \<noteq> None" and "bounded n (tr r) f"
  shows "\<exists>r'. recDelete S n f r = Some (None, r') \<and>
    (\<forall>q. tr r' q = (if q = f \<or> HasPrefix q (f @ ''/'') then None else tr r q))"
proof -
  have "below f q \<longleftrightarrow> q = f \<or> HasPrefix q (f @ ''/'')" for q
    by (auto simp: below_def HasPrefix_def) (metis append_take_drop_id append.assoc append_Cons append_Nil)
  then show ?thesis using recDelete_exact_lemma [OF assms] by (auto simp: prune_def)
qed

section \<open>A server\<close>

text \<open>A server whose state is a list of paths, each marked as directory or not.\<close>

type_synonym remote = "(string \<times> bool) list"

definition remote_tree :: "remote \<Rightarrow> tree" where
  "remote_tree r = (\<lambda>p. map_option (\<lambda>d. if d then NDir else NFile) (map_of r p))"

definition remote_info :: "string \<Rightarrow> bool \<Rightarrow> sf_info" where
  "remote_info n d = \<lparr>si_Name = n, si_Mode = (if d then 2147483648 else 0), si_Size = 0, si_ModTime = 0\<rparr>"

definition remote_names :: "string \<Rightarrow> remote \<Rightarrow> string list" where
  "remote_names p r = remdups (map (\<lambda>(q, d). drop (length p + 1) q)
     (filter (\<lambda>(q, d). HasPrefix q (p @ ''/'') \<and> plain_comp (drop (length p + 1) q)) r))"

definition remote_drop :: "string \<Rightarrow> remote \<Rightarrow> string option \<times> remote" where
  "remote_drop p r = (None, filter (\<lambda>(q, d). q \<noteq> p) r)"

definition demo_sftp :: "remote sftp" where
  "demo_sftp = \<lparr>sf_Lstat = (\<lambda>p r. case map_of r p of None \<Rightarrow> Inl ''not found'' | Some d \<Rightarrow> Inr (remote_info p d)),
     sf_ReadDir = (\<lambda>p r. Inr (map (\<lambda>n. remote_info n False) (remote_names p r))),
     sf_Getwd = (\<lambda>r. Inr ''/''), sf_RealPath = (\<lambda>p r. Inr p), sf_Rename = (\<lambda>p q r. (Some ''unsupported'', r)),
     sf_Remove = remote_drop, sf_RemoveDirectory = remote_drop, sf_Mkdir = (\<lambda>p r. (None, (p, True) # r)),
     sf_MkdirAll = (\<lambda>p r. (None, (p, True) # r)), sf_Chmod = (\<lambda>p m r. (None, r)), sf_Create = (\<lambda>p r. (None, (p, False) # r)),
     sf_OpenTrunc = (\<lambda>p r. (None, r)), sf_Write = (\<lambda>p b r. (None, r)), sf_Open = (\<lambda>p r. None),
     sf_ReadAll = (\<lambda>p r. Inr []), ssh_run = (\<lambda>c r. (([], None), r)), js_Uint8Array = demo_Uint8Array\<rparr>"

lemma remote_drop_tree: "remote_tree (snd (remote_drop p r)) = (remote_tree r)(p := None)"
proof -
  have "map_of (filter (\<lambda>(q, d). q \<noteq> p) r) = (map_of r)(p := None)"
    by (induction r) (auto simp: fun_eq_iff)
  then show ?thesis by (auto simp: remote_tree_def remote_drop_def fun_eq_iff)
qed

lemma set_remote_names: "set (remote_names p r) = children (remote_tree r) p"
proof -
  have "n \<in> set (remote_names p r) \<longleftrightarrow> plain_comp n \<and> child p n \<in> fst ` set r" for n
  proof -
    have "HasPrefix q (p @ ''/'') \<and> drop (length p + 1) q = n \<longleftrightarrow> q = child p n" for q
      by (auto simp: HasPrefix_def) (metis append_take_drop_id append.assoc append_Cons append_Nil)
    then show ?thesis unfolding remote_names_def by (auto simp: image_iff split_beta) (metis fst_conv)+
  qed
  then show ?thesis by (auto simp: children_def remote_tree_def map_of_eq_None_iff)
qed

lemma demo_sftp_laws: "deletion_laws demo_sftp remote_tree"
proof -
  have drop: "\<exists>r'. remote_drop p r = (None, r') \<and> remote_tree r' = (remote_tree r)(p := None)" for p r
    using remote_drop_tree [of p r] by (simp add: remote_drop_def)
  have si: "si_Name (remote_info n d) = n" for n d by (simp add: remote_info_def)
  have bits: "IsDir (remote_info n d) \<longleftrightarrow> d" for n d by (simp add: IsDir_def remote_info_def)
  have node: "remote_tree r p = Some NFile \<longleftrightarrow> map_of r p = Some False" "remote_tree r p = Some NDir \<longleftrightarrow> map_of r p = Some True" for r p
    by (auto simp: remote_tree_def split: if_splits)
  have "distinct (remote_names p r)" for p r by (simp add: remote_names_def)
  then show ?thesis unfolding deletion_laws_def node
    using drop bits set_remote_names by (simp add: demo_sftp_def image_image si comp_def)
qed

definition demo_remote :: remote where
  "demo_remote = [(''/a'', True), (''/a/b'', True), (''/a/b/c'', False), (''/ab'', False)]"

lemma demo_tree_ok: "tree_ok (remote_tree demo_remote)"
proof -
  have plain: "plain_comp ''b''" "plain_comp ''c''" by code_simp+
  show ?thesis unfolding tree_ok_def
  proof (intro allI impI)
    fix p s
    assume a: "p \<noteq> [] \<and> remote_tree demo_remote (child p s) \<noteq> None"
    then have "child p s \<in> {''/a'', ''/a/b'', ''/a/b/c'', ''/ab''}"
      by (auto simp: remote_tree_def demo_remote_def split: if_splits)
    with a have "p = ''/a'' \<and> (s = ''b'' \<or> s = ''b/c'') \<or> p = ''/a/b'' \<and> s = ''c''"
      by (auto simp: append_eq_Cons_conv)
    with plain show "remote_tree demo_remote p = Some NDir \<and> plain_comp (takeWhile (\<lambda>c. c \<noteq> CHR ''/'') s)"
      by (auto simp: remote_tree_def demo_remote_def)
  qed
qed

lemma demo_bounded: "bounded 3 (remote_tree demo_remote) ''/a''"
proof -
  have "remote_names ''/a'' demo_remote = [''b'']" "remote_names ''/a/b'' demo_remote = [''c'']"
    "remote_names ''/a/b/c'' demo_remote = []" by code_simp+
  then have "children (remote_tree demo_remote) ''/a'' = {''b''}" "children (remote_tree demo_remote) ''/a/b'' = {''c''}"
    "children (remote_tree demo_remote) ''/a/b/c'' = {}" using set_remote_names [of _ demo_remote] by (metis list.set)+
  then show ?thesis by (simp add: numeral_3_eq_3)
qed

theorem recDelete_exact_witness:
  "\<exists>r'. recDelete demo_sftp 3 ''/a'' demo_remote = Some (None, r') \<and>
     remote_tree r' ''/ab'' = Some NFile \<and> remote_tree r' ''/a/b/c'' = None"
proof -
  have "clean_path ''/a''" unfolding clean_path_def by (intro exI [of _ "[''a'']"]) (simp add: plain_comp_def)
  moreover have "remote_tree demo_remote ''/a'' \<noteq> None" "remote_tree demo_remote ''/ab'' = Some NFile"
    by (simp_all add: remote_tree_def demo_remote_def)
  ultimately show ?thesis
    using recDelete_exact [OF demo_sftp_laws demo_tree_ok, of "''/a''" 3] demo_bounded
    by (auto simp: HasPrefix_def)
qed

end
