(* ===== verification/WebObfs.thy ===== *)
theory WebObfs
  imports Obfs
begin

text \<open>
  The browser's copy of the obfuscation layer, \<open>src/web/obfs.go\<close>, and the two ends together:
  the client built from that file and the server built from \<open>src/proxy/obfs.go\<close> agree on
  their keys and transfer every byte.
\<close>

section \<open>The client's code\<close>

definition web_obfsSeedLen :: nat where
  "web_obfsSeedLen = 16"

type_synonym web_obfConn = obfConn

definition web_newObfConn :: "conn \<Rightarrow> bool \<Rightarrow> string \<Rightarrow> web_obfConn" where
  "web_newObfConn c server psk = \<lparr>oc_Conn = c, oc_server = server, oc_psk = psk, oc_r = None, oc_w = None,
     oc_once = False, oc_hsErr = None\<rparr>"

definition web_handshakePSK :: "rng \<Rightarrow> web_obfConn \<Rightarrow> bytes io \<times> web_obfConn" where
  "web_handshakePSK g oc =
     (let base = sha256 (oc_psk oc) in
      if oc_server oc then
        (case ReadFull web_obfsSeedLen (oc_Conn oc) of
           (Inl e, c) \<Rightarrow> (Inl e, oc\<lparr>oc_Conn := c\<rparr>)
         | (Inr seed, c) \<Rightarrow> (Inr (base @ seed), oc\<lparr>oc_Conn := c\<rparr>))
      else
        (case rand_Read g web_obfsSeedLen of
           Inl e \<Rightarrow> (Inl e, oc)
         | Inr seed \<Rightarrow>
             (case conn_Write seed (oc_Conn oc) of
                (Inl (n, e), c) \<Rightarrow> (Inl e, oc\<lparr>oc_Conn := c\<rparr>)
              | (Inr _, c) \<Rightarrow> (Inr (base @ seed), oc\<lparr>oc_Conn := c\<rparr>))))"

text \<open>The goroutine's write is placed before the read; its error is looked at afterwards.\<close>

definition web_handshakeECDH :: "curve \<Rightarrow> rng \<Rightarrow> web_obfConn \<Rightarrow> bytes io \<times> web_obfConn" where
  "web_handshakeECDH X g oc =
     (case rand_Key g of
        Inl e \<Rightarrow> (Inl e, oc)
      | Inr priv \<Rightarrow>
          (let pub = PublicKey X priv in
           case conn_Write pub (oc_Conn oc) of (werr, c1) \<Rightarrow>
           (case ReadFull (length pub) c1 of
              (Inl e, c) \<Rightarrow> (Inl e, oc\<lparr>oc_Conn := c\<rparr>)
            | (Inr peer, c) \<Rightarrow>
                (case werr of
                   Inl (n, e) \<Rightarrow> (Inl e, oc\<lparr>oc_Conn := c\<rparr>)
                 | Inr _ \<Rightarrow>
                     (case NewPublicKey X peer of
                        Some e \<Rightarrow> (Inl e, oc\<lparr>oc_Conn := c\<rparr>)
                      | None \<Rightarrow> (ECDH X priv peer, oc\<lparr>oc_Conn := c\<rparr>))))))"

definition web_obfStreams :: "bytes \<Rightarrow> (cipher_stream \<times> cipher_stream) io" where
  "web_obfStreams keymat =
     (let keyH = sha256 (keymat @ ''key'') in
      if \<not> aes_key_ok keyH then Inl (IOError ''crypto/aes: invalid key size'')
      else let ivUp = sha256 (keymat @ ''up''); ivDown = sha256 (keymat @ ''down'')
           in Inr (NewCTR keyH (take 16 ivUp), NewCTR keyH (take 16 ivDown)))"

definition web_doHandshake :: "curve \<Rightarrow> rng \<Rightarrow> web_obfConn \<Rightarrow> io_error option \<times> web_obfConn" where
  "web_doHandshake X g oc =
     (case (if oc_psk oc \<noteq> [] then web_handshakePSK g oc else web_handshakeECDH X g oc) of
        (Inl e, oc') \<Rightarrow> (Some e, oc')
      | (Inr secret, oc') \<Rightarrow>
          (case web_obfStreams (sha256 secret) of
             Inl e \<Rightarrow> (Some e, oc')
           | Inr (up, down) \<Rightarrow>
               if oc_server oc then (None, oc'\<lparr>oc_r := Some up, oc_w := Some down\<rparr>)
               else (None, oc'\<lparr>oc_r := Some down, oc_w := Some up\<rparr>)))"

definition web_handshake :: "curve \<Rightarrow> rng \<Rightarrow> web_obfConn \<Rightarrow> io_error option \<times> web_obfConn" where
  "web_handshake X g oc =
     (if oc_once oc then (oc_hsErr oc, oc)
      else case web_doHandshake X g oc of (e, oc') \<Rightarrow> (e, oc'\<lparr>oc_once := True, oc_hsErr := e\<rparr>))"

definition web_obf_Read :: "curve \<Rightarrow> rng \<Rightarrow> nat \<Rightarrow> web_obfConn \<Rightarrow> (bytes io \<times> web_obfConn) res" where
  "web_obf_Read X g n oc =
     (case web_handshake X g oc of
        (Some e, oc') \<Rightarrow> Returns (Inl e, oc')
      | (None, oc') \<Rightarrow>
          (case conn_Read n (oc_Conn oc') of
             (Inl e, c) \<Rightarrow> Returns (Inl e, oc'\<lparr>oc_Conn := c\<rparr>)
           | (Inr b, c) \<Rightarrow>
               if b = [] then Returns (Inr b, oc'\<lparr>oc_Conn := c\<rparr>)
               else (case oc_r oc' of
                       None \<Rightarrow> Panics
                     | Some s \<Rightarrow> (case XORKeyStream s b of (p, s') \<Rightarrow>
                         Returns (Inr p, oc'\<lparr>oc_Conn := c, oc_r := Some s'\<rparr>)))))"

definition web_obf_Write :: "curve \<Rightarrow> rng \<Rightarrow> bytes \<Rightarrow> web_obfConn \<Rightarrow> (write_result \<times> web_obfConn) res" where
  "web_obf_Write X g p oc =
     (case web_handshake X g oc of
        (Some e, oc') \<Rightarrow> Returns (Inl (0, e), oc')
      | (None, oc') \<Rightarrow>
          (case oc_w oc' of
             None \<Rightarrow> Panics
           | Some s \<Rightarrow> (case XORKeyStream s p of (buf, s') \<Rightarrow>
               (case conn_Write buf (oc_Conn oc') of (e, c) \<Rightarrow>
                  Returns (e, oc'\<lparr>oc_Conn := c, oc_w := Some s'\<rparr>)))))"

section \<open>The two copies agree\<close>

lemma web_seedLen: "web_obfsSeedLen = obfsSeedLen"
  by (simp add: web_obfsSeedLen_def obfsSeedLen_def)

lemma web_newObfConn_copy: "web_newObfConn = newObfConn"
  by (intro ext) (simp add: web_newObfConn_def newObfConn_def)

lemma web_handshakePSK_copy: "web_handshakePSK = handshakePSK"
  unfolding fun_eq_iff web_handshakePSK_def handshakePSK_def web_seedLen by simp

lemma web_handshakeECDH_copy: "web_handshakeECDH = handshakeECDH"
  unfolding fun_eq_iff web_handshakeECDH_def handshakeECDH_def by simp

lemma web_obfStreams_copy: "web_obfStreams = obfStreams"
  unfolding fun_eq_iff web_obfStreams_def obfStreams_def by simp

lemma web_doHandshake_copy: "web_doHandshake = doHandshake"
  unfolding fun_eq_iff web_doHandshake_def doHandshake_def web_handshakePSK_copy web_handshakeECDH_copy
    web_obfStreams_copy by simp

lemma web_handshake_copy: "web_handshake = handshake"
  unfolding fun_eq_iff web_handshake_def handshake_def web_doHandshake_copy by simp

lemma web_obf_Read_copy: "web_obf_Read = obf_Read"
  unfolding fun_eq_iff web_obf_Read_def obf_Read_def web_handshake_copy by simp

lemma web_obf_Write_copy: "web_obf_Write = obf_Write"
  unfolding fun_eq_iff web_obf_Write_def obf_Write_def web_handshake_copy by simp

lemmas web_copy = web_newObfConn_copy web_handshake_copy web_obf_Read_copy web_obf_Write_copy web_seedLen

section \<open>Interoperation\<close>

primrec web_obf_writes :: "curve \<Rightarrow> rng \<Rightarrow> bytes list \<Rightarrow> web_obfConn \<Rightarrow> web_obfConn res" where
  "web_obf_writes X g [] oc = Returns oc"
| "web_obf_writes X g (p # ps) oc = bind_res (web_obf_Write X g p oc) (\<lambda>(_, oc'). web_obf_writes X g ps oc')"

lemma web_obf_writes_copy: "web_obf_writes X g ps = obf_writes X g ps"
  by (induction ps) (auto simp: fun_eq_iff web_obf_Write_copy)

text \<open>
  C4. With a pre-shared key, whatever the browser writes on a fresh connection reaches the
  proxy unchanged: for every way the transport cuts the bytes into chunks and every sequence
  of buffer sizes the proxy reads with, its reads return a prefix of what was written, and
  exactly the unread bytes are still waiting in the transport.
\<close>

theorem psk_transfer:
  assumes "psk \<noteq> []" and "rand_Read g web_obfsSeedLen = Inr seed" and "length seed = web_obfsSeedLen"
    and "tx c = []" and "tx_error c = None" and "ps \<noteq> []" and "ns \<noteq> []"
  shows "\<exists>cl. web_obf_writes X g ps (web_newObfConn c False psk) = Returns cl \<and>
    (\<forall>c'. concat (rx c') = concat (tx (oc_Conn cl)) \<longrightarrow>
      (\<exists>bs rest sv. obf_reads X' g' ns (newObfConn c' True psk) = Returns (bs, sv) \<and>
         concat ps = bs @ rest \<and> length rest = length (concat (rx (oc_Conn sv)))))"
proof -
  obtain up down where k: "obfStreams (sha256 (sha256 psk @ seed)) = Inr (up, down)"
    using obfStreams_total by blast
  obtain p ps' n ns' where lists: "ps = p # ps'" "ns = n # ns'"
    using assms(6,7) by (meson list.exhaust)
  obtain cl where cl: "handshake X g (newObfConn c False psk) = (None, cl)" "ready cl" "oc_w cl = Some up"
      "oc_Conn cl = c\<lparr>tx := [seed]\<rparr>"
    using handshake_psk_client [of psk g seed c up down X] assms k by (auto simp: web_copy)
  obtain cl' where w: "obf_writes X g ps cl = Returns cl'"
      "concat (tx (oc_Conn cl')) = seed @ fst (XORKeyStream up (concat ps))"
    using obf_writes_ready [OF cl(2,3), of X g ps] cl(4) assms(5) by auto
  have "\<exists>bs rest sv. obf_reads X' g' ns (newObfConn c' True psk) = Returns (bs, sv) \<and>
         concat ps = bs @ rest \<and> length rest = length (concat (rx (oc_Conn sv)))"
    if c': "concat (rx c') = concat (tx (oc_Conn cl'))" for c'
  proof -
    obtain sv where sv: "handshake X' g' (newObfConn c' True psk) = (None, sv)" "ready sv" "oc_r sv = Some up"
      "concat (rx (oc_Conn sv)) = fst (XORKeyStream up (concat ps))"
      using handshake_psk_server [of psk seed c' _ up down X' g'] c' w(2) assms(1,3) k by (auto simp: web_copy)
    have eq: "obf_reads X' g' ns (newObfConn c' True psk) = obf_reads X' g' ns sv"
      unfolding lists by (rule obf_reads_handshake [OF sv(1)])
    show ?thesis unfolding eq by (rule obf_reads_ready [OF sv(2-4)])
  qed
  moreover have "obf_writes X g ps (newObfConn c False psk) = Returns cl'"
    using w(1) obf_writes_handshake [OF cl(1)] by (simp add: lists)
  ultimately show ?thesis unfolding web_obf_writes_copy web_newObfConn_copy by blast
qed

definition idle_conn :: conn where
  "idle_conn = \<lparr>rx = [], rx_end = EOF, tx = [], tx_error = None\<rparr>"

definition demo_rng :: rng where
  "demo_rng = \<lparr>rand_Read = (\<lambda>n. Inr (replicate n (CHR ''s''))), rand_Key = Inr ''k''\<rparr>"

text \<open>
  What the negotiated mode relies on, as documented for X25519: public keys have a fixed
  length and are accepted, and the shared secret is the same from both sides.
\<close>

definition curve_laws :: "curve \<Rightarrow> bool" where
  "curve_laws X \<longleftrightarrow>
     (\<forall>a. length (PublicKey X a) = 32) \<and> (\<forall>a. NewPublicKey X (PublicKey X a) = None) \<and>
     (\<forall>a b. ECDH X a (PublicKey X b) = ECDH X b (PublicKey X a))"

definition pad32 :: "bytes \<Rightarrow> bytes" where
  "pad32 a = take 32 (a @ replicate 32 (CHR ''0''))"

definition demo_curve :: curve where
  "demo_curve = \<lparr>PublicKey = pad32, NewPublicKey = (\<lambda>_. None), ECDH = (\<lambda>a p. Inr (map2 xor_byte (pad32 a) p))\<rparr>"

lemma demo_curve_laws: "curve_laws demo_curve"
proof -
  have "map2 xor_byte x y = map2 xor_byte y x" for x y
    by (simp add: map2_map_map [where f = id and g = id, simplified] xor_byte_def xor.commute zip_commute [of x y] split_beta comp_def)
  then show ?thesis by (simp add: curve_laws_def demo_curve_def pad32_def min_def)
qed

theorem psk_transfer_witness:
  "\<exists>cl. web_obf_writes demo_curve demo_rng [''SSH-2.0-Go''] (web_newObfConn idle_conn False ''key'') = Returns cl"
  using psk_transfer [of "''key''" demo_rng "replicate web_obfsSeedLen (CHR ''s'')" idle_conn "[''SSH-2.0-Go'']" "[4]"
      demo_curve demo_curve demo_rng]
  by (auto simp: demo_rng_def idle_conn_def)

text \<open>
  C5. Without a pre-shared key the browser and the proxy, reading each other's public keys off
  the wire in any chunking, finish the handshake with mirrored key streams; each has sent its
  public key and nothing else, and has consumed the peer's key and nothing else.
\<close>

theorem ecdh_agreement:
  assumes "curve_laws X" and "rand_Key g = Inr a" and "rand_Key g' = Inr b"
    and "ECDH X a (PublicKey X b) = Inr secret"
    and "tx_error c = None" and "tx_error c' = None"
    and "concat (rx c) = PublicKey X b @ rest" and "concat (rx c') = PublicKey X a @ rest'"
  shows "\<exists>cl sv. web_handshake X g (web_newObfConn c False []) = (None, cl) \<and>
    handshake X g' (newObfConn c' True []) = (None, sv) \<and> mirrored cl sv \<and>
    tx (oc_Conn cl) = tx c @ [PublicKey X a] \<and> concat (rx (oc_Conn cl)) = rest \<and>
    tx (oc_Conn sv) = tx c' @ [PublicKey X b] \<and> concat (rx (oc_Conn sv)) = rest'"
proof -
  obtain up down where k: "obfStreams (sha256 secret) = Inr (up, down)" using obfStreams_total by blast
  have laws: "length (PublicKey X b) = length (PublicKey X a)" "NewPublicKey X (PublicKey X b) = None"
    "NewPublicKey X (PublicKey X a) = None" "ECDH X b (PublicKey X a) = Inr secret"
    using assms(1,4) unfolding curve_laws_def by metis+
  show ?thesis
    using handshake_ecdh_end [OF assms(2,5,7) laws(1,2) assms(4) k, of False]
      handshake_ecdh_end [OF assms(3,6,8) laws(1) [symmetric] laws(3,4) k, of True]
    by (auto simp: web_copy mirrored_def)
qed

theorem ecdh_agreement_witness:
  "\<exists>cl sv. web_handshake demo_curve demo_rng (web_newObfConn (idle_conn\<lparr>rx := [PublicKey demo_curve ''k'']\<rparr>) False []) = (None, cl)
     \<and> handshake demo_curve demo_rng (newObfConn (idle_conn\<lparr>rx := [PublicKey demo_curve ''k'']\<rparr>) True []) = (None, sv)
     \<and> mirrored cl sv"
proof -
  let ?c = "idle_conn\<lparr>rx := [PublicKey demo_curve ''k'']\<rparr>"
  have "rand_Key demo_rng = Inr ''k''" "tx_error ?c = None" "concat (rx ?c) = PublicKey demo_curve ''k'' @ []"
    "\<exists>secret. ECDH demo_curve ''k'' (PublicKey demo_curve ''k'') = Inr secret"
    by (simp_all add: demo_rng_def idle_conn_def demo_curve_def)
  then show ?thesis using ecdh_agreement [OF demo_curve_laws] by blast
qed

text \<open>
  C6. After the handshake the connection carries data both ways: between mirrored ends (the
  relation is symmetric) every sequence of writes at one end, delivered in any chunks, is read
  back at the other end in order, without loss, whatever buffer sizes are used.
\<close>

theorem mirrored_transfer:
  assumes "mirrored a b \<or> mirrored b a" and "tx_error (oc_Conn a) = None"
  shows "\<exists>a'. obf_writes X g ps a = Returns a' \<and>
    (\<forall>chunks. concat (tx (oc_Conn a')) = concat (tx (oc_Conn a)) @ concat chunks \<longrightarrow>
      (\<exists>bs rest b'. obf_reads X' g' ns (b\<lparr>oc_Conn := (oc_Conn b)\<lparr>rx := chunks\<rparr>\<rparr>) = Returns (bs, b') \<and>
         concat ps = bs @ rest \<and> length rest = length (concat (rx (oc_Conn b')))))"
proof -
  obtain s where ends: "ready a" "ready b" "oc_w a = Some s" "oc_r b = Some s"
    using assms(1) by (auto simp: mirrored_def)
  obtain a' where a': "obf_writes X g ps a = Returns a'"
      "concat (tx (oc_Conn a')) = concat (tx (oc_Conn a)) @ fst (XORKeyStream s (concat ps))"
    using obf_writes_ready [OF ends(1,3) assms(2)] by blast
  have "\<exists>bs rest b'. obf_reads X' g' ns (b\<lparr>oc_Conn := (oc_Conn b)\<lparr>rx := chunks\<rparr>\<rparr>) = Returns (bs, b') \<and>
         concat ps = bs @ rest \<and> length rest = length (concat (rx (oc_Conn b')))"
    if "concat (tx (oc_Conn a')) = concat (tx (oc_Conn a)) @ concat chunks" for chunks
    using that a'(2) ends
      obf_reads_ready [of "b\<lparr>oc_Conn := (oc_Conn b)\<lparr>rx := chunks\<rparr>\<rparr>" s "concat ps" X' g' ns] by auto
  with a'(1) show ?thesis by blast
qed

definition demo_end :: "cipher_stream \<Rightarrow> cipher_stream \<Rightarrow> obfConn" where
  "demo_end r w = \<lparr>oc_Conn = idle_conn, oc_server = False, oc_psk = [], oc_r = Some r, oc_w = Some w,
     oc_once = True, oc_hsErr = None\<rparr>"

theorem mirrored_transfer_witness:
  "\<exists>a'. obf_writes demo_curve demo_rng [''data'']
     (demo_end (NewCTR ''k'' ''down'') (NewCTR ''k'' ''up'')) = Returns a'"
proof -
  have "mirrored (demo_end (NewCTR ''k'' ''down'') (NewCTR ''k'' ''up'')) (demo_end (NewCTR ''k'' ''up'') (NewCTR ''k'' ''down''))"
    "tx_error (oc_Conn (demo_end (NewCTR ''k'' ''down'') (NewCTR ''k'' ''up''))) = None"
    by (simp_all add: mirrored_def demo_end_def idle_conn_def)
  then show ?thesis using mirrored_transfer by blast
qed

end
