(* ===== verification/WebMux.thy ===== *)
theory WebMux
  imports Mux WebObfs
begin

text \<open>
  How the browser opens connections (\<open>src/web/mux.go\<close> and \<open>con\<close>, \<open>conLegacy\<close> of
  \<open>src/web/main.go\<close>): the shared multiplexed session with its one retry, the header of a stream,
  and the dedicated websocket as fallback; and the two ends of both protocols together.
  The websocket dialler and yamux are parameters.
\<close>

section \<open>Dialling\<close>

record location =
  loc_protocol :: string
  loc_host :: string

definition ws_url :: "location \<Rightarrow> string \<Rightarrow> string" where
  "ws_url l path = (if loc_protocol l = ''http:'' then ''ws://'' else ''wss://'') @ loc_host l @ path"

text \<open>The page's settings: \<open>None\<close> for a global that is missing or of another type.\<close>

record js_globals =
  OBFS_ENABLED :: "bool option"
  OBFS_KEY :: "string option"

definition obfsClientEnabled :: "js_globals \<Rightarrow> bool" where
  "obfsClientEnabled js = (case OBFS_ENABLED js of Some b \<Rightarrow> b | None \<Rightarrow> True)"

definition obfsClientKey :: "js_globals \<Rightarrow> string" where
  "obfsClientKey js = (case OBFS_KEY js of Some k \<Rightarrow> k | None \<Rightarrow> [])"

text \<open>
  The browser's world: \<open>br_dial n url\<close> is what the \<open>n\<close>-th websocket dial gives. A yamux session
  \<open>'S\<close> can be created, asked whether it is closed, closed, and asked for a stream.
\<close>

record 'S browser_env =
  br_loc :: location
  br_js :: js_globals
  br_dial :: "nat \<Rightarrow> string \<Rightarrow> conn io"
  ym_Client :: "transport \<Rightarrow> 'S io"
  ym_IsClosed :: "'S \<Rightarrow> bool"
  ym_Close :: "'S \<Rightarrow> 'S"
  ym_Open :: "'S \<Rightarrow> conn io \<times> 'S"

text \<open>
  \<open>ms_closed\<close> are the sessions the client itself has closed. A stream or websocket that is closed on
  an error path is simply dropped.
\<close>

record 'S mux_state =
  muxSess :: "'S option"
  ms_dials :: nat
  ms_closed :: "'S list"

definition wrap_ws :: "js_globals \<Rightarrow> conn \<Rightarrow> transport" where
  "wrap_ws js c = (if obfsClientEnabled js then Wrapped (web_newObfConn c False (obfsClientKey js)) else Plain c)"

definition dialObfWS :: "'S browser_env \<Rightarrow> string \<Rightarrow> 'S mux_state \<Rightarrow> transport io \<times> 'S mux_state" where
  "dialObfWS B path ms =
     (let ms' = ms\<lparr>ms_dials := ms_dials ms + 1\<rparr> in
      case br_dial B (ms_dials ms) (ws_url (br_loc B) path) of
        Inl e \<Rightarrow> (Inl (IOError ''failed to open ws''), ms')
      | Inr c \<Rightarrow> (Inr (wrap_ws (br_js B) c), ms'))"

definition muxSession :: "'S browser_env \<Rightarrow> 'S mux_state \<Rightarrow> 'S io \<times> 'S mux_state" where
  "muxSession B ms =
     (case (case muxSess ms of None \<Rightarrow> None | Some s \<Rightarrow> if ym_IsClosed B s then None else Some s) of
        Some s \<Rightarrow> (Inr s, ms)
      | None \<Rightarrow>
          (case dialObfWS B ''/pm'' ms of
             (Inl e, ms') \<Rightarrow> (Inl e, ms')
           | (Inr t, ms') \<Rightarrow>
               (case ym_Client B t of
                  Inl e \<Rightarrow> (Inl e, ms')
                | Inr s \<Rightarrow> (Inr s, ms'\<lparr>muxSess := Some s\<rparr>))))"

section \<open>Streams\<close>

definition writeMuxHeader :: "string \<Rightarrow> int \<Rightarrow> conn \<Rightarrow> write_result \<times> conn" where
  "writeMuxHeader host port w =
     (let hdr = marshal_host_port True host port
      in conn_Write (put16 (length hdr mod 65536) @ hdr) w)"

definition openMuxStream :: "'S browser_env \<Rightarrow> string \<Rightarrow> int \<Rightarrow> 'S mux_state \<Rightarrow> conn io \<times> 'S mux_state" where
  "openMuxStream B host port ms =
     (case muxSession B ms of
        (Inl e, ms1) \<Rightarrow> (Inl e, ms1)
      | (Inr s, ms1) \<Rightarrow>
          (case ym_Open B s of (r, s') \<Rightarrow>
             let ms2 = ms1\<lparr>muxSess := Some s'\<rparr> in
             (case r of
                Inl e \<Rightarrow> (Inl e, ms2)
              | Inr st \<Rightarrow>
                  (case writeMuxHeader host port st of
                     (Inl (n, e), _) \<Rightarrow> (Inl e, ms2)
                   | (Inr _, st1) \<Rightarrow>
                       (case ReadFull 1 st1 of
                          (Inl e, _) \<Rightarrow> (Inl e, ms2)
                        | (Inr b, st2) \<Rightarrow>
                            if b \<noteq> [CHR 0x01] then (Inl (IOError ''mux: proxy failed to dial''), ms2)
                            else (Inr st2, ms2))))))"

definition dialMuxed :: "'S browser_env \<Rightarrow> string \<Rightarrow> int \<Rightarrow> 'S mux_state \<Rightarrow> conn io \<times> 'S mux_state" where
  "dialMuxed B host port ms =
     (case openMuxStream B host port ms of
        (Inr st, ms1) \<Rightarrow> (Inr st, ms1)
      | (Inl e, ms1) \<Rightarrow>
          let ms2 = (case muxSess ms1 of
                       None \<Rightarrow> ms1
                     | Some s \<Rightarrow> ms1\<lparr>muxSess := None, ms_closed := ms_closed ms1 @ [ym_Close B s]\<rparr>)
          in openMuxStream B host port ms2)"

section \<open>The dedicated connection\<close>

definition put_status :: "bytes \<Rightarrow> json \<Rightarrow> string \<times> string \<Rightarrow> (string \<times> string) \<times> bool" where
  "put_status k v st =
     (case st of (s, e) \<Rightarrow>
        if k = ''status'' then (case set_string v s of (s', b) \<Rightarrow> ((s', e), b))
        else if k = ''error'' then (case set_string v e of (e', b) \<Rightarrow> ((s, e'), b))
        else (st, False))"

text \<open>
  \<open>json.NewDecoder(tr).Decode\<close>: read until the buffer starts with a value; \<open>cap\<close> is the capacity
  of the decoder's buffer. Bytes that were read past the value stay in the decoder, which is
  dropped. Every successful read consumes input, which the test in the recursion expresses.
\<close>

function decode_stream ::
  "curve \<Rightarrow> rng \<Rightarrow> (bytes \<Rightarrow> json \<Rightarrow> 'a \<Rightarrow> 'a \<times> bool) \<Rightarrow> 'a \<Rightarrow> nat \<Rightarrow> bytes \<Rightarrow> transport \<Rightarrow> ('a io \<times> transport) res" where
  "decode_stream X g put zero cap acc t =
     (case parse_value acc of
        Some (v, rest) \<Rightarrow>
          (case decode_struct put zero v of
             None \<Rightarrow> Returns (Inl (IOError ''json''), t)
           | Some x \<Rightarrow> Returns (Inr x, t))
      | None \<Rightarrow>
          let cap' = (if cap - length acc < 512 then 2 * cap + 512 else cap) in
          bind_res (tr_Read X g (cap' - length acc) t) (\<lambda>(r, t').
            case r of
              Inl e \<Rightarrow> Returns (Inl (if skip_ws acc \<noteq> [] \<and> e = EOF then UnexpectedEOF else e), t')
            | Inr b \<Rightarrow>
                if rx_size (tr_conn t') < rx_size (tr_conn t) then decode_stream X g put zero cap' (acc @ b) t'
                else Returns (Inl (IOError ''no progress''), t')))"
  by pat_completeness auto
termination
  by (relation "measure (\<lambda>(X, g, put, zero, cap, acc, t). rx_size (tr_conn t))") auto

declare decode_stream.simps [simp del]

definition conLegacy ::
  "'S browser_env \<Rightarrow> curve \<Rightarrow> rng \<Rightarrow> string \<Rightarrow> int \<Rightarrow> 'S mux_state \<Rightarrow> (transport io \<times> 'S mux_state) res" where
  "conLegacy B X g host port ms =
     (let ms' = ms\<lparr>ms_dials := ms_dials ms + 1\<rparr> in
      case br_dial B (ms_dials ms) (ws_url (br_loc B) ''/p'') of
        Inl e \<Rightarrow> Returns (Inl (IOError ''failed to open ws''), ms')
      | Inr c \<Rightarrow>
          bind_res (tr_Write X g (marshal_host_port True host port @ nl) (wrap_ws (br_js B) c)) (\<lambda>(_, tr).
          bind_res (decode_stream X g put_status ([], []) 0 [] tr) (\<lambda>(r, tr').
            case r of
              Inl e \<Rightarrow> Returns (Inl (IOError ''failed to read connection request response''), ms')
            | Inr (stat, err) \<Rightarrow>
                if stat \<noteq> ''ok'' then Returns (Inl (IOError err), ms') else Returns (Inr tr', ms'))))"

text \<open>\<open>con\<close>: the multiplexed stream first, a dedicated connection when that fails.\<close>

datatype connection = Stream conn | Dedicated transport

definition con ::
  "'S browser_env \<Rightarrow> curve \<Rightarrow> rng \<Rightarrow> string \<Rightarrow> int \<Rightarrow> 'S mux_state \<Rightarrow> (connection io \<times> 'S mux_state) res" where
  "con B X g host port ms =
     (case dialMuxed B host port ms of
        (Inr c, ms') \<Rightarrow> Returns (Inr (Stream c), ms')
      | (Inl e, ms') \<Rightarrow>
          bind_res (conLegacy B X g host port ms') (\<lambda>(r, ms'').
            Returns (map_sum id Dedicated r, ms'')))"

section \<open>Streams: properties\<close>

lemma Unmarshal_marshal:
  "ascii host \<Longrightarrow> in_i64 port \<Longrightarrow> Unmarshal put_host_port ([], 0) (marshal_host_port short host port) = Some (host, port)"
  using marshal_parse [of host short port "[]"] by (simp add: Unmarshal_def decode_host_port skip_ws_def)

lemma marshal_not_Nil: "0 < length (marshal_host_port short host port)"
  by (simp add: marshal_host_port_def)

lemma put16_mod: "n < 65536 \<Longrightarrow> put16 (n mod 65536) = put16 n"
  by simp

lemma mux_header_wire:
  assumes "writeMuxHeader host port w = (Inr (), w')" and "tx w = []" and "concat (rx c) = concat (tx w') @ payload"
  shows "concat (rx c) = put16 (length (marshal_host_port True host port) mod 65536) @ marshal_host_port True host port @ payload"
  using assms by (auto simp: writeMuxHeader_def conn_Write_def Let_def split: option.splits if_splits)

lemma mux_header_roundtrip_lemma:
  assumes "writeMuxHeader host port w = (Inr (), w')" and "tx w = []"
    and "concat (rx c) = concat (tx w') @ payload" and "ascii host" and "in_i64 port"
    and "length (marshal_host_port True host port) \<le> 4096"
  shows "\<exists>c'. readMuxHeader c = (Inr (host, port), c') \<and> concat (rx c') = payload \<and> tx c' = tx c"
  using readMuxHeader_reads [of c "marshal_host_port True host port" payload "(host, port)"] mux_header_wire [OF assms(1-3)]
    assms(6) marshal_not_Nil Unmarshal_marshal [OF assms(4,5)]
  by (auto simp: put16_mod)

text \<open>
  C8. The header the browser writes on a stream is what the proxy reads from it, for every ASCII
  host and every port whose header fits the limit of 4096 bytes, in whatever chunks the stream
  arrives, and the proxy consumes the header only: the payload behind it is left untouched.
  A longer header, up to the 65535 bytes the length field can express, is always refused.
\<close>

theorem mux_header_roundtrip:
  assumes "writeMuxHeader host port w = (Inr (), w')" and "tx w = []"
    and "concat (rx c) = concat (tx w') @ payload" and "ascii host" and "in_i64 port"
  shows "(length (marshal_host_port True host port) \<le> 4096 \<longrightarrow>
      (\<exists>c'. readMuxHeader c = (Inr (host, port), c') \<and> concat (rx c') = payload \<and> tx c' = tx c)) \<and>
    (4096 < length (marshal_host_port True host port) \<and> length (marshal_host_port True host port) < 65536 \<longrightarrow>
      (\<exists>e c'. readMuxHeader c = (Inl e, c')))"
proof (intro conjI impI)
  let ?hdr = "marshal_host_port True host port"
  note wire = mux_header_wire [OF assms(1-3)]
  show "\<exists>c'. readMuxHeader c = (Inr (host, port), c') \<and> concat (rx c') = payload \<and> tx c' = tx c"
    if "length ?hdr \<le> 4096"
    using assms that by (rule mux_header_roundtrip_lemma)
  show "\<exists>e c'. readMuxHeader c = (Inl e, c')" if "4096 < length ?hdr \<and> length ?hdr < 65536"
    using readMuxHeader_implausible [of c "length ?hdr" "?hdr @ payload"] wire that by (auto simp: put16_mod)
qed

definition demo_wire :: conn where
  "demo_wire = open_conn\<lparr>rx := [put16 (length (marshal_host_port True ''db'' 22)) @ marshal_host_port True ''db'' 22 @ ''SSH'']\<rparr>"

theorem mux_header_roundtrip_witness:
  "\<exists>c'. readMuxHeader demo_wire = (Inr (''db'', 22), c') \<and> concat (rx c') = ''SSH''"
proof -
  have len: "length (marshal_host_port True ''db'' 22) = 23" by code_simp
  have "writeMuxHeader ''db'' 22 open_conn = (Inr (), open_conn\<lparr>tx := [put16 23 @ marshal_host_port True ''db'' 22]\<rparr>)"
    using len by (simp add: writeMuxHeader_def conn_Write_def open_conn_def)
  from mux_header_roundtrip [OF this, of demo_wire "''SSH''"] len show ?thesis
    by (auto simp: demo_wire_def open_conn_def ascii_def in_i64_def)
qed

text \<open>
  C7. End to end over a stream: when the browser asks for an allowed target that accepts the
  connection, the proxy dials exactly that host and port and answers 1; under every interleaving
  the target receives, in order, a prefix of the payload that follows the header, all of it when
  the browser's direction ends cleanly, and the browser a prefix of what the target sent.
\<close>

theorem mux_stream_delivers:
  assumes "writeMuxHeader host port w = (Inr (), w')" and "tx w = []"
    and "concat (rx c) = concat (tx w') @ payload" and "tx_error c = None" and "tx c = []"
    and "ascii host" and "in_i64 port" and "length (marshal_host_port True host port) \<le> 4096"
    and "host \<notin> set (blacklistedTargets (px_targets px))"
    and "me_dial E (JoinHostPort host (FormatInt port)) = Inr target"
  shows "\<exists>c' target' u d px' up down. handleMuxStream E src c px = Returns (c', MuxRelayed target' u d, px') \<and>
    px_dials px' = px_dials px @ [(host, port)] \<and> (finished u \<or> finished d) \<and>
    concat (tx target') = concat (tx target) @ up \<and> prefix up payload \<and>
    concat (tx c') = CHR 0x01 # down \<and> prefix down (concat (rx target)) \<and>
    (finished u \<and> copy_error u = None \<longrightarrow> up = payload) \<and>
    (finished d \<and> copy_error d = None \<longrightarrow> down = concat (rx target))"
proof -
  obtain c1 where c1: "readMuxHeader c = (Inr (host, port), c1)" "concat (rx c1) = payload" "tx c1 = []"
    using mux_header_roundtrip_lemma [OF assms(1-3,6-8)] assms(5) by auto
  have "can_write c1" using readMuxHeader_frame [OF c1(1)] assms(4) by simp
  from handleMuxStream_relay [OF c1(1) this assms(9,10), of src] c1(2,3) show ?thesis by simp
qed

theorem mux_stream_delivers_witness:
  "\<exists>c' target' u d px' up. handleMuxStream demo_mux_env ''src'' demo_wire demo_proxy = Returns (c', MuxRelayed target' u d, px') \<and>
    px_dials px' = [(''db'', 22)] \<and> concat (tx target') = up \<and> prefix up ''SSH''"
proof -
  have len: "length (marshal_host_port True ''db'' 22) = 23" by code_simp
  have "writeMuxHeader ''db'' 22 open_conn = (Inr (), open_conn\<lparr>tx := [put16 23 @ marshal_host_port True ''db'' 22]\<rparr>)"
    using len by (simp add: writeMuxHeader_def conn_Write_def open_conn_def)
  from mux_stream_delivers [OF this, of demo_wire "''SSH''" demo_proxy demo_mux_env open_conn "''src''"] len
  show ?thesis
    by (auto simp: demo_wire_def open_conn_def ascii_def in_i64_def demo_proxy_def initial_targets_def demo_mux_env_def)
qed

section \<open>The shared session: properties\<close>

lemma muxSession_live:
  "muxSess ms = Some s \<Longrightarrow> \<not> ym_IsClosed B s \<Longrightarrow> muxSession B ms = (Inr s, ms)"
  by (simp add: muxSession_def)

lemma muxSession_dials:
  "muxSession B ms = (r, ms') \<Longrightarrow> ms_dials ms' \<le> ms_dials ms + 1"
  by (auto simp: muxSession_def dialObfWS_def Let_def split: option.splits sum.splits prod.splits if_splits)

lemma openMuxStream_dials:
  "openMuxStream B host port ms = (r, ms') \<Longrightarrow> ms_dials ms' \<le> ms_dials ms + 1"
  by (auto simp: openMuxStream_def Let_def split: sum.splits prod.splits if_splits dest: muxSession_dials)

lemma openMuxStream_live:
  assumes "muxSess ms = Some s" and "\<not> ym_IsClosed B s" and "openMuxStream B host port ms = (r, ms')"
  shows "ms_dials ms' = ms_dials ms" and "ms_closed ms' = ms_closed ms"
  using assms(3) unfolding openMuxStream_def muxSession_live [OF assms(1,2)] Let_def
  by (auto split: sum.splits prod.splits if_splits)

lemma openMuxStream_closed:
  "openMuxStream B host port ms = (r, ms') \<Longrightarrow> ms_closed ms' = ms_closed ms"
  by (auto simp: openMuxStream_def muxSession_def dialObfWS_def Let_def
      split: sum.splits prod.splits if_splits option.splits)

text \<open>The state the retry starts from.\<close>

definition drop_session :: "'S browser_env \<Rightarrow> 'S mux_state \<Rightarrow> 'S mux_state" where
  "drop_session B ms = (case muxSess ms of
     None \<Rightarrow> ms | Some s \<Rightarrow> ms\<lparr>muxSess := None, ms_closed := ms_closed ms @ [ym_Close B s]\<rparr>)"

lemma drop_session_simps [simp]:
  "muxSess (drop_session B ms) = None" "ms_dials (drop_session B ms) = ms_dials ms"
  by (simp_all add: drop_session_def split: option.splits)

lemma dialMuxed_again:
  "openMuxStream B host port ms = (Inl e, ms1) \<Longrightarrow>
   dialMuxed B host port ms = openMuxStream B host port (drop_session B ms1)"
  by (simp add: dialMuxed_def Let_def drop_session_def)

lemma dialMuxed_once:
  "openMuxStream B host port ms = (Inr st, ms1) \<Longrightarrow> dialMuxed B host port ms = (Inr st, ms1)"
  by (simp add: dialMuxed_def)

text \<open>
  Opening a connection over the shared session dials the proxy at most twice, and not at all
  while a live session accepts the stream; after a failed first attempt the second one never
  uses the session that failed.
\<close>

theorem dialMuxed_retry:
  "dialMuxed B host port ms = (r, ms') \<Longrightarrow> ms_dials ms' \<le> ms_dials ms + 2"
  "muxSess ms = Some s \<Longrightarrow> \<not> ym_IsClosed B s \<Longrightarrow> openMuxStream B host port ms = (Inr st, ms1) \<Longrightarrow>
     dialMuxed B host port ms = (Inr st, ms1) \<and> ms_dials ms1 = ms_dials ms"
  "openMuxStream B host port ms = (Inl e, ms1) \<Longrightarrow>
     \<exists>ms2. dialMuxed B host port ms = openMuxStream B host port ms2 \<and> muxSess ms2 = None \<and> ms_dials ms2 = ms_dials ms1"
proof -
  show "ms_dials ms' \<le> ms_dials ms + 2" if d: "dialMuxed B host port ms = (r, ms')"
  proof -
    obtain q ms1 where o1: "openMuxStream B host port ms = (q, ms1)" by fastforce
    show ?thesis
    proof (cases q)
      case (Inl e)
      with o1 d have "openMuxStream B host port (drop_session B ms1) = (r, ms')" by (simp add: dialMuxed_again)
      with openMuxStream_dials [OF this] openMuxStream_dials [OF o1] show ?thesis by simp
    next
      case (Inr st)
      with o1 d have "ms' = ms1" by (simp add: dialMuxed_once)
      with openMuxStream_dials [OF o1] show ?thesis by simp
    qed
  qed
  show "dialMuxed B host port ms = (Inr st, ms1) \<and> ms_dials ms1 = ms_dials ms"
    if "muxSess ms = Some s" "\<not> ym_IsClosed B s" "openMuxStream B host port ms = (Inr st, ms1)"
    using dialMuxed_once [OF that(3)] openMuxStream_live(1) [OF that] by simp
  show "\<exists>ms2. dialMuxed B host port ms = openMuxStream B host port ms2 \<and> muxSess ms2 = None \<and> ms_dials ms2 = ms_dials ms1"
    if "openMuxStream B host port ms = (Inl e, ms1)"
    using dialMuxed_again [OF that] by auto
qed

definition demo_browser :: "bool browser_env" where
  "demo_browser = \<lparr>br_loc = \<lparr>loc_protocol = ''https:'', loc_host = ''ssh.example''\<rparr>,
     br_js = \<lparr>OBFS_ENABLED = Some False, OBFS_KEY = None\<rparr>, br_dial = (\<lambda>_ _. Inl EOF),
     ym_Client = (\<lambda>_. Inr True), ym_IsClosed = (\<lambda>s. \<not> s), ym_Close = (\<lambda>_. False),
     ym_Open = (\<lambda>s. (Inr \<lparr>rx = [[CHR 0x00]], rx_end = EOF, tx = [], tx_error = None\<rparr>, s))\<rparr>"

definition live_state :: "bool mux_state" where
  "live_state = \<lparr>muxSess = Some True, ms_dials = 1, ms_closed = []\<rparr>"

theorem dialMuxed_retry_witness:
  "ms_dials (snd (dialMuxed demo_browser ''db'' 22 live_state)) \<le> 3"
proof -
  obtain r ms' where d: "dialMuxed demo_browser ''db'' 22 live_state = (r, ms')" by fastforce
  from dialMuxed_retry(1) [OF d] d show ?thesis by (simp add: live_state_def)
qed

text \<open>
  C38. A target the proxy cannot reach costs the browser every connection it has: when the proxy
  answers 0 on a stream of the live shared session, that session is closed, with all its other
  streams, before the attempt is repeated.
\<close>

theorem refused_stream_closes_session:
  assumes "muxSess ms = Some s" and "\<not> ym_IsClosed B s" and "ym_Open B s = (Inr st, s')"
    and "tx_error st = None" and "concat (rx st) = CHR 0x00 # rest"
  shows "\<exists>r ms'. dialMuxed B host port ms = (r, ms') \<and> ym_Close B s' \<in> set (ms_closed ms')"
proof -
  let ?ms1 = "ms\<lparr>muxSess := Some s'\<rparr>"
  let ?hdr = "put16 (length (marshal_host_port True host port) mod 65536) @ marshal_host_port True host port"
  obtain c' where "ReadFull 1 (st\<lparr>tx := tx st @ [?hdr]\<rparr>) = (Inr [CHR 0x00], c')"
    using ReadFull_ok [of 1 "st\<lparr>tx := tx st @ [?hdr]\<rparr>"] assms(5) by auto
  then have first: "\<exists>e. openMuxStream B host port ms = (Inl e, ?ms1)"
    using assms(3,4) unfolding openMuxStream_def muxSession_live [OF assms(1,2)]
    by (simp add: writeMuxHeader_def conn_Write_open Let_def)
  obtain r ms' where again: "openMuxStream B host port (drop_session B ?ms1) = (r, ms')" by fastforce
  then have "ms_closed ms' = ms_closed ms @ [ym_Close B s']"
    using openMuxStream_closed [OF again] by (simp add: drop_session_def)
  with first again show ?thesis using dialMuxed_again [of B host port ms _ ?ms1] by auto
qed

theorem refused_stream_closes_session_witness:
  "\<exists>r ms'. dialMuxed demo_browser ''db'' 22 live_state = (r, ms') \<and> ym_Close demo_browser True \<in> set (ms_closed ms')"
  by (rule refused_stream_closes_session [where s = True and st = "\<lparr>rx = [[CHR 0x00]], rx_end = EOF, tx = [], tx_error = None\<rparr>" and rest = "[]"])
    (simp_all add: demo_browser_def live_state_def)

section \<open>The dedicated connection: properties\<close>

lemma Decode_request:
  "ascii host \<Longrightarrow> in_i64 port \<Longrightarrow> Decode put_host_port ([], 0) (marshal_host_port short host port @ rest) = Some (host, port)"
  using marshal_parse [of host short port rest] by (simp add: Decode_def decode_host_port)

lemma parse_ok_response: "parse_value (ok_response @ rest) = Some (JObj [(''status'', JStr ''ok'')], rest)"
proof -
  have uq: "unquote ''status'' = ''status''" "unquote ''ok'' = ''ok''" by code_simp+
  have v: "parse_value (json_quoted ''ok'' @ ''}'' @ rest) = Some (JStr ''ok'', ''}'' @ rest)"
    using uq by (subst parse_value.simps) (simp add: json_quoted_def skip_ws_Cons)
  have m: "parse_obj (json_quoted ''status'' @ '':'' @ json_quoted ''ok'' @ ''}'' @ rest) = Some ([(''status'', JStr ''ok'')], rest)"
    using v uq by (subst parse_obj.simps) (simp add: json_quoted_def skip_ws_Cons)
  show ?thesis using m by (subst parse_value.simps) (simp add: json_quoted_def skip_ws_Cons HasPrefix_def)
qed

lemma decode_ok: "decode_struct put_status ([], []) (JObj [(''status'', JStr ''ok'')]) = Some (''ok'', [])"
  by code_simp

lemma parse_Nil: "parse_value [] = None"
  by code_simp

text \<open>
  On a dedicated websocket the request the browser sends is the one the proxy decodes from
  its zero-padded buffer, and a proxy answer that arrives together with the first bytes of the
  target loses them: everything in the chunk behind the answer is dropped.
\<close>

theorem legacy_exchange:
  assumes "ascii host" and "in_i64 port"
  shows "Decode put_host_port ([], 0) ((marshal_host_port True host port @ nl) @ replicate k (CHR 0x00)) = Some (host, port) \<and>
    (length banner \<le> 400 \<longrightarrow>
      decode_stream X g put_status ([], []) 0 [] (Plain (open_conn\<lparr>rx := (ok_response @ banner) # later\<rparr>)) =
      Returns (Inr (''ok'', []), Plain (open_conn\<lparr>rx := later\<rparr>)))"
proof (intro conjI impI)
  show "Decode put_host_port ([], 0) ((marshal_host_port True host port @ nl) @ replicate k (CHR 0x00)) = Some (host, port)"
    using Decode_request [OF assms, of True "nl @ replicate k (CHR 0x00)"] by simp
  show "decode_stream X g put_status ([], []) 0 [] (Plain (open_conn\<lparr>rx := (ok_response @ banner) # later\<rparr>)) =
      Returns (Inr (''ok'', []), Plain (open_conn\<lparr>rx := later\<rparr>))" if "length banner \<le> 400"
  proof -
    let ?t = "Plain (open_conn\<lparr>rx := (ok_response @ banner) # later\<rparr>)" and ?t' = "Plain (open_conn\<lparr>rx := later\<rparr>)"
    have "length (ok_response @ banner) \<le> 512" using that by (simp add: json_quoted_def)
    then have read: "tr_Read X g 512 ?t = Returns (Inr (ok_response @ banner), ?t')"
      by (simp add: tr_Read_def conn_Read_def)
    have smaller: "rx_size (tr_conn ?t') < rx_size (tr_conn ?t)" by (simp add: tr_conn_def rx_size_def)
    have "decode_stream X g put_status ([], []) 512 (ok_response @ banner) ?t' = Returns (Inr (''ok'', []), ?t')"
      using parse_ok_response [of banner] decode_ok by (subst decode_stream.simps) simp
    with read smaller parse_Nil show ?thesis
      by (subst decode_stream.simps) (simp add: Let_def)
  qed
qed

theorem legacy_exchange_witness:
  "Decode put_host_port ([], 0) ((marshal_host_port True ''db'' 22 @ nl) @ replicate 5 (CHR 0x00)) = Some (''db'', 22) \<and>
   decode_stream demo_group demo_random put_status ([], []) 0 [] (Plain (open_conn\<lparr>rx := [ok_response @ ''SSH-2.0-x'']\<rparr>)) =
     Returns (Inr (''ok'', []), Plain (open_conn\<lparr>rx := []\<rparr>))"
proof -
  have "ascii ''db''" "in_i64 22" by (simp_all add: ascii_def in_i64_def)
  from legacy_exchange [OF this, of 5 "''SSH-2.0-x''" demo_group demo_random "[]"]
  show ?thesis by simp
qed

end
