(* ===== verification/WebAuthn.thy ===== *)
theory WebAuthn
  imports GoCrypto
begin

text \<open>
  Security keys in the browser (\<open>src/web/webauth.go\<close>): the public key that is registered with a
  server and used at login, and the signatures the browser's authenticator makes. Big integers, the
  point encoding of \<open>crypto/elliptic\<close>, the DER reader of \<open>encoding/asn1\<close> and base64 are executable;
  the SSH wire format (\<open>ssh.Marshal\<close>), the authenticator and the parsers of its answers are
  parameters.
\<close>

section \<open>Big integers\<close>

definition big_SetString :: "string \<Rightarrow> int option" where
  "big_SetString s =
     (let neg = HasPrefix s ''-'';
          ds = (if neg \<or> HasPrefix s ''+'' then drop 1 s else s)
      in if ds = [] then None else map_option (\<lambda>n. if neg then - n else n) (read_digits 10 0 ds))"

definition big_SetBytes :: "bytes \<Rightarrow> int" where
  "big_SetBytes bs = foldl (\<lambda>a c. a * 256 + of_char c) 0 bs"

text \<open>\<open>FillBytes\<close>: the \<open>k\<close> low bytes, most significant first.\<close>

primrec big_FillBytes :: "nat \<Rightarrow> int \<Rightarrow> bytes" where
  "big_FillBytes 0 n = []"
| "big_FillBytes (Suc k) n = big_FillBytes k (n div 256) @ [char_of (n mod 256)]"

section \<open>P-256\<close>

definition p256_p :: int where
  "p256_p = 2 ^ 256 - 2 ^ 224 + 2 ^ 192 + 2 ^ 96 - 1"

definition p256_b :: int where
  "p256_b = 41058363725152142129326129780047268409114441015993725554835256314039467401291"

text \<open>\<open>elliptic.Marshal\<close> panics off the curve (but takes the point at infinity) and on a nil coordinate.\<close>

definition on_curve :: "int \<Rightarrow> int \<Rightarrow> bool" where
  "on_curve x y \<longleftrightarrow> x = 0 \<and> y = 0 \<or>
     0 \<le> x \<and> x < p256_p \<and> 0 \<le> y \<and> y < p256_p \<and> (y * y - (x * x * x - 3 * x + p256_b)) mod p256_p = 0"

definition elliptic_Marshal :: "int option \<Rightarrow> int option \<Rightarrow> bytes res" where
  "elliptic_Marshal ox oy =
     (case (ox, oy) of
        (Some x, Some y) \<Rightarrow>
          if on_curve x y then Returns (CHR 0x04 # big_FillBytes 32 x @ big_FillBytes 32 y) else Panics
      | _ \<Rightarrow> Panics)"

section \<open>Public keys\<close>

text \<open>The fields of the structures that \<open>ssh.Marshal\<close> encodes.\<close>

datatype ssh_field = FByte int | FUint32 int | FString bytes | FMpint int

record webauthPublicKey =
  pk_application :: string
  pk_X :: "int option"
  pk_Y :: "int option"

definition pk_Type :: string where
  "pk_Type = ''webauthn-sk-ecdsa-sha2-nistp256@openssh.com''"

definition pk_Marshal :: "(ssh_field list \<Rightarrow> bytes) \<Rightarrow> webauthPublicKey \<Rightarrow> bytes res" where
  "pk_Marshal ssh_Marshal k =
     bind_res (elliptic_Marshal (pk_X k) (pk_Y k)) (\<lambda>keyBytes.
       Returns (ssh_Marshal [FString pk_Type, FString ''nistp256'', FString keyBytes, FString (pk_application k)]))"

definition pk_Verify :: "webauthPublicKey \<Rightarrow> bytes \<Rightarrow> string option" where
  "pk_Verify k data = None"

definition sshPublicKey :: "string \<Rightarrow> string \<Rightarrow> string \<Rightarrow> webauthPublicKey" where
  "sshPublicKey X Y hostName = \<lparr>pk_application = hostName, pk_X = big_SetString X, pk_Y = big_SetString Y\<rparr>"

section \<open>Signatures\<close>

definition base64_digit :: "int \<Rightarrow> char" where
  "base64_digit n = ''ABCDEFGHIJKLMNOPQRSTUVWXYZabcdefghijklmnopqrstuvwxyz0123456789+/'' ! nat n"

fun base64 :: "bytes \<Rightarrow> string" where
  "base64 [] = []"
| "base64 [a] = (let n = of_char a * 65536 in map base64_digit [n div 262144, n div 4096 mod 64] @ ''=='')"
| "base64 [a, b] = (let n = of_char a * 65536 + of_char b * 256
     in map base64_digit [n div 262144, n div 4096 mod 64, n div 64 mod 64] @ ''='')"
| "base64 (a # b # c # bs) = (let n = of_char a * 65536 + of_char b * 256 + of_char c
     in map base64_digit [n div 262144, n div 4096 mod 64, n div 64 mod 64, n mod 64] @ base64 bs)"

text \<open>
  \<open>asn1.Unmarshal\<close> of a sequence of two integers: lengths in short or long form, integers in
  minimal two's complement; bytes behind the second integer are ignored.
\<close>

primrec der_long_len :: "nat \<Rightarrow> int \<Rightarrow> bytes \<Rightarrow> (int \<times> bytes) option" where
  "der_long_len 0 n bs = Some (n, bs)"
| "der_long_len (Suc k) n bs =
     (case bs of
        [] \<Rightarrow> None
      | b # rest \<Rightarrow>
          if 2 ^ 23 \<le> n then None
          else let n' = n * 256 + of_char b in if n' = 0 then None else der_long_len k n' rest)"

definition der_len :: "bytes \<Rightarrow> (int \<times> bytes) option" where
  "der_len bs =
     (case bs of
        [] \<Rightarrow> None
      | b # rest \<Rightarrow>
          let n = (of_char b :: int) in
          if n < 128 then Some (n, rest)
          else if n = 128 then None
          else case der_long_len (nat (n - 128)) 0 rest of
              None \<Rightarrow> None
            | Some (len, rest') \<Rightarrow> if len < 128 then None else Some (len, rest'))"

text \<open>An element with the given tag: its contents and what follows.\<close>

definition der_element :: "char \<Rightarrow> bytes \<Rightarrow> (bytes \<times> bytes) option" where
  "der_element tag bs =
     (case bs of
        [] \<Rightarrow> None
      | t # rest \<Rightarrow>
          if t \<noteq> tag then None
          else case der_len rest of
              None \<Rightarrow> None
            | Some (len, rest') \<Rightarrow>
                if int (length rest') < len then None else Some (take (nat len) rest', drop (nat len) rest'))"

definition der_int :: "bytes \<Rightarrow> int option" where
  "der_int bs =
     (case bs of
        [] \<Rightarrow> None
      | b # rest \<Rightarrow>
          if (case rest of [] \<Rightarrow> False | c # _ \<Rightarrow>
                b = CHR 0x00 \<and> (of_char c :: int) < 128 \<or> b = CHR 0xFF \<and> (128 :: int) \<le> of_char c) then None
          else Some (if (128 :: int) \<le> of_char b then big_SetBytes bs - 256 ^ length bs else big_SetBytes bs))"

definition asn1_Unmarshal :: "bytes \<Rightarrow> (int \<times> int) option" where
  "asn1_Unmarshal bs =
     (case der_element (CHR 0x30) bs of
        None \<Rightarrow> None
      | Some (body, _) \<Rightarrow>
          (case der_element (CHR 0x02) body of
             None \<Rightarrow> None
           | Some (r, body') \<Rightarrow>
               (case der_element (CHR 0x02) body' of
                  None \<Rightarrow> None
                | Some (s, _) \<Rightarrow>
                    (case (der_int r, der_int s) of (Some m, Some n) \<Rightarrow> Some (m, n) | _ \<Rightarrow> None))))"

text \<open>What the program uses of a parsed credential, and the signature it makes of it.\<close>

record credential =
  cr_flags :: int
  cr_counter :: int
  cr_origin :: string
  cr_clientDataJSON :: bytes
  cr_signature :: bytes
  cr_publicKey :: bytes
  cr_rawID :: bytes

record ssh_signature =
  sig_Format :: string
  sig_Blob :: bytes
  sig_Rest :: bytes

text \<open>
  \<open>await\<close>: the promise is fulfilled with values or rejected; exactly one of the two callbacks runs.
\<close>

datatype promise = Fulfilled "string list" | Rejected string

definition await :: "promise \<Rightarrow> string + string list" where
  "await p = (case p of Fulfilled vs \<Rightarrow> Inr vs | Rejected e \<Rightarrow> Inl e)"

text \<open>\<open>webauthnSigner.Sign\<close>; what the ASN.1 reader adds to its error message is left out.\<close>

definition Sign ::
  "(ssh_field list \<Rightarrow> bytes) \<Rightarrow> (string \<Rightarrow> promise) \<Rightarrow> (string \<Rightarrow> string + credential) \<Rightarrow> bytes \<Rightarrow> (string + ssh_signature) res" where
  "Sign ssh_Marshal retrievePublicKey parseCredential data =
     (case await (retrievePublicKey (base64 data)) of
        Inl e \<Rightarrow> Returns (Inl (''failed to retrieve public key: '' @ e))
      | Inr [] \<Rightarrow> Panics
      | Inr (c # _) \<Rightarrow>
          (case parseCredential c of
             Inl e \<Rightarrow> Returns (Inl (''failed to parse credential: '' @ e))
           | Inr cred \<Rightarrow>
               (case asn1_Unmarshal (cr_signature cred) of
                  None \<Rightarrow> Returns (Inl ''failed to parse signature'')
                | Some (r, s) \<Rightarrow>
                    Returns (Inr \<lparr>sig_Format = ''webauthn-sk-ecdsa-sha2-nistp256@openssh.com'',
                      sig_Blob = ssh_Marshal [FMpint r, FMpint s],
                      sig_Rest = ssh_Marshal [FByte (cr_flags cred), FUint32 (cr_counter cred), FString (cr_origin cred),
                        FString (cr_clientDataJSON cred), FString []]\<rparr>))))"

section \<open>Registration\<close>

text \<open>A COSE key: a point of an elliptic curve, or something else.\<close>

datatype cose_key = EC2 bytes bytes | OtherKey

record registered =
  rg_sshKey :: string
  rg_hostName :: string
  rg_x :: string
  rg_y :: string
  rg_ID :: string

definition parsePublicKey ::
  "(ssh_field list \<Rightarrow> bytes) \<Rightarrow> (string \<Rightarrow> bytes \<Rightarrow> string) \<Rightarrow> (string \<Rightarrow> string + credential) \<Rightarrow> (bytes \<Rightarrow> string + cose_key) \<Rightarrow>
   string \<Rightarrow> string list \<Rightarrow> registered res" where
  "parsePublicKey ssh_Marshal authorizedKey parseCredential parseCose hostname args =
     (case args of
        [] \<Rightarrow> Panics
      | credsJSON # _ \<Rightarrow>
          (case parseCredential credsJSON of
             Inl e \<Rightarrow> Panics
           | Inr cred \<Rightarrow>
               (case parseCose (cr_publicKey cred) of
                  Inl e \<Rightarrow> Panics
                | Inr OtherKey \<Rightarrow> Panics
                | Inr (EC2 xc yc) \<Rightarrow>
                    (let x = FormatInt (big_SetBytes xc); y = FormatInt (big_SetBytes yc); pk = sshPublicKey x y hostname
                     in bind_res (pk_Marshal ssh_Marshal pk) (\<lambda>blob.
                          Returns \<lparr>rg_sshKey = authorizedKey pk_Type blob, rg_hostName = hostname, rg_x = x, rg_y = y,
                            rg_ID = base64 (cr_rawID cred)\<rparr>)))))"

section \<open>Facts\<close>

lemma big_SetString_FormatInt: "big_SetString (FormatInt n) = Some n"
proof (cases "n < 0")
  case True
  then show ?thesis by (simp add: FormatInt_def big_SetString_def HasPrefix_def read_digits_dec)
next
  case False
  then show ?thesis using dec_no_sign [of n] by (simp add: FormatInt_def big_SetString_def read_digits_dec)
qed

lemma big_SetBytes_snoc: "big_SetBytes (bs @ [c]) = big_SetBytes bs * 256 + of_char c"
  by (simp add: big_SetBytes_def)

lemma big_SetBytes_nonneg [simp]: "0 \<le> big_SetBytes bs"
  by (induction bs rule: rev_induct) (simp_all add: big_SetBytes_snoc big_SetBytes_def [of "[]"])

lemma length_FillBytes [simp]: "length (big_FillBytes k n) = k"
  by (induction k arbitrary: n) simp_all

lemma SetBytes_FillBytes: "0 \<le> n \<Longrightarrow> n < 256 ^ k \<Longrightarrow> big_SetBytes (big_FillBytes k n) = n"
proof (induction k arbitrary: n)
  case (Suc k)
  then have "n div 256 < 256 ^ k" by (simp add: div_less_iff_less_mult)
  with Suc show ?case by (simp add: big_SetBytes_snoc)
qed (simp add: big_SetBytes_def)

lemma on_curve_range: "on_curve x y \<Longrightarrow> 0 \<le> x \<and> x < 256 ^ 32 \<and> 0 \<le> y \<and> y < 256 ^ 32"
  by (auto simp: on_curve_def p256_p_def)

text \<open>
  The encoding an authenticator uses: integers in as few bytes as two's complement needs, in a
  sequence whose lengths fit the short form.
\<close>

function der_bytes :: "int \<Rightarrow> bytes" where
  "der_bytes n = (if n < 128 then [char_of n] else der_bytes (n div 256) @ [char_of (n mod 256)])"
  by pat_completeness auto
termination by (relation "measure nat") auto

declare der_bytes.simps [simp del]

definition der_tlv :: "char \<Rightarrow> bytes \<Rightarrow> bytes" where
  "der_tlv tag bs = tag # char_of (int (length bs)) # bs"

definition der_signature :: "int \<Rightarrow> int \<Rightarrow> bytes" where
  "der_signature r s = der_tlv (CHR 0x30) (der_tlv (CHR 0x02) (der_bytes r) @ der_tlv (CHR 0x02) (der_bytes s))"

text \<open>The leading byte has its high bit clear, and a leading zero is there only when it has to be.\<close>

definition minimal :: "bytes \<Rightarrow> bool" where
  "minimal bs = (case bs of
     [] \<Rightarrow> False
   | [b] \<Rightarrow> (of_char b :: int) < 128
   | b # c # _ \<Rightarrow> (of_char b :: int) < 128 \<and> (b = CHR 0x00 \<longrightarrow> 128 \<le> (of_char c :: int)))"

lemma of_char_char_of: "0 \<le> n \<Longrightarrow> n < 256 \<Longrightarrow> of_char (char_of n :: char) = (n :: int)"
  by simp

lemma minimal_snoc: "minimal (b # c # bs) \<Longrightarrow> minimal ((b # c # bs) @ [d])"
  by (simp add: minimal_def)

lemma char_of_eq_0: "0 \<le> n \<Longrightarrow> n < 256 \<Longrightarrow> char_of n = CHR 0x00 \<Longrightarrow> n = (0 :: int)"
  using of_char_char_of [of n] by simp

lemma der_bytes_ok:
  "0 \<le> n \<Longrightarrow> minimal (der_bytes n) \<and> big_SetBytes (der_bytes n) = n \<and> (128 \<le> n \<longrightarrow> 2 \<le> length (der_bytes n))"
proof (induction n rule: der_bytes.induct)
  case (1 n)
  show ?case
  proof (cases "n < 128")
    case True
    with "1.prems" show ?thesis by (simp add: der_bytes.simps [of n] minimal_def big_SetBytes_def)
  next
    case False
    let ?d = "n div 256"
    have eq: "der_bytes n = der_bytes ?d @ [char_of (n mod 256)]" using False by (simp add: der_bytes.simps [of n])
    have IH: "minimal (der_bytes ?d)" "big_SetBytes (der_bytes ?d) = ?d" "128 \<le> ?d \<longrightarrow> 2 \<le> length (der_bytes ?d)"
      using "1.IH" [OF False] "1.prems" by auto
    have val: "big_SetBytes (der_bytes n) = n" unfolding eq big_SetBytes_snoc IH(2) by simp
    have "der_bytes ?d \<noteq> []" using IH(1) by (auto simp: minimal_def)
    then have len: "2 \<le> length (der_bytes n)" unfolding eq by (cases "der_bytes ?d") auto
    have "minimal (der_bytes n)"
    proof (cases "?d < 128")
      case True
      then have "der_bytes n = [char_of ?d, char_of (n mod 256)]" unfolding eq by (simp add: der_bytes.simps [of ?d])
      moreover have "128 \<le> n mod 256" if "char_of ?d = CHR 0x00"
        using char_of_eq_0 [of ?d] that True False "1.prems" by (simp add: pos_imp_zdiv_nonneg_iff zdiv_eq_0_iff)
      ultimately show ?thesis using True "1.prems" by (simp add: minimal_def)
    next
      case False
      then obtain b c bs where "der_bytes ?d = b # c # bs" using IH(3) by (cases "der_bytes ?d" rule: remdups_adj.cases) auto
      with IH(1) minimal_snoc show ?thesis unfolding eq by metis
    qed
    with val len show ?thesis by blast
  qed
qed

lemma length_der_bytes: "n < 128 * 256 ^ k \<Longrightarrow> length (der_bytes n) \<le> Suc k"
proof (induction k arbitrary: n)
  case (Suc k)
  then have "n div 256 < 128 * 256 ^ k" by (simp add: div_less_iff_less_mult)
  with Suc.IH show ?case by (subst der_bytes.simps) auto
qed (simp add: der_bytes.simps)

lemma der_int_minimal: "minimal bs \<Longrightarrow> der_int bs = Some (big_SetBytes bs)"
  by (auto simp: minimal_def der_int_def split: list.splits)

lemma der_element_tlv: "length bs < 128 \<Longrightarrow> der_element tag (der_tlv tag bs @ rest) = Some (bs, rest)"
  using of_char_char_of [of "int (length bs)"] by (simp add: der_element_def der_tlv_def der_len_def Let_def)

lemma asn1_signature:
  assumes "0 \<le> r" "r < 2 ^ 256" "0 \<le> s" "s < 2 ^ 256"
  shows "asn1_Unmarshal (der_signature r s @ rest) = Some (r, s)"
proof -
  have "(2 :: int) ^ 256 < 128 * 256 ^ 32" by simp
  with assms have len: "length (der_bytes r) \<le> 33" "length (der_bytes s) \<le> 33"
    using length_der_bytes [of r 32] length_der_bytes [of s 32] by (simp_all add: numeral_eq_Suc)
  have r: "der_element (CHR 0x02) (der_tlv (CHR 0x02) (der_bytes r) @ der_tlv (CHR 0x02) (der_bytes s)) =
      Some (der_bytes r, der_tlv (CHR 0x02) (der_bytes s))"
    using len by (intro der_element_tlv) simp
  have s: "der_element (CHR 0x02) (der_tlv (CHR 0x02) (der_bytes s)) = Some (der_bytes s, [])"
    using len der_element_tlv [of "der_bytes s" "CHR 0x02" "[]"] by simp
  have "length (der_tlv (CHR 0x02) (der_bytes r) @ der_tlv (CHR 0x02) (der_bytes s)) < 128"
    using len by (simp add: der_tlv_def)
  from der_element_tlv [OF this, of "CHR 0x30" rest] r s der_bytes_ok [OF assms(1)] der_bytes_ok [OF assms(3)]
  show ?thesis by (simp add: asn1_Unmarshal_def der_signature_def der_int_minimal)
qed

lemma big_FillBytes_SetBytes: "length bs = k \<Longrightarrow> big_FillBytes k (big_SetBytes bs) = bs"
proof (induction bs arbitrary: k rule: rev_induct)
  case (snoc c bs)
  then obtain k' where k: "k = Suc k'" "length bs = k'" by auto
  have "(of_char c :: int) = of_char c mod 256" by simp
  then have "(of_char c :: int) < 256" by (metis pos_mod_bound zero_less_numeral)
  then have "(big_SetBytes bs * 256 + of_char c) div 256 = big_SetBytes bs" by simp
  with k snoc.IH show ?case by (simp add: big_SetBytes_snoc)
qed (simp add: big_SetBytes_def)

lemma elliptic_Marshal_bytes:
  assumes "length xc = 32" "length yc = 32" "on_curve (big_SetBytes xc) (big_SetBytes yc)"
  shows "elliptic_Marshal (Some (big_SetBytes xc)) (Some (big_SetBytes yc)) = Returns (CHR 0x04 # xc @ yc)"
  using assms by (simp add: elliptic_Marshal_def big_FillBytes_SetBytes)

lemma point_roundtrip:
  assumes "elliptic_Marshal (Some x) (Some y) = Returns b"
  shows "length b = 65 \<and> hd b = CHR 0x04 \<and> big_SetBytes (take 32 (drop 1 b)) = x \<and> big_SetBytes (drop 33 b) = y"
proof -
  have "on_curve x y" and b: "b = CHR 0x04 # big_FillBytes 32 x @ big_FillBytes 32 y"
    using assms by (auto simp: elliptic_Marshal_def split: if_splits)
  with on_curve_range SetBytes_FillBytes [of x 32] SetBytes_FillBytes [of y 32] show ?thesis by simp
qed

section \<open>Properties\<close>

text \<open>
  C39. The key a user registers is the key the browser logs in with: for a point of the curve,
  \<open>parsePublicKey\<close> answers without a panic, the key it prints is the encoding of the
  authenticator's own coordinates, and the decimal coordinates it hands to the page give back,
  through \<open>sshPublicKey\<close>, a key with exactly this encoding.
\<close>

theorem login_key_is_registered:
  assumes "parseCredential c = Inr cred" and "parseCose (cr_publicKey cred) = Inr (EC2 xc yc)"
    and "length xc = 32" "length yc = 32" "on_curve (big_SetBytes xc) (big_SetBytes yc)"
  shows "\<exists>rg. parsePublicKey ssh_Marshal authorizedKey parseCredential parseCose hostname (c # args) = Returns rg \<and>
    (let blob = ssh_Marshal [FString pk_Type, FString ''nistp256'', FString (CHR 0x04 # xc @ yc), FString hostname]
     in rg_sshKey rg = authorizedKey pk_Type blob \<and>
        pk_Marshal ssh_Marshal (sshPublicKey (rg_x rg) (rg_y rg) (rg_hostName rg)) = Returns blob)"
  using assms elliptic_Marshal_bytes [OF assms(3-5)]
  by (simp add: parsePublicKey_def pk_Marshal_def sshPublicKey_def big_SetString_FormatInt Let_def)

text \<open>The base point of the curve as an authenticator would return it.\<close>

definition base_x :: int where
  "base_x = 0x6B17D1F2E12C4247F8BCE6E563A440F277037D812DEB33A0F4A13945D898C296"

definition base_y :: int where
  "base_y = 0x4FE342E2FE1A7F9B8EE7EB4A7C0F9E162BCE33576B315ECECBB6406837BF51F5"

definition sample_credential :: credential where
  "sample_credential = \<lparr>cr_flags = 5, cr_counter = 7, cr_origin = ''https://example.org'', cr_clientDataJSON = ''{}'',
     cr_signature = der_signature 1000 2000, cr_publicKey = [], cr_rawID = ''id''\<rparr>"

definition field_bytes :: "ssh_field list \<Rightarrow> bytes" where
  "field_bytes fs = concat (map (\<lambda>f. case f of FString b \<Rightarrow> char_of (length b) # b | _ \<Rightarrow> []) fs)"

lemma base_point_equation:
  "base_y * base_y - (base_x * base_x * base_x - 3 * base_x + p256_b) =
     p256_p * - 981570988164258562257936101525215858910690391106138407341175333813841188485201771743408849884010754226965632845910189239885256093057339116530079505515608"
  by (simp add: base_x_def base_y_def p256_p_def p256_b_def)

lemma base_point: "on_curve base_x base_y"
proof -
  have "(base_y * base_y - (base_x * base_x * base_x - 3 * base_x + p256_b)) mod p256_p = 0"
    unfolding base_point_equation by (rule mod_mult_self1_is_0)
  moreover have "0 \<le> base_x \<and> base_x < p256_p \<and> 0 \<le> base_y \<and> base_y < p256_p"
    by (simp add: base_x_def base_y_def p256_p_def)
  ultimately show ?thesis unfolding on_curve_def by blast
qed

lemma base_bytes: "on_curve (big_SetBytes (big_FillBytes 32 base_x)) (big_SetBytes (big_FillBytes 32 base_y))"
  using base_point on_curve_range [OF base_point] by (simp only: SetBytes_FillBytes)

theorem login_key_is_registered_witness:
  "\<exists>rg. parsePublicKey field_bytes (\<lambda>t b. t @ b) (\<lambda>c. Inr sample_credential)
      (\<lambda>k. Inr (EC2 (big_FillBytes 32 base_x) (big_FillBytes 32 base_y))) ''example.org'' [''{}''] = Returns rg \<and>
    (let blob = field_bytes [FString pk_Type, FString ''nistp256'',
           FString (CHR 0x04 # big_FillBytes 32 base_x @ big_FillBytes 32 base_y), FString ''example.org'']
     in rg_sshKey rg = pk_Type @ blob \<and>
        pk_Marshal field_bytes (sshPublicKey (rg_x rg) (rg_y rg) (rg_hostName rg)) = Returns blob)"
  using base_bytes by (intro login_key_is_registered [where cred = sample_credential]) (simp_all only: length_FillBytes)

text \<open>
  C40. A signature of the authenticator reaches the server intact: when the credential carries the
  DER encoding of \<open>r\<close> and \<open>s\<close>, with or without trailing bytes, \<open>Sign\<close> returns a signature of the right
  format whose blob is made of exactly \<open>r\<close> and \<open>s\<close>, and whose rest carries the flags, the counter, the
  origin and the client data of the credential.
\<close>

theorem Sign_carries_signature:
  assumes "retrievePublicKey (base64 data) = Fulfilled (c # cs)" and "parseCredential c = Inr cred"
    and "cr_signature cred = der_signature r s @ rest" and "0 \<le> r" "r < 2 ^ 256" "0 \<le> s" "s < 2 ^ 256"
  shows "Sign ssh_Marshal retrievePublicKey parseCredential data =
    Returns (Inr \<lparr>sig_Format = pk_Type, sig_Blob = ssh_Marshal [FMpint r, FMpint s],
      sig_Rest = ssh_Marshal [FByte (cr_flags cred), FUint32 (cr_counter cred), FString (cr_origin cred),
        FString (cr_clientDataJSON cred), FString []]\<rparr>)"
  using assms asn1_signature [OF assms(4-7), of rest] by (simp add: Sign_def await_def pk_Type_def)

theorem Sign_carries_signature_witness:
  "Sign field_bytes (\<lambda>d. Fulfilled [''{}'']) (\<lambda>c. Inr sample_credential) ''data'' =
    Returns (Inr \<lparr>sig_Format = pk_Type, sig_Blob = field_bytes [FMpint 1000, FMpint 2000],
      sig_Rest = field_bytes [FByte 5, FUint32 7, FString ''https://example.org'', FString ''{}'', FString []]\<rparr>)"
  using Sign_carries_signature [of "\<lambda>d. Fulfilled [''{}'']" "''data''" "''{}''" "[]" "\<lambda>c. Inr sample_credential"
      sample_credential 1000 2000 "[]" field_bytes]
  by (simp add: sample_credential_def)

end
