(* ===== verification/WebMain.thy ===== *)
theory WebMain
  imports WebMux WebAuthn Sftp
begin

text \<open>
  The browser's entry point (\<open>src/web/main.go\<close>): opening an SSH connection with the arguments of
  the page, the choice of credentials, the host key dialogue with its fingerprint, the terminal session
  and the callbacks that stay behind. What the program does to the page and to the connection is a
  list of events in program order. The SSH and SFTP libraries are parameters.
\<close>

section \<open>MD5\<close>

definition md5_T :: "int list" where
  "md5_T =
    [3614090360, 3905402710, 606105819, 3250441966, 4118548399, 1200080426, 2821735955, 4249261313,
     1770035416, 2336552879, 4294925233, 2304563134, 1804603682, 4254626195, 2792965006, 1236535329,
     4129170786, 3225465664, 643717713, 3921069994, 3593408605, 38016083, 3634488961, 3889429448,
     568446438, 3275163606, 4107603335, 1163531501, 2850285829, 4243563512, 1735328473, 2368359562,
     4294588738, 2272392833, 1839030562, 4259657740, 2763975236, 1272893353, 4139469664, 3200236656,
     681279174, 3936430074, 3572445317, 76029189, 3654602809, 3873151461, 530742520, 3299628645,
     4096336452, 1126891415, 2878612391, 4237533241, 1700485571, 2399980690, 4293915773, 2240044497,
     1873313359, 4264355552, 2734768916, 1309151649, 4149444226, 3174756917, 718787259, 3951481745]"

definition md5_F :: "int \<Rightarrow> int \<Rightarrow> int \<Rightarrow> int" where
  "md5_F = ch"

definition md5_G :: "int \<Rightarrow> int \<Rightarrow> int \<Rightarrow> int" where
  "md5_G b c d = ch d b c"

definition md5_I :: "int \<Rightarrow> int \<Rightarrow> int \<Rightarrow> int" where
  "md5_I b c d = c XOR (b OR (d XOR 0xFFFFFFFF))"

text \<open>Per step: the mixing function, the rotation (and its complement to 32) and the message word.\<close>

type_synonym md5_op = "(int \<Rightarrow> int \<Rightarrow> int \<Rightarrow> int) \<times> (nat \<times> nat) \<times> nat"

definition md5_quarter :: "(int \<Rightarrow> int \<Rightarrow> int \<Rightarrow> int) \<Rightarrow> (nat \<times> nat) list \<Rightarrow> nat list \<Rightarrow> md5_op list" where
  "md5_quarter f rots idx = map (Pair f) (zip (rots @ rots @ rots @ rots) idx)"

definition md5_schedule :: "md5_op list" where
  "md5_schedule =
     md5_quarter md5_F [(7, 25), (12, 20), (17, 15), (22, 10)] [0, 1, 2, 3, 4, 5, 6, 7, 8, 9, 10, 11, 12, 13, 14, 15]
     @ md5_quarter md5_G [(5, 27), (9, 23), (14, 18), (20, 12)] [1, 6, 11, 0, 5, 10, 15, 4, 9, 14, 3, 8, 13, 2, 7, 12]
     @ md5_quarter par [(4, 28), (11, 21), (16, 16), (23, 9)] [5, 8, 11, 14, 1, 4, 7, 10, 13, 0, 3, 6, 9, 12, 15, 2]
     @ md5_quarter md5_I [(6, 26), (10, 22), (15, 17), (21, 11)] [0, 7, 14, 5, 12, 3, 10, 1, 8, 15, 6, 13, 4, 11, 2, 9]"

type_synonym st4 = "int \<times> int \<times> int \<times> int"

definition md5_step :: "int list \<Rightarrow> st4 \<Rightarrow> int \<times> md5_op \<Rightarrow> st4" where
  "md5_step M s op =
     (case (s, op) of ((a, b, c, d), (t, f, (n, n'), g)) \<Rightarrow>
        (d, m32 (b + rol n n' (m32 (a + f b c d + t + M ! g))), b, c))"

fun words_le :: "bytes \<Rightarrow> int list" where
  "words_le (a # b # c # d # bs) = be32 [d, c, b, a] # words_le bs"
| "words_le _ = []"

definition md5_block :: "st4 \<Rightarrow> bytes \<Rightarrow> st4" where
  "md5_block s blk =
     (case (s, foldl (md5_step (words_le blk)) s (zip md5_T md5_schedule)) of ((a, b, c, d), (a', b', c', d')) \<Rightarrow>
        (m32 (a + a'), m32 (b + b'), m32 (c + c'), m32 (d + d')))"

definition md5_pad :: "bytes \<Rightarrow> bytes" where
  "md5_pad m = m @ [CHR 0x80] @ replicate ((119 - length m mod 64) mod 64) (CHR 0x00)
     @ map (\<lambda>i. char_of (drop_bit i (int (length m) * 8))) [0, 8, 16, 24, 32, 40, 48, 56]"

definition md5 :: "bytes \<Rightarrow> bytes" where
  "md5 m = (case foldl md5_block (0x67452301, 0xEFCDAB89, 0x98BADCFE, 0x10325476) (chunks 64 (md5_pad m)) of
     (a, b, c, d) \<Rightarrow> rev (put32 a) @ rev (put32 b) @ rev (put32 c) @ rev (put32 d))"

lemma md5_vectors:
  "hex (md5 '''') = ''d41d8cd98f00b204e9800998ecf8427e''"
  "hex (md5 ''abc'') = ''900150983cd24fb0d6963f7d28e17f72''"
  by code_simp+

lemma length_md5 [simp]: "length (md5 m) = 16"
  by (simp add: md5_def put32_def split: prod.split)

section \<open>What happens to the page and the connection\<close>

datatype session_op = OpenSession | StdoutPipe | StderrPipe | StdinPipe
  | RequestPty string int int "(string \<times> int) list" | Shell

datatype event = Disposed | ShowErr string | ShowServerKey string string | SessionOp session_op | Forwarding
  | ConClosed | KeepAlive | OnData | SetHome string | Connected string string
  | ToConsole string | Typed bytes | ShowReconnect string | WindowChange int int

text \<open>A goroutine runs to its end with a result, waits for ever, or takes the program down with a panic.\<close>

datatype 'a progress = Ended 'a | Blocks | Crashes

section \<open>The host key dialogue\<close>

text \<open>\<open>%02x\<close> of each byte, with colons between them.\<close>

primrec fp_loop :: "nat \<Rightarrow> bytes \<Rightarrow> string \<Rightarrow> string" where
  "fp_loop i [] out = out"
| "fp_loop i (b # hash) out = fp_loop (i + 1) hash ((if 0 < i then out @ '':'' else out) @ hex [b])"

definition FingerprintMD5 :: "bytes \<Rightarrow> string" where
  "FingerprintMD5 key = fp_loop 0 (md5 key) []"

text \<open>\<open>acceptFP\<close>: the value a call sends on the channel, if any.\<close>

definition acceptFP :: "js_value list \<Rightarrow> bool option res" where
  "acceptFP args = (case args of [] \<Rightarrow> Returns None | v # _ \<Rightarrow> bind_res (js_Bool v) (\<lambda>b. Returns (Some b)))"

text \<open>
  Receiving from the channel: the page calls \<open>acceptFP\<close> with the argument lists \<open>calls\<close>, one after
  the other; the first value sent is received.
\<close>

primrec fpAccepted :: "js_value list list \<Rightarrow> bool progress" where
  "fpAccepted [] = Blocks"
| "fpAccepted (args # calls) =
     (case acceptFP args of Panics \<Rightarrow> Crashes | Returns (Some b) \<Rightarrow> Ended b | Returns None \<Rightarrow> fpAccepted calls)"

type_synonym host_key_callback = "string \<Rightarrow> bytes \<Rightarrow> event list \<Rightarrow> string option progress \<times> event list"

text \<open>\<open>calls host fp\<close> is how the page answers the dialogue for this host and fingerprint.\<close>

definition showFingerprint :: "(string \<Rightarrow> string \<Rightarrow> js_value list list) \<Rightarrow> host_key_callback" where
  "showFingerprint calls hostname key ev =
     (let fp = FingerprintMD5 key; ev' = ev @ [ShowServerKey hostname fp]
      in case fpAccepted (calls hostname fp) of
           Ended True \<Rightarrow> (Ended None, ev')
         | Ended False \<Rightarrow> (Ended (Some ''user didn't accept host key''), ev')
         | Blocks \<Rightarrow> (Blocks, ev')
         | Crashes \<Rightarrow> (Crashes, ev'))"

definition accept_any :: host_key_callback where
  "accept_any hostname key ev = (Ended None, ev)"

section \<open>Credentials\<close>

datatype 'k authMethod = KeyAuth 'k | WebauthnAuth webauthPublicKey | PasswordAuth string

datatype 'k parsed_key = ParsedKey 'k | PassphraseMissing string | BadKey string

text \<open>The SSH and SFTP libraries; \<open>'k\<close> are the signers made of private keys.\<close>

record 'k ssh_lib =
  ParsePrivateKey :: "bytes \<Rightarrow> 'k parsed_key"
  ParsePrivateKeyWithPassphrase :: "bytes \<Rightarrow> bytes \<Rightarrow> string + 'k"
  NewClientConn :: "connection \<Rightarrow> string \<Rightarrow> string \<Rightarrow> 'k authMethod list \<Rightarrow> host_key_callback \<Rightarrow> event list \<Rightarrow>
    string option progress \<times> event list"
  session_call :: "session_op \<Rightarrow> string option"
  NewSftp :: "string option"

definition parse_key :: "'k ssh_lib \<Rightarrow> string \<Rightarrow> string \<Rightarrow> string + 'k authMethod list \<times> string" where
  "parse_key L key pass =
     (if key = [] then Inr ([], pass)
      else case ParsePrivateKey L key of
          ParsedKey k \<Rightarrow> Inr ([KeyAuth k], pass)
        | PassphraseMissing e \<Rightarrow>
            if pass \<noteq> [] then
              (case ParsePrivateKeyWithPassphrase L key pass of
                 Inl e' \<Rightarrow> Inl (''failed to parse private key: '' @ e')
               | Inr k \<Rightarrow> Inr ([KeyAuth k], []))
            else Inl (''failed to parse private key: '' @ e)
        | BadKey e \<Rightarrow> Inl (''failed to parse private key: '' @ e))"

text \<open>
  \<open>selected\<close> is the key that the page has selected; without one the call of the page's function, or the
  access to the fields of its result, panics.
\<close>

definition choose_auth ::
  "'k ssh_lib \<Rightarrow> (string \<times> string \<times> string) option \<Rightarrow> string \<Rightarrow> string \<Rightarrow> bool \<Rightarrow> (string + 'k authMethod list) res" where
  "choose_auth L selected key pass useWebauthKey =
     (case parse_key L key pass of
        Inl e \<Rightarrow> Returns (Inl e)
      | Inr (auth, pass') \<Rightarrow>
          let auth' = (if pass' \<noteq> [] then auth @ [PasswordAuth pass'] else auth) in
          if useWebauthKey then
            (case selected of
               None \<Rightarrow> Panics
             | Some (x, y, hostName) \<Rightarrow> Returns (Inr [WebauthnAuth (sshPublicKey x y hostName)]))
          else Returns (Inr auth'))"

section \<open>Opening a connection\<close>

text \<open>The variables of the program, and everything it has done so far.\<close>

record 'S page =
  pg_mux :: "'S mux_state"
  pg_onData :: bool
  pg_sshCon :: "connection option"
  pg_sshClient :: bool
  pg_session :: bool
  pg_sftpClient :: bool
  pg_events :: "event list"

definition emit :: "event list \<Rightarrow> 'S page \<Rightarrow> 'S page" where
  "emit evs p = p\<lparr>pg_events := pg_events p @ evs\<rparr>"

definition js_Int :: "js_value \<Rightarrow> int res" where
  "js_Int v = (case v of JSNumber n \<Rightarrow> Returns n | _ \<Rightarrow> Panics)"

record init_args =
  ia_host :: string
  ia_port :: int
  ia_usr :: string
  ia_pass :: string
  ia_key :: string
  ia_bypass :: bool
  ia_webauth :: bool

definition read_args :: "js_value list \<Rightarrow> init_args res" where
  "read_args args =
     bind_res (arg args 2) (\<lambda>host. bind_res (arg args 3) (\<lambda>v. bind_res (js_Int v) (\<lambda>port.
     bind_res (arg args 4) (\<lambda>usr. bind_res (arg args 5) (\<lambda>pass. bind_res (arg args 6) (\<lambda>key.
     bind_res (arg args 8) (\<lambda>v. bind_res (js_Bool v) (\<lambda>bypass.
     bind_res (arg args 9) (\<lambda>v. bind_res (js_Bool v) (\<lambda>webauth.
       Returns \<lparr>ia_host = js_String host, ia_port = port, ia_usr = js_String usr, ia_pass = js_String pass,
         ia_key = js_String key, ia_bypass = bypass, ia_webauth = webauth\<rparr>))))))))))"

definition modes :: "(string \<times> int) list" where
  "modes = map (\<lambda>m. (m, 1)) [''ECHO'', ''ICRNL'', ''IXON'', ''IXANY'', ''IMAXBEL'', ''OPOST'', ''ONLCR'', ''ISIG'', ''ICANON'',
     ''IEXTEN'', ''ECHOE'', ''ECHOK'', ''ECHOCTL'', ''ECHOKE''] @ [(''TTY_OP_ISPEED'', 14400), (''TTY_OP_OSPEED'', 14400)]"

text \<open>Calls on the session, each of which closes the connection when it fails.\<close>

primrec session_calls ::
  "(session_op \<Rightarrow> string option) \<Rightarrow> (session_op \<times> string) list \<Rightarrow> 'S page \<Rightarrow> bool \<times> 'S page" where
  "session_calls call [] p = (True, p)"
| "session_calls call (om # oms) p =
     (case om of (op, msg) \<Rightarrow>
        let p' = emit [SessionOp op] p in
        case call op of
          Some e \<Rightarrow> (False, emit [ShowErr (msg @ e), ConClosed] p')
        | None \<Rightarrow> session_calls call oms p')"

text \<open>Going on after calls that succeeded; the goroutine returns after a failure.\<close>

definition and_then :: "bool \<times> 'S page \<Rightarrow> ('S page \<Rightarrow> unit progress \<times> 'S page) \<Rightarrow> unit progress \<times> 'S page" where
  "and_then x f = (case x of (ok, p) \<Rightarrow> if ok then f p else (Ended (), p))"

text \<open>\<open>initSftp\<close>: whether there is a client afterwards; a failure leaves it nil.\<close>

definition initSftp :: "'k ssh_lib \<Rightarrow> bool" where
  "initSftp L = (case NewSftp L of None \<Rightarrow> True | Some e \<Rightarrow> False)"

definition report_connected ::
  "'k ssh_lib \<Rightarrow> 'r sftp \<Rightarrow> 'r \<Rightarrow> init_args \<Rightarrow> 'S page \<Rightarrow> 'S page" where
  "report_connected L S r a p =
     (let client = initSftp L; h = getwd S client r
      in emit [KeepAlive, OnData, SetHome h, Connected (''Connected to '' @ ia_usr a @ ''@'' @ ia_host a) h]
           (p\<lparr>pg_onData := True, pg_sftpClient := client\<rparr>))"

definition terminal ::
  "'k ssh_lib \<Rightarrow> 'r sftp \<Rightarrow> 'r \<Rightarrow> js_value list \<Rightarrow> init_args \<Rightarrow> 'S page \<Rightarrow> unit progress \<times> 'S page" where
  "terminal L S r args a p =
     (case bind_res (arg args 0) js_Int of
        Panics \<Rightarrow> (Crashes, p)
      | Returns rows \<Rightarrow>
          (case bind_res (arg args 1) js_Int of
             Panics \<Rightarrow> (Crashes, p)
           | Returns cols \<Rightarrow>
               and_then (session_calls (session_call L)
                   [(RequestPty ''xterm-256color'' rows cols modes, ''failed to request a pseudo terminal: ''),
                    (Shell, ''failed to start ssh shell: '')] p) (\<lambda>p'.
                 (Ended (), report_connected L S r a p'))))"

definition open_session ::
  "'k ssh_lib \<Rightarrow> 'r sftp \<Rightarrow> 'r \<Rightarrow> js_value list \<Rightarrow> init_args \<Rightarrow> 'S page \<Rightarrow> unit progress \<times> 'S page" where
  "open_session L S r args a p =
     (let p0 = p\<lparr>pg_sshClient := True, pg_session := (session_call L OpenSession = None)\<rparr> in
      and_then (session_calls (session_call L)
          [(OpenSession, ''failed to create new ssh session ''), (StdoutPipe, ''failed to open stdout: ''),
           (StderrPipe, ''failed to open stderr: '')] p0) (\<lambda>p1.
      and_then (session_calls (session_call L) [(StdinPipe, ''failed to open stdin: '')] (emit [Forwarding] p1)) (\<lambda>p2.
        terminal L S r args a p2)))"

definition login ::
  "'k ssh_lib \<Rightarrow> (string \<Rightarrow> string \<Rightarrow> js_value list list) \<Rightarrow> 'r sftp \<Rightarrow> 'r \<Rightarrow> js_value list \<Rightarrow> init_args \<Rightarrow>
   'k authMethod list \<Rightarrow> connection \<Rightarrow> 'S page \<Rightarrow> unit progress \<times> 'S page" where
  "login L calls S r args a auth c p =
     (case NewClientConn L c (ia_host a) (ia_usr a) auth
         (if ia_bypass a then accept_any else showFingerprint calls) (pg_events p) of
        (res, ev) \<Rightarrow>
          let p' = p\<lparr>pg_events := ev\<rparr> in
          (case res of
             Blocks \<Rightarrow> (Blocks, p')
           | Crashes \<Rightarrow> (Crashes, p')
           | Ended (Some e) \<Rightarrow> (Ended (), emit [ShowErr (''failed to open ssh conn '' @ e), ConClosed] p')
           | Ended None \<Rightarrow> open_session L S r args a p'))"

text \<open>The terminal of the previous connection is let go; missing credentials are only complained about.\<close>

definition dispose :: "'S page \<Rightarrow> 'S page" where
  "dispose p = (if pg_onData p then emit [Disposed] p else p)"

definition credentials_hint :: "init_args \<Rightarrow> 'S page \<Rightarrow> 'S page" where
  "credentials_hint a p =
     (if ia_pass a = [] \<and> ia_key a = [] \<and> \<not> ia_webauth a
      then emit [ShowErr ''provide a password or a privatre key or use webauthn key''] p else p)"

text \<open>The goroutine of \<open>initConnection\<close>; \<open>err_str\<close> prints the errors of a connection.\<close>

definition initConnection ::
  "'S browser_env \<Rightarrow> curve \<Rightarrow> rng \<Rightarrow> (io_error \<Rightarrow> string) \<Rightarrow> 'k ssh_lib \<Rightarrow> (string \<times> string \<times> string) option \<Rightarrow>
   (string \<Rightarrow> string \<Rightarrow> js_value list list) \<Rightarrow> 'r sftp \<Rightarrow> 'r \<Rightarrow> js_value list \<Rightarrow> 'S page \<Rightarrow> unit progress \<times> 'S page" where
  "initConnection B X g err_str L selected calls S r args p =
     (let p0 = dispose p in
      if length args < 7 then (Ended (), p0)
      else case read_args args of
          Panics \<Rightarrow> (Crashes, p0)
        | Returns a \<Rightarrow>
            (case con B X g (ia_host a) (ia_port a) (pg_mux p0) of
               Panics \<Rightarrow> (Crashes, p0)
             | Returns (Inl e, ms) \<Rightarrow>
                 (Ended (), emit [ShowErr (''cannot connect to host: '' @ err_str e)] (p0\<lparr>pg_mux := ms, pg_sshCon := None\<rparr>))
             | Returns (Inr c, ms) \<Rightarrow>
                 (let p1 = credentials_hint a (p0\<lparr>pg_mux := ms, pg_sshCon := Some c\<rparr>)
                  in case choose_auth L selected (ia_key a) (ia_pass a) (ia_webauth a) of
                       Panics \<Rightarrow> (Crashes, p1)
                     | Returns (Inl e) \<Rightarrow> (Ended (), emit [ShowErr e] p1)
                     | Returns (Inr auth) \<Rightarrow> login L calls S r args a auth c p1)))"

section \<open>Callbacks\<close>

text \<open>
  The callback of the terminal writes what is typed. Its error return is a Go value with no
  counterpart in JavaScript, which the call wrapper refuses with a panic.
\<close>

definition kcb :: "(bytes \<Rightarrow> string option) \<Rightarrow> js_value list \<Rightarrow> unit progress \<times> event list" where
  "kcb inp_Write args =
     (if length args < 1 then (Ended (), [])
      else case inp_Write (js_String (args ! 0)) of
          Some e \<Rightarrow> (Crashes, [Typed (js_String (args ! 0)), ShowReconnect e])
        | None \<Rightarrow> (Ended (), [Typed (js_String (args ! 0))]))"

definition changeWindowSize :: "bool \<Rightarrow> js_value list \<Rightarrow> event list res" where
  "changeWindowSize session args =
     (if \<not> session then Returns []
      else bind_res (bind_res (arg args 0) js_Int) (\<lambda>rows. bind_res (bind_res (arg args 1) js_Int) (\<lambda>cols.
        Returns [WindowChange rows cols])))"

text \<open>The keep-alive: \<open>replies\<close> are the results of its requests; the number of requests sent.\<close>

primrec keepalive :: "string option list \<Rightarrow> nat" where
  "keepalive [] = 0"
| "keepalive (e # replies) = Suc (if e = None then keepalive replies else 0)"

text \<open>\<open>writeToConsole\<close>.\<close>

definition writeToConsole :: "string \<Rightarrow> event" where
  "writeToConsole str = ToConsole str"

text \<open>
  One goroutine of \<open>forwardOutStreams\<close>, given what its reads return, and the two together: the
  goroutines run concurrently, so that the events are some interleaving.
\<close>

fun forward_loop :: "(bytes \<times> string option) list \<Rightarrow> event list" where
  "forward_loop [] = []"
| "forward_loop ((b, None) # reads) = writeToConsole b # forward_loop reads"
| "forward_loop ((b, Some e) # reads) = [ShowReconnect e, ConClosed]"

definition forwardOutStreams :: "(bytes \<times> string option) list \<Rightarrow> (bytes \<times> string option) list \<Rightarrow> event list set" where
  "forwardOutStreams stdout stderr = shuffles (forward_loop stdout) (forward_loop stderr)"

section \<open>Fingerprints\<close>

lemma fp_loop_Suc: "fp_loop (Suc i) bs out = out @ concat (map (\<lambda>b. CHR '':'' # hex [b]) bs)"
  by (induction bs arbitrary: i out) simp_all

lemma fp_loop_0: "fp_loop 0 (b # bs) [] = hex [b] @ concat (map (\<lambda>b. CHR '':'' # hex [b]) bs)"
  by (simp add: fp_loop_Suc)

lemma length_hex_byte [simp]: "length (hex [b]) = 2"
  by (simp add: hex_def)

lemma hexdigit_inj: "m < 16 \<Longrightarrow> n < 16 \<Longrightarrow> hexdigit m = hexdigit n \<Longrightarrow> m = n"
  unfolding hexdigit_def by (subst (asm) nth_eq_iff_index_eq) simp_all

lemma hex_byte_inj: "hex [a] = hex [b] \<Longrightarrow> a = b"
proof -
  assume h: "hex [a] = hex [b]"
  have lt: "of_char c div 16 < (16 :: nat)" for c :: char
  proof -
    have "(of_char c :: nat) < 256" by simp
    then show ?thesis by (simp add: div_less_iff_less_mult)
  qed
  from h lt have "of_char a div 16 = (of_char b div 16 :: nat)" "of_char a mod 16 = (of_char b mod 16 :: nat)"
    by (auto simp: hex_def intro: hexdigit_inj)
  then have "of_char a = (of_char b :: nat)" by (metis div_mult_mod_eq)
  then show "a = b" by simp
qed

lemma colons_inj:
  "concat (map (\<lambda>b. CHR '':'' # hex [b]) xs) = concat (map (\<lambda>b. CHR '':'' # hex [b]) ys) \<Longrightarrow> xs = ys"
proof (induction xs arbitrary: ys)
  case Nil
  then show ?case by (cases ys) simp_all
next
  case (Cons x xs)
  then obtain y ys' where "ys = y # ys'" by (cases ys) simp_all
  with Cons show ?case by (auto dest: hex_byte_inj)
qed

section \<open>Properties\<close>

text \<open>
  The fingerprint the page shows is 47 characters long and carries the whole digest: two host keys
  have the same fingerprint exactly when they have the same MD5 sum.
\<close>

theorem fingerprint_determines_digest:
  "length (FingerprintMD5 k) = 47 \<and> (FingerprintMD5 k = FingerprintMD5 k' \<longleftrightarrow> md5 k = md5 k')"
proof -
  obtain b bs where m: "md5 k = b # bs" "length bs = 15" using length_md5 [of k] by (cases "md5 k") auto
  obtain c cs where n: "md5 k' = c # cs" "length cs = 15" using length_md5 [of k'] by (cases "md5 k'") auto
  have "length (concat (map (\<lambda>b. CHR '':'' # hex [b]) bs)) = 3 * length bs" by (induction bs) simp_all
  then have "length (FingerprintMD5 k) = 47"
    unfolding FingerprintMD5_def m(1) fp_loop_0 using m(2) by simp
  moreover have "FingerprintMD5 k = FingerprintMD5 k' \<longleftrightarrow> md5 k = md5 k'"
  proof
    assume "FingerprintMD5 k = FingerprintMD5 k'"
    then have "hex [b] = hex [c]"
      and "concat (map (\<lambda>b. CHR '':'' # hex [b]) bs) = concat (map (\<lambda>b. CHR '':'' # hex [b]) cs)"
      unfolding FingerprintMD5_def m(1) n(1) fp_loop_0 by simp_all
    with m n show "md5 k = md5 k'" by (simp add: hex_byte_inj colons_inj)
  qed (simp add: FingerprintMD5_def)
  ultimately show ?thesis by blast
qed

text \<open>
  What the program relies on in \<open>ssh.NewClientConn\<close>: it returns a connection only when the callback
  has accepted the server's key, and it acts on the page through the callback only, which it calls
  at most once.
\<close>

definition checks_host_key :: "'k ssh_lib \<Rightarrow> bool" where
  "checks_host_key L \<longleftrightarrow> (\<forall>c host usr auth cb ev res ev'.
     NewClientConn L c host usr auth cb ev = (res, ev') \<longrightarrow>
       (res = Ended None \<longrightarrow> (\<exists>key. cb host key ev = (Ended None, ev'))) \<and>
       (ev' = ev \<or> (\<exists>key. ev' = snd (cb host key ev))))"

definition session_event :: "event \<Rightarrow> bool" where
  "session_event e = (case e of SessionOp _ \<Rightarrow> True | Forwarding \<Rightarrow> True | KeepAlive \<Rightarrow> True | OnData \<Rightarrow> True
     | SetHome _ \<Rightarrow> True | Connected _ _ \<Rightarrow> True | _ \<Rightarrow> False)"

definition connected_event :: "event \<Rightarrow> bool" where
  "connected_event e = (case e of Connected _ _ \<Rightarrow> True | _ \<Rightarrow> False)"

text \<open>The page in \<open>p'\<close> has the events \<open>evs\<close> more than in \<open>p\<close>, and the same connection.\<close>

definition adds :: "event list \<Rightarrow> 'S page \<Rightarrow> 'S page \<Rightarrow> bool" where
  "adds evs p p' \<longleftrightarrow> pg_events p' = pg_events p @ evs \<and> pg_sshCon p' = pg_sshCon p"

text \<open>A complete attempt: either the connection was closed or the page was told that it is connected.\<close>

definition settled :: "event list \<Rightarrow> bool" where
  "settled evs \<longleftrightarrow> (ConClosed \<in> set evs) \<noteq> (\<exists>e\<in>set evs. connected_event e)"

lemma event_simps [simp]:
  "session_event (SessionOp op)" "session_event Forwarding" "\<not> session_event (ShowErr m)"
  "\<not> session_event ConClosed" "\<not> session_event (ShowServerKey h f)" "\<not> session_event Disposed"
  "\<not> connected_event (SessionOp op)" "\<not> connected_event Forwarding" "\<not> connected_event (ShowErr m)"
  "\<not> connected_event ConClosed" "\<not> connected_event (ShowServerKey h f)" "\<not> connected_event Disposed"
  "\<not> connected_event KeepAlive" "\<not> connected_event OnData" "\<not> connected_event (SetHome h)" "connected_event (Connected m h)"
  by (simp_all add: session_event_def connected_event_def)

lemma adds_emit [simp]: "adds evs p (emit evs p)"
  by (simp add: adds_def emit_def)

lemma adds_trans: "adds as p p' \<Longrightarrow> adds bs p' p'' \<Longrightarrow> adds (as @ bs) p p''"
  by (simp add: adds_def)

lemma adds_emit_trans: "adds bs (emit as p) p' \<Longrightarrow> adds (as @ bs) p p'"
  by (rule adds_trans [OF adds_emit])

lemma session_calls_adds:
  "session_calls call oms p = (ok, p') \<Longrightarrow>
   \<exists>evs. adds evs p p' \<and> (ConClosed \<in> set evs \<longleftrightarrow> \<not> ok) \<and> (\<forall>e\<in>set evs. \<not> connected_event e)"
proof (induction oms arbitrary: p)
  case Nil
  then show ?case by (intro exI [of _ "[]"]) (simp add: adds_def)
next
  case (Cons om oms)
  obtain op msg where om: "om = (op, msg)" by fastforce
  show ?case
  proof (cases "call op")
    case None
    with Cons om obtain evs where "adds evs (emit [SessionOp op] p) p'" "ConClosed \<in> set evs \<longleftrightarrow> \<not> ok"
      "\<forall>e\<in>set evs. \<not> connected_event e" by (auto simp: Let_def)
    then show ?thesis using adds_emit_trans [of evs "[SessionOp op]" p p'] by (intro exI [of _ "[SessionOp op] @ evs"]) auto
  next
    case (Some e)
    with Cons.prems om show ?thesis
      by (intro exI [of _ "[SessionOp op, ShowErr (msg @ e), ConClosed]"]) (auto simp: Let_def adds_def emit_def)
  qed
qed

text \<open>What the steps of an attempt have in common.\<close>

definition attempt :: "'S page \<Rightarrow> unit progress \<times> 'S page \<Rightarrow> bool" where
  "attempt p x \<longleftrightarrow> (\<exists>evs. adds evs p (snd x) \<and> (fst x = Ended () \<longrightarrow> settled evs))"

lemma attempt_and_then [step_effects]:
  assumes "\<And>p1. attempt p1 (f p1)"
  shows "attempt p (and_then (session_calls call oms p) f)"
proof -
  obtain ok p1 where run: "session_calls call oms p = (ok, p1)" by fastforce
  obtain evs where evs: "adds evs p p1" "ConClosed \<in> set evs \<longleftrightarrow> \<not> ok" "\<forall>e\<in>set evs. \<not> connected_event e"
    using session_calls_adds [OF run] by blast
  obtain fs where fs: "adds fs p1 (snd (f p1))" "fst (f p1) = Ended () \<longrightarrow> settled fs"
    using assms [of p1] by (auto simp: attempt_def)
  show ?thesis
  proof (cases ok)
    case True
    with evs(2,3) fs(2) adds_trans [OF evs(1) fs(1)] show ?thesis
      by (auto simp: attempt_def and_then_def run settled_def intro!: exI [of _ "evs @ fs"])
  next
    case False
    with evs show ?thesis by (auto simp: attempt_def and_then_def run settled_def)
  qed
qed

lemma attempt_quiet:
  assumes "attempt p1 x" "adds evs p p1" "ConClosed \<notin> set evs" "\<forall>e\<in>set evs. \<not> connected_event e"
  shows "attempt p x"
proof -
  obtain fs where fs: "adds fs p1 (snd x)" "fst x = Ended () \<longrightarrow> settled fs" using assms(1) by (auto simp: attempt_def)
  with assms(3,4) adds_trans [OF assms(2) fs(1)] show ?thesis
    by (auto simp: attempt_def settled_def intro!: exI [of _ "evs @ fs"])
qed

lemma attempt_crash [step_effects]: "attempt p (Crashes, p)"
  by (auto simp: attempt_def adds_def intro: exI [of _ "[]"])

lemma attempt_report [step_effects]: "attempt p (Ended (), report_connected L S r a p)"
  by (simp add: attempt_def report_connected_def emit_def adds_def Let_def settled_def)

lemma attempt_terminal: "attempt p (terminal L S r args a p)"
  unfolding terminal_def by (simp add: step_effects del: session_calls.simps split: res.split)

lemma attempt_open_session: "attempt p (open_session L S r args a p)"
proof -
  let ?p0 = "p\<lparr>pg_sshClient := True, pg_session := (session_call L OpenSession = None)\<rparr>"
  have "attempt p1 (and_then (session_calls (session_call L) [(StdinPipe, ''failed to open stdin: '')] (emit [Forwarding] p1))
      (terminal L S r args a))" for p1 :: "'a page"
    by (rule attempt_quiet [OF attempt_and_then adds_emit]) (simp_all add: attempt_terminal)
  then have "attempt ?p0 (open_session L S r args a p)"
    unfolding open_session_def Let_def by (rule attempt_and_then)
  then show ?thesis by (rule attempt_quiet [where evs = "[]"]) (simp_all add: adds_def)
qed

lemma showFingerprint_events: "snd (showFingerprint calls host key ev) = ev @ [ShowServerKey host (FingerprintMD5 key)]"
  by (simp add: showFingerprint_def Let_def split: progress.split bool.split)

lemma showFingerprint_accepts:
  "showFingerprint calls host key ev = (Ended None, ev') \<longleftrightarrow>
   ev' = ev @ [ShowServerKey host (FingerprintMD5 key)] \<and> fpAccepted (calls host (FingerprintMD5 key)) = Ended True"
  by (auto simp: showFingerprint_def Let_def split: progress.split bool.split)

text \<open>The events of the host key dialogue; the session begins only behind an accepted key.\<close>

definition accepted_key :: "(string \<Rightarrow> string \<Rightarrow> js_value list list) \<Rightarrow> init_args \<Rightarrow> event list \<Rightarrow> bool" where
  "accepted_key calls a evs \<longleftrightarrow> ia_bypass a \<or>
     (\<exists>key. ShowServerKey (ia_host a) (FingerprintMD5 key) \<in> set evs \<and>
       fpAccepted (calls (ia_host a) (FingerprintMD5 key)) = Ended True)"

lemma login_spec:
  assumes "checks_host_key L" and "login L calls S r args a auth c p = (out, p')"
  shows "\<exists>evs. adds evs p p' \<and> (out = Ended () \<longrightarrow> settled evs) \<and>
    ((\<exists>e\<in>set evs. session_event e) \<longrightarrow> accepted_key calls a evs)"
proof -
  let ?cb = "if ia_bypass a then accept_any else showFingerprint calls"
  obtain res ev where conn: "NewClientConn L c (ia_host a) (ia_usr a) auth ?cb (pg_events p) = (res, ev)" by fastforce
  let ?p = "p\<lparr>pg_events := ev\<rparr>"
  have law: "res = Ended None \<longrightarrow> (\<exists>key. ?cb (ia_host a) key (pg_events p) = (Ended None, ev))"
    "ev = pg_events p \<or> (\<exists>key. ev = snd (?cb (ia_host a) key (pg_events p)))"
    using assms(1) conn unfolding checks_host_key_def by blast+
  obtain ks where ks: "adds ks p ?p" "set ks \<subseteq> range (case_prod ShowServerKey)"
    "res = Ended None \<longrightarrow> accepted_key calls a ks"
  proof (cases "ia_bypass a")
    case True
    with law(2) have "ev = pg_events p" by (auto simp: accept_any_def)
    then show thesis using that [of "[]"] True by (simp add: adds_def accepted_key_def)
  next
    case False
    show thesis
    proof (cases "res = Ended None")
      case True
      with law(1) False obtain key where "ev = pg_events p @ [ShowServerKey (ia_host a) (FingerprintMD5 key)]"
        "fpAccepted (calls (ia_host a) (FingerprintMD5 key)) = Ended True" by (auto simp: showFingerprint_accepts)
      then show thesis using that [of "[ShowServerKey (ia_host a) (FingerprintMD5 key)]"]
        by (auto simp: adds_def accepted_key_def)
    next
      case no: False
      from law(2) False show thesis
        using that [of "[]"] that [of "[ShowServerKey (ia_host a) (FingerprintMD5 key)]" for key] no
        by (auto simp: adds_def showFingerprint_events)
    qed
  qed
  have quiet: "ConClosed \<notin> set ks" "\<forall>e\<in>set ks. \<not> connected_event e" "\<forall>e\<in>set ks. \<not> session_event e"
    using ks(2) by auto
  show ?thesis
  proof (cases "res = Ended None")
    case True
    then have "open_session L S r args a ?p = (out, p')" using assms(2) conn by (simp add: login_def Let_def)
    with attempt_open_session [of ?p L S r args a] obtain fs where fs: "adds fs ?p p'" "out = Ended () \<longrightarrow> settled fs"
      by (auto simp: attempt_def)
    have "accepted_key calls a (ks @ fs)" using ks(3) True by (auto simp: accepted_key_def)
    with adds_trans [OF ks(1) fs(1)] fs(2) quiet show ?thesis
      by (intro exI [of _ "ks @ fs"]) (auto simp: settled_def)
  next
    case False
    show ?thesis
    proof (cases "\<exists>e. res = Ended (Some e)")
      case True
      then obtain e where e: "res = Ended (Some e)" by blast
      then have "p' = emit [ShowErr (''failed to open ssh conn '' @ e), ConClosed] ?p"
        using assms(2) conn by (simp add: login_def Let_def)
      with adds_trans [OF ks(1) adds_emit] quiet show ?thesis
        by (intro exI [of _ "ks @ [ShowErr (''failed to open ssh conn '' @ e), ConClosed]"]) (auto simp: settled_def)
    next
      case no: False
      with False have "p' = ?p \<and> out \<noteq> Ended ()"
        using assms(2) conn by (auto simp: login_def Let_def split: progress.splits option.splits)
      with ks(1) quiet show ?thesis by blast
    qed
  qed
qed

lemma dispose_adds:
  obtains ds where "adds ds p (dispose p)" "set ds \<subseteq> {Disposed}" "pg_mux (dispose p) = pg_mux p"
  using that [of "[]"] that [of "[Disposed]"] by (cases "pg_onData p") (auto simp: dispose_def adds_def emit_def)

lemma credentials_hint_adds:
  obtains m where "adds (map ShowErr m) p (credentials_hint a p)"
proof (cases "ia_pass a = [] \<and> ia_key a = [] \<and> \<not> ia_webauth a")
  case True
  then show ?thesis
    using that [of "[''provide a password or a privatre key or use webauthn key'']"] adds_emit [of _ p]
    by (simp add: credentials_hint_def)
next
  case False
  then show ?thesis using that [of "[]"] by (auto simp: credentials_hint_def adds_def)
qed

lemma initConnection_unopened:
  assumes "read_args args = Returns a" and "initConnection B X g err_str L selected calls S r args p = (out, p')"
    and "\<nexists>c ms. 7 \<le> length args \<and> con B X g (ia_host a) (ia_port a) (pg_mux (dispose p)) = Returns (Inr c, ms)"
  shows "\<exists>m. pg_events p' = pg_events (dispose p) @ map ShowErr m"
proof -
  have nil: "\<exists>m. pg_events q = pg_events q @ map ShowErr m" for q :: "'a page" by (intro exI [of _ "[]"]) simp
  have one: "\<exists>m. [ShowErr x] = map ShowErr m" for x by (intro exI [of _ "[x]"]) simp
  from assms show ?thesis
    by (auto simp: initConnection_def Let_def emit_def nil one split: if_splits res.splits sum.splits prod.splits)
qed

lemma res_sum_cases:
  obtains (Panics) "x = Panics" | (Inl) e where "x = Returns (Inl e)" | (Inr) v where "x = Returns (Inr v)"
  by (cases x; cases "case x of Returns y \<Rightarrow> y | Panics \<Rightarrow> undefined") auto

lemma init_adds:
  assumes "checks_host_key L" and "read_args args = Returns a"
    and "initConnection B X g err_str L selected calls S r args p = (out, p')"
  shows "\<exists>evs. pg_events p' = pg_events p @ evs \<and> ((\<exists>e\<in>set evs. session_event e) \<longrightarrow> accepted_key calls a evs) \<and>
    (\<forall>c ms. 7 \<le> length args \<longrightarrow> con B X g (ia_host a) (ia_port a) (pg_mux p) = Returns (Inr c, ms) \<longrightarrow> out = Ended () \<longrightarrow>
      pg_sshCon p' = Some c \<and> (if \<exists>auth. choose_auth L selected (ia_key a) (ia_pass a) (ia_webauth a) = Returns (Inr auth) then settled evs
        else ConClosed \<notin> set evs \<and> (\<forall>e\<in>set evs. \<not> connected_event e)))"
proof -
  obtain ds where ds: "adds ds p (dispose p)" "set ds \<subseteq> {Disposed}" and mux: "pg_mux (dispose p) = pg_mux p"
    by (rule dispose_adds)
  show ?thesis
  proof (cases "\<exists>c ms. 7 \<le> length args \<and> con B X g (ia_host a) (ia_port a) (pg_mux p) = Returns (Inr c, ms)")
    case False
    then obtain m where "pg_events p' = pg_events (dispose p) @ map ShowErr m"
      using initConnection_unopened [OF assms(2,3)] mux by auto
    with ds False show ?thesis by (intro exI [of _ "ds @ map ShowErr m"]) (auto simp: adds_def)
  next
    case True
    then obtain c ms where enough: "\<not> length args < 7" and con: "con B X g (ia_host a) (ia_port a) (pg_mux p) = Returns (Inr c, ms)"
      by auto
    let ?p0 = "(dispose p)\<lparr>pg_mux := ms, pg_sshCon := Some c\<rparr>"
    let ?p1 = "credentials_hint a ?p0"
    have run: "(case choose_auth L selected (ia_key a) (ia_pass a) (ia_webauth a) of
        Panics \<Rightarrow> (Crashes, ?p1) | Returns (Inl e) \<Rightarrow> (Ended (), emit [ShowErr e] ?p1) | Returns (Inr auth) \<Rightarrow> login L calls S r args a auth c ?p1) = (out, p')"
      using assms(2,3) enough con mux by (simp add: initConnection_def Let_def)
    obtain m where "adds (map ShowErr m) ?p0 ?p1" by (rule credentials_hint_adds)
    with ds(1) have upto: "pg_events ?p1 = pg_events p @ ds @ map ShowErr m" "pg_sshCon ?p1 = Some c"
      by (auto simp: adds_def)
    have quiet: "\<forall>e\<in>set (ds @ map ShowErr m). \<not> session_event e \<and> \<not> connected_event e \<and> e \<noteq> ConClosed"
      using ds(2) by auto
    show ?thesis
    proof (cases "choose_auth L selected (ia_key a) (ia_pass a) (ia_webauth a)" rule: res_sum_cases)
      case Panics
      with run upto quiet show ?thesis by (intro exI [of _ "ds @ map ShowErr m"]) auto
    next
      case (Inl e)
      with run upto quiet con show ?thesis
        by (intro exI [of _ "(ds @ map ShowErr m) @ [ShowErr e]"]) (auto simp: emit_def)
    next
      case (Inr auth)
      with run have "login L calls S r args a auth c ?p1 = (out, p')" by simp
      from login_spec [OF assms(1) this] obtain fs where fs: "adds fs ?p1 p'" "out = Ended () \<longrightarrow> settled fs"
        "(\<exists>e\<in>set fs. session_event e) \<longrightarrow> accepted_key calls a fs" by blast
      have "accepted_key calls a fs \<longrightarrow> accepted_key calls a ((ds @ map ShowErr m) @ fs)" by (auto simp: accepted_key_def)
      moreover have "settled fs \<longrightarrow> settled ((ds @ map ShowErr m) @ fs)" using quiet by (auto simp: settled_def)
      ultimately show ?thesis using fs upto quiet con Inr
        by (intro exI [of _ "(ds @ map ShowErr m) @ fs"]) (auto simp: adds_def)
    qed
  qed
qed

text \<open>
  C12. No session without the user's consent: unless the page asks to bypass the check, an attempt to
  connect makes no call on an SSH session and reports no success to the page unless it has shown the
  fingerprint of the server's key for this host and the page has answered with acceptance.
\<close>

theorem session_needs_accepted_key:
  assumes "checks_host_key L" and "read_args args = Returns a" and "\<not> ia_bypass a"
    and "initConnection B X g err_str L selected calls S r args p = (out, p')"
    and "e \<in> set (drop (length (pg_events p)) (pg_events p'))" and "session_event e"
  shows "\<exists>key. ShowServerKey (ia_host a) (FingerprintMD5 key) \<in> set (drop (length (pg_events p)) (pg_events p')) \<and>
    fpAccepted (calls (ia_host a) (FingerprintMD5 key)) = Ended True"
  using init_adds [OF assms(1,2,4)] assms(3,5,6) by (auto simp: accepted_key_def)

text \<open>A server whose key is shown once, with every call on the session succeeding; SFTP is not offered.\<close>

definition demo_ssh :: "unit ssh_lib" where
  "demo_ssh = \<lparr>ParsePrivateKey = (\<lambda>k. BadKey ''no key found''), ParsePrivateKeyWithPassphrase = (\<lambda>k p. Inl ''no key found''),
     NewClientConn = (\<lambda>c host usr auth cb ev. cb host ''server key'' ev), session_call = (\<lambda>op. None),
     NewSftp = Some ''no subsystem''\<rparr>"

definition open_browser :: "bool browser_env" where
  "open_browser = demo_browser\<lparr>ym_Open := (\<lambda>s. (Inr \<lparr>rx = [[CHR 0x01]], rx_end = EOF, tx = [], tx_error = None\<rparr>, s))\<rparr>"

definition fresh_page :: "bool page" where
  "fresh_page = \<lparr>pg_mux = live_state, pg_onData = False, pg_sshCon = None, pg_sshClient = False, pg_session = False,
     pg_sftpClient = False, pg_events = []\<rparr>"

definition demo_args :: "string \<Rightarrow> js_value list" where
  "demo_args key = [JSNumber 24, JSNumber 80, JSString ''db'', JSNumber 22, JSString ''joe'', JSString ''pw'', JSString key,
     JSBool False, JSBool False, JSBool False]"

definition demo_init :: "string \<Rightarrow> init_args" where
  "demo_init key = \<lparr>ia_host = ''db'', ia_port = 22, ia_usr = ''joe'', ia_pass = ''pw'', ia_key = key, ia_bypass = False,
     ia_webauth = False\<rparr>"

lemma demo_checks: "checks_host_key demo_ssh"
  by (simp add: checks_host_key_def demo_ssh_def) (metis snd_conv)

lemma demo_read_args: "read_args (demo_args key) = Returns (demo_init key)"
  by (simp add: read_args_def demo_args_def demo_init_def arg_def js_Int_def js_Bool_def js_String_def)

lemma demo_con: "\<exists>c ms. con open_browser X g ''db'' 22 live_state = Returns (Inr c, ms)"
  by (simp add: con_def dialMuxed_def openMuxStream_def muxSession_def open_browser_def demo_browser_def live_state_def
      writeMuxHeader_def conn_Write_def Let_def ReadFull_def read_loop.simps conn_Read_def)

definition demo_run :: "curve \<Rightarrow> rng \<Rightarrow> 'r sftp \<Rightarrow> 'r \<Rightarrow> string \<Rightarrow> unit progress \<times> bool page" where
  "demo_run X g S r key =
     initConnection open_browser X g (\<lambda>e. []) demo_ssh None (\<lambda>h f. [[JSBool True]]) S r (demo_args key) fresh_page"

lemmas demo_run_defs = demo_init_def demo_args_def fresh_page_def dispose_def credentials_hint_def choose_auth_def parse_key_def
  login_def demo_ssh_def showFingerprint_def acceptFP_def js_Bool_def open_session_def terminal_def and_then_def
  report_connected_def initSftp_def emit_def arg_def js_Int_def

lemma demo_connects: "fst (demo_run X g S r []) = Ended () \<and> SessionOp Shell \<in> set (pg_events (snd (demo_run X g S r [])))"
proof -
  obtain c ms where con: "con open_browser X g ''db'' 22 live_state = Returns (Inr c, ms)" using demo_con by blast
  show ?thesis unfolding demo_run_def initConnection_def demo_read_args by (simp add: con demo_run_defs Let_def)
qed

theorem session_needs_accepted_key_witness:
  "\<forall>X g S r. \<exists>key. ShowServerKey ''db'' (FingerprintMD5 key) \<in> set (pg_events (snd (demo_run X g S r [])))"
proof (intro allI)
  fix X g S r
  have run: "initConnection open_browser X g (\<lambda>e. []) demo_ssh None (\<lambda>h f. [[JSBool True]]) S r (demo_args []) fresh_page =
      (fst (demo_run X g S r []), snd (demo_run X g S r []))" by (simp only: demo_run_def prod.collapse)
  show "\<exists>key. ShowServerKey ''db'' (FingerprintMD5 key) \<in> set (pg_events (snd (demo_run X g S r [])))"
    using session_needs_accepted_key [OF demo_checks demo_read_args _ run, of "SessionOp Shell"] demo_connects [of X g S r]
    by (auto simp: fresh_page_def demo_init_def)
qed

text \<open>
  C14. A connection that was opened is settled exactly when the credentials can be read: an attempt that
  runs to its end has either closed the connection or reported it to the page, except when the private
  key cannot be parsed, when the connection stays open and unused.
\<close>

theorem connection_settled_iff:
  assumes "checks_host_key L" and "7 \<le> length args" and "read_args args = Returns a"
    and "con B X g (ia_host a) (ia_port a) (pg_mux p) = Returns (Inr c, ms)"
    and "initConnection B X g err_str L selected calls S r args p = (Ended (), p')"
  shows "pg_sshCon p' = Some c \<and>
    (settled (drop (length (pg_events p)) (pg_events p')) \<longleftrightarrow>
      (\<exists>auth. choose_auth L selected (ia_key a) (ia_pass a) (ia_webauth a) = Returns (Inr auth)))"
  using init_adds [OF assms(1,3,5)] assms(2,4) by (auto simp: settled_def split: if_splits)

lemma demo_bad_key: "fst (demo_run X g S r ''garbage'') = Ended ()"
proof -
  obtain c ms where con: "con open_browser X g ''db'' 22 live_state = Returns (Inr c, ms)" using demo_con by blast
  show ?thesis unfolding demo_run_def initConnection_def demo_read_args by (simp add: con demo_run_defs Let_def)
qed

theorem connection_settled_iff_witness:
  "\<forall>X g S r. pg_sshCon (snd (demo_run X g S r ''garbage'')) \<noteq> None \<and> \<not> settled (pg_events (snd (demo_run X g S r ''garbage'')))"
proof (intro allI)
  fix X g S r
  obtain c ms where con: "con open_browser X g ''db'' 22 live_state = Returns (Inr c, ms)" using demo_con by blast
  have "demo_run X g S r ''garbage'' = (Ended (), snd (demo_run X g S r ''garbage''))"
    using demo_bad_key [of X g S r] by (metis prod.collapse)
  then have run: "initConnection open_browser X g (\<lambda>e. []) demo_ssh None (\<lambda>h f. [[JSBool True]]) S r (demo_args ''garbage'')
      fresh_page = (Ended (), snd (demo_run X g S r ''garbage''))" by (simp only: demo_run_def)
  show "pg_sshCon (snd (demo_run X g S r ''garbage'')) \<noteq> None \<and> \<not> settled (pg_events (snd (demo_run X g S r ''garbage'')))"
    using connection_settled_iff [OF demo_checks _ demo_read_args _ run] con
    by (simp add: demo_init_def demo_args_def fresh_page_def choose_auth_def parse_key_def demo_ssh_def)
qed

section \<open>Streams and callbacks\<close>

definition console :: "event list \<Rightarrow> bytes list" where
  "console evs = List.map_filter (\<lambda>e. case e of ToConsole b \<Rightarrow> Some b | _ \<Rightarrow> None) evs"

text \<open>What a stream delivers before its first error.\<close>

definition delivered :: "(bytes \<times> string option) list \<Rightarrow> bytes list" where
  "delivered reads = map fst (takeWhile (\<lambda>(b, e). e = None) reads)"

lemma console_simps [simp]:
  "console [] = []" "console (ToConsole b # evs) = b # console evs"
  "console (ShowReconnect m # evs) = console evs" "console (ConClosed # evs) = console evs"
  by (simp_all add: console_def)

lemma console_forward_loop: "console (forward_loop reads) = delivered reads"
  by (induction reads rule: forward_loop.induct) (auto simp: delivered_def writeToConsole_def)

lemma console_shuffles: "evs \<in> shuffles xs ys \<Longrightarrow> console evs \<in> shuffles (console xs) (console ys)"
proof (induction xs ys arbitrary: evs rule: shuffles.induct)
  case (3 x xs y ys)
  from "3.prems" consider evs' where "evs = x # evs'" "evs' \<in> shuffles xs (y # ys)"
    | evs' where "evs = y # evs'" "evs' \<in> shuffles (x # xs) ys" by auto
  then show ?case
  proof cases
    case 1
    with "3.IH"(1) [of evs'] show ?thesis
      by (cases x) (auto simp: console_def Cons_in_shuffles_leftI split: if_splits)
  next
    case 2
    with "3.IH"(2) [of evs'] show ?thesis
      by (cases y) (auto simp: console_def Cons_in_shuffles_rightI split: if_splits)
  qed
qed simp_all

text \<open>
  C15. Under every interleaving of the two goroutines the terminal shows a merge of the two streams: each
  stream's chunks in their order, up to its first error, with nothing lost or added; and the
  connection is closed as soon as either stream has ended.
\<close>

theorem forward_merges_streams:
  assumes "evs \<in> forwardOutStreams stdout stderr"
  shows "console evs \<in> shuffles (delivered stdout) (delivered stderr) \<and>
    (ConClosed \<in> set evs \<longleftrightarrow> (\<exists>x\<in>set stdout \<union> set stderr. snd x \<noteq> None))"
proof -
  have "ConClosed \<in> set (forward_loop reads) \<longleftrightarrow> (\<exists>x\<in>set reads. snd x \<noteq> None)" for reads
    by (induction reads rule: forward_loop.induct) (auto simp: writeToConsole_def)
  with assms set_shuffles [of evs "forward_loop stdout" "forward_loop stderr"]
    console_shuffles [of evs "forward_loop stdout" "forward_loop stderr"]
  show ?thesis by (auto simp: forwardOutStreams_def console_forward_loop)
qed

theorem forward_merges_streams_witness:
  "console [ToConsole ''a'', ToConsole ''e'', ToConsole ''b'', ShowReconnect ''EOF'', ConClosed]
     \<in> shuffles (delivered [(''a'', None), (''b'', None), ([], Some ''EOF'')]) (delivered [(''e'', None)])"
  using forward_merges_streams [of "[ToConsole ''a'', ToConsole ''e'', ToConsole ''b'', ShowReconnect ''EOF'', ConClosed]"
      "[(''a'', None), (''b'', None), ([], Some ''EOF'')]" "[(''e'', None)]"]
  by (simp add: forwardOutStreams_def writeToConsole_def)

text \<open>
  Typing after the connection is lost takes the program down: the terminal's callback shows the
  reconnect dialogue and then panics, whatever was typed.
\<close>

lemma typing_after_loss_crashes:
  assumes "inp_Write (js_String v) = Some e"
  shows "kcb inp_Write (v # vs) = (Crashes, [Typed (js_String v), ShowReconnect e])"
  using assms by (simp add: kcb_def)

text \<open>The keep-alive sends one request per tick and stops with the first that fails.\<close>

lemma keepalive_stops: "keepalive (replicate n None @ Some e # replies) = Suc n"
  by (induction n) simp_all

end
