(* ===== verification/PageApi.thy ===== *)
theory PageApi
  imports WebMain Reverse
begin

text \<open>
  The functions the browser program registers with its page (the end of \<open>main\<close> in
  \<open>src/web/main.go\<close> and \<open>initFileBrowserAPI\<close> in \<open>src/web/browser.go\<close>), and the program as the page
  sees it: any sequence of calls of these functions with any arguments. A call runs to its end before
  the next one.
\<close>

section \<open>The registered functions\<close>

datatype file_fun = ListFiles | Rename | Move | Copy | Remove | Edit | GetContent | CreateFolder | ChangePermission
  | Upload | UploadToDownloads | Download | MultipleDownload

definition initFileBrowserAPI :: "(string \<times> file_fun) list" where
  "initFileBrowserAPI =
     [(''sftpListFiles'', ListFiles), (''sftpRename'', Rename), (''sftpMove'', Move), (''sftpCopy'', Copy),
      (''sftpRemove'', Remove), (''sftpEdit'', Edit), (''sftpGetContent'', GetContent),
      (''sftpCreateFolder'', CreateFolder), (''sftpChangePermission'', ChangePermission), (''sftpUpload'', Upload),
      (''sftpUploadToDownloads'', UploadToDownloads), (''sftpDownload'', Download),
      (''sftpMultipleDownload'', MultipleDownload)]"

datatype page_fun = InitConnection | AcceptFingerprint | ChangeWindowSize | FileBrowser file_fun | ParsePublicKey
  | ReverseForward | StopReverseForward

definition exports :: "(string \<times> page_fun) list" where
  "exports =
     [(''initConnection'', InitConnection), (''acceptFingerprint'', AcceptFingerprint), (''changeWindowSize'', ChangeWindowSize)]
     @ map (map_prod id FileBrowser) initFileBrowserAPI
     @ [(''parsePublicKey'', ParsePublicKey), (''reverseForward'', ReverseForward), (''stopReverseForward'', StopReverseForward)]"

text \<open>
  What a call meets outside of the program: the world of \<open>initConnection\<close>, the SFTP client with its
  formatting and archiving, the bound on the depth of remote trees, the libraries of \<open>parsePublicKey\<close>.
\<close>

record ('S, 'k, 'r) page_env =
  pe_browser :: "'S browser_env"
  pe_curve :: curve
  pe_rng :: rng
  pe_err :: "io_error \<Rightarrow> string"
  pe_ssh :: "'k ssh_lib"
  pe_selected :: "(string \<times> string \<times> string) option"
  pe_answers :: "string \<Rightarrow> string \<Rightarrow> js_value list list"
  pe_sftp :: "'r sftp"
  pe_depth :: nat
  pe_fmt :: "instant \<Rightarrow> string"
  pe_archive :: "(string \<times> bytes) list \<Rightarrow> bytes option"
  pe_marshal :: "ssh_field list \<Rightarrow> bytes"
  pe_authorized :: "string \<Rightarrow> bytes \<Rightarrow> string"
  pe_credential :: "string \<Rightarrow> string + credential"
  pe_cose :: "bytes \<Rightarrow> string + cose_key"
  pe_hostname :: string

definition file_call ::
  "('S, 'k, 'r) page_env \<Rightarrow> file_fun \<Rightarrow> bool \<Rightarrow> js_value list \<Rightarrow> 'r \<Rightarrow> (reply \<times> 'r) res option" where
  "file_call E f client args r =
     (case f of
        ListFiles \<Rightarrow> Some (list_files (pe_sftp E) client (pe_fmt E) args r)
      | Rename \<Rightarrow> Some (rename (pe_sftp E) client args r)
      | Move \<Rightarrow> Some (move (pe_sftp E) client args r)
      | Copy \<Rightarrow> Some (copy_files (pe_sftp E) client args r)
      | Remove \<Rightarrow> delete (pe_sftp E) (pe_depth E) client args r
      | Edit \<Rightarrow> Some (edit (pe_sftp E) client args r)
      | GetContent \<Rightarrow> Some (getContent (pe_sftp E) client args r)
      | CreateFolder \<Rightarrow> Some (createFolder (pe_sftp E) client args r)
      | ChangePermission \<Rightarrow> changePerm (pe_sftp E) (pe_depth E) client args r
      | Upload \<Rightarrow> Some (upload (pe_sftp E) client args r)
      | UploadToDownloads \<Rightarrow> Some (uploadToDownloads (pe_sftp E) client args r)
      | Download \<Rightarrow> Some (download (pe_sftp E) client args r)
      | MultipleDownload \<Rightarrow> Some (downloadMultiple (pe_sftp E) (pe_archive E) client args r))"

text \<open>The arguments of \<open>reverseForward\<close>; \<open>None\<close> when there are fewer than five.\<close>

definition read_rev_args :: "js_value list \<Rightarrow> rev_args option res" where
  "read_rev_args args =
     (if length args < 5 then Returns None
      else bind_res (js_Int (args ! 0)) (\<lambda>remotePort. bind_res (js_Bool (args ! 1)) (\<lambda>bindAll.
           bind_res (js_Int (args ! 3)) (\<lambda>targetPort.
             Returns (Some \<lparr>ra_remotePort = remotePort, ra_bindAll = bindAll, ra_targetHost = js_String (args ! 2),
               ra_targetPort = targetPort, ra_cb = (args ! 4 = JSFunction)\<rparr>)))))"

definition read_stop_args :: "js_value list \<Rightarrow> string option" where
  "read_stop_args args = (case args of [] \<Rightarrow> None | v # _ \<Rightarrow> Some (js_String v))"

section \<open>The program\<close>

text \<open>
  A panic ends the program. A value sent by \<open>acceptFingerprint\<close> when no dialogue waits for it blocks
  the callback, and the page's event loop with it. While a dialogue waits for an answer that does
  not come (\<open>Waiting\<close>), the calls that would answer it are not made.
\<close>

datatype life = Alive | Waiting | Crashed | Stuck

record ('S, 'r) program =
  pr_life :: life
  pr_page :: "'S page"
  pr_rev :: rev_state
  pr_remote :: 'r
  pr_replies :: "reply list"

definition working :: "('S, 'r) program \<Rightarrow> bool" where
  "working s \<longleftrightarrow> pr_life s = Alive \<or> pr_life s = Waiting"

definition after_init :: "unit progress \<Rightarrow> 'S page \<Rightarrow> ('S, 'r) program \<Rightarrow> ('S, 'r) program" where
  "after_init out p s =
     s\<lparr>pr_page := p, pr_rev := (pr_rev s)\<lparr>rv_client := pg_sshClient p\<rparr>,
       pr_life := (case out of Ended _ \<Rightarrow> pr_life s | Blocks \<Rightarrow> Waiting | Crashes \<Rightarrow> Crashed)\<rparr>"

definition run_init :: "('S, 'k, 'r) page_env \<Rightarrow> js_value list \<Rightarrow> ('S, 'r) program \<Rightarrow> ('S, 'r) program" where
  "run_init E args s =
     (case initConnection (pe_browser E) (pe_curve E) (pe_rng E) (pe_err E) (pe_ssh E) (pe_selected E) (pe_answers E)
        (pe_sftp E) (pr_remote s) args (pr_page s) of (out, p) \<Rightarrow> after_init out p s)"

definition run_window :: "js_value list \<Rightarrow> ('S, 'r) program \<Rightarrow> ('S, 'r) program" where
  "run_window args s =
     (case changeWindowSize (pg_session (pr_page s)) args of
        Panics \<Rightarrow> s\<lparr>pr_life := Crashed\<rparr>
      | Returns evs \<Rightarrow> s\<lparr>pr_page := emit evs (pr_page s)\<rparr>)"

definition run_reverse :: "js_value list \<Rightarrow> ('S, 'r) program \<Rightarrow> ('S, 'r) program" where
  "run_reverse args s =
     (case read_rev_args args of
        Panics \<Rightarrow> s\<lparr>pr_life := Crashed\<rparr>
      | Returns a \<Rightarrow> s\<lparr>pr_rev := reverseForward a (pr_rev s)\<rparr>)"

definition run_accept :: "js_value list \<Rightarrow> ('S, 'r) program \<Rightarrow> ('S, 'r) program" where
  "run_accept args s =
     (case acceptFP args of
        Panics \<Rightarrow> s\<lparr>pr_life := Crashed\<rparr>
      | Returns None \<Rightarrow> s
      | Returns (Some _) \<Rightarrow> s\<lparr>pr_life := Stuck\<rparr>)"

definition run_parse :: "('S, 'k, 'r) page_env \<Rightarrow> js_value list \<Rightarrow> ('S, 'r) program \<Rightarrow> ('S, 'r) program" where
  "run_parse E args s =
     (case parsePublicKey (pe_marshal E) (pe_authorized E) (pe_credential E) (pe_cose E) (pe_hostname E) (map js_String args) of
        Panics \<Rightarrow> s\<lparr>pr_life := Crashed\<rparr>
      | Returns _ \<Rightarrow> s)"

text \<open>The callback of the terminal; \<open>write\<close> is the result of writing to the session.\<close>

definition run_typed :: "(bytes \<Rightarrow> string option) \<Rightarrow> js_value list \<Rightarrow> ('S, 'r) program \<Rightarrow> ('S, 'r) program" where
  "run_typed write args s =
     (case kcb write args of (out, evs) \<Rightarrow>
        s\<lparr>pr_page := emit evs (pr_page s), pr_life := (case out of Crashes \<Rightarrow> Crashed | _ \<Rightarrow> pr_life s)\<rparr>)"

fun by_page :: "rev_act \<Rightarrow> bool" where
  "by_page (Forward a) = True"
| "by_page (Stop k) = True"
| "by_page act = False"

text \<open>
  The calls of the page, what its terminal reports once a callback is registered with it, and between them the listeners and accept loops of the reverse forwards;
  \<open>ok\<close> restricts the worlds and the calls. A file function that panics may have
  changed the remote machine before; one that runs deeper than the bound makes no step.
\<close>

inductive page_step ::
  "(('S, 'k, 'r) page_env \<Rightarrow> page_fun \<Rightarrow> js_value list \<Rightarrow> bool) \<Rightarrow> ('S, 'r) program \<Rightarrow> ('S, 'r) program \<Rightarrow> bool" for ok where
  init: "ok E InitConnection args \<Longrightarrow> pr_life s = Alive \<Longrightarrow> page_step ok s (run_init E args s)"
| accept: "ok E AcceptFingerprint args \<Longrightarrow> pr_life s = Alive \<Longrightarrow> page_step ok s (run_accept args s)"
| window: "ok E ChangeWindowSize args \<Longrightarrow> working s \<Longrightarrow> page_step ok s (run_window args s)"
| parse: "ok E ParsePublicKey args \<Longrightarrow> working s \<Longrightarrow> page_step ok s (run_parse E args s)"
| reverse: "ok E ReverseForward args \<Longrightarrow> working s \<Longrightarrow> page_step ok s (run_reverse args s)"
| stop: "ok E StopReverseForward args \<Longrightarrow> working s \<Longrightarrow>
    page_step ok s (s\<lparr>pr_rev := stopReverseForward (read_stop_args args) (pr_rev s)\<rparr>)"
| browse: "ok E (FileBrowser f) args \<Longrightarrow> working s \<Longrightarrow>
    file_call E f (pg_sftpClient (pr_page s)) args (pr_remote s) = Some (Returns (reply, r')) \<Longrightarrow>
    page_step ok s (s\<lparr>pr_remote := r', pr_replies := pr_replies s @ [reply]\<rparr>)"
| browse_panic: "ok E (FileBrowser f) args \<Longrightarrow> working s \<Longrightarrow>
    file_call E f (pg_sftpClient (pr_page s)) args (pr_remote s) = Some Panics \<Longrightarrow>
    page_step ok s (s\<lparr>pr_remote := r', pr_life := Crashed\<rparr>)"
| typed: "pg_onData (pr_page s) \<Longrightarrow> working s \<Longrightarrow> page_step ok s (run_typed write args s)"
| background: "working s \<Longrightarrow> rev_step (pr_rev s) act rev' \<Longrightarrow> \<not> by_page act \<Longrightarrow> page_step ok s (s\<lparr>pr_rev := rev'\<rparr>)"

text \<open>The program when the page has just loaded.\<close>

definition loaded :: "'S mux_state \<Rightarrow> 'r \<Rightarrow> ('S, 'r) program" where
  "loaded ms r =
     \<lparr>pr_life = Alive,
      pr_page = \<lparr>pg_mux = ms, pg_onData = False, pg_sshCon = None, pg_sshClient = False, pg_session = False,
        pg_sftpClient = False, pg_events = []\<rparr>,
      pr_rev = rev_init False, pr_remote = r, pr_replies = []\<rparr>"

lemma exports_complete: "distinct (map fst exports)" "fn \<in> snd ` set exports"
proof -
  show "distinct (map fst exports)" by (simp add: exports_def initFileBrowserAPI_def)
  show "fn \<in> snd ` set exports"
  proof (cases fn)
    case (FileBrowser f)
    then show ?thesis by (cases f) (simp_all add: exports_def initFileBrowserAPI_def)
  qed (simp_all add: exports_def)
qed

section \<open>Without consent\<close>

text \<open>
  The user never accepts a host key and the page never asks to bypass the check; the SSH library
  checks host keys.
\<close>

definition no_consent :: "('S, 'k, 'r) page_env \<Rightarrow> page_fun \<Rightarrow> js_value list \<Rightarrow> bool" where
  "no_consent E fn args \<longleftrightarrow> checks_host_key (pe_ssh E) \<and>
     (\<forall>host fp. fpAccepted (pe_answers E host fp) \<noteq> Ended True) \<and>
     (\<forall>a. fn = InitConnection \<longrightarrow> read_args args = Returns a \<longrightarrow> \<not> ia_bypass a)"

text \<open>The variables of the program that give access to the remote machine, and the callback of the terminal.\<close>

definition disconnected :: "'S page \<Rightarrow> bool" where
  "disconnected p \<longleftrightarrow> \<not> pg_onData p \<and> \<not> pg_sshClient p \<and> \<not> pg_session p \<and> \<not> pg_sftpClient p \<and> (\<forall>e\<in>set (pg_events p). \<not> session_event e)"

lemma disconnected_emit [simp]:
  "disconnected (emit evs p) \<longleftrightarrow> disconnected p \<and> (\<forall>e\<in>set evs. \<not> session_event e)"
  by (auto simp: disconnected_def emit_def)

lemma disconnected_update [simp]:
  "disconnected (p\<lparr>pg_mux := ms, pg_sshCon := c\<rparr>) \<longleftrightarrow> disconnected p"
  by (simp add: disconnected_def)

lemma login_refused:
  assumes "checks_host_key L" and "\<not> ia_bypass a" and "\<And>host fp. fpAccepted (calls host fp) \<noteq> Ended True"
    and "disconnected p"
  shows "disconnected (snd (login L calls S r args a auth c p))"
proof -
  obtain res ev where conn: "NewClientConn L c (ia_host a) (ia_usr a) auth (showFingerprint calls) (pg_events p) = (res, ev)"
    by fastforce
  have "res \<noteq> Ended None"
    using assms(1,3) conn unfolding checks_host_key_def by (metis showFingerprint_accepts)
  moreover have "ev = pg_events p \<or> (\<exists>key. ev = pg_events p @ [ShowServerKey (ia_host a) (FingerprintMD5 key)])"
    using assms(1) conn showFingerprint_events unfolding checks_host_key_def by metis
  then have "disconnected (p\<lparr>pg_events := ev\<rparr>)" using assms(4) by (auto simp: disconnected_def)
  ultimately show ?thesis using conn assms(2)
    by (simp add: login_def Let_def split: progress.split option.split)
qed

lemma init_refused:
  assumes "no_consent E InitConnection args" and "disconnected p"
  shows "disconnected (snd (initConnection (pe_browser E) (pe_curve E) (pe_rng E) (pe_err E) (pe_ssh E) (pe_selected E)
    (pe_answers E) (pe_sftp E) r args p))"
proof -
  have dis: "disconnected (dispose p)" "disconnected q \<Longrightarrow> disconnected (credentials_hint a q)" for a and q :: "'a page"
    using assms(2) by (simp_all add: dispose_def credentials_hint_def)
  have log: "disconnected (snd (login (pe_ssh E) (pe_answers E) (pe_sftp E) r args a auth c q))"
    if "disconnected q" "read_args args = Returns a" for a auth c and q :: "'a page"
    using assms(1) that by (intro login_refused) (auto simp: no_consent_def)
  show ?thesis
    by (auto simp: initConnection_def Let_def dis log split: res.split sum.split prod.split)
qed

lemma file_call_no_client: "file_call E f False args r = Some (Returns (NoReply, r))"
  by (cases f) (simp_all add: file_call_def list_files_def rename_def move_def copy_files_def delete_def edit_def
      getContent_def createFolder_def changePerm_def upload_def uploadToDownloads_def download_def downloadMultiple_def api_def)

definition shut_out :: "'r \<Rightarrow> ('S, 'r) program \<Rightarrow> bool" where
  "shut_out r s \<longleftrightarrow> disconnected (pr_page s) \<and> \<not> rv_client (pr_rev s) \<and> rv_pending (pr_rev s) = [] \<and> rv_loops (pr_rev s) = [] \<and>
     pr_remote s = r \<and> set (pr_replies s) \<subseteq> {NoReply}"

lemma reverse_no_client:
  "\<not> rv_client st \<Longrightarrow> rv_pending (reverseForward a st) = rv_pending st \<and> rv_loops (reverseForward a st) = rv_loops st \<and>
    rv_client (reverseForward a st) = rv_client st"
  by (auto simp: reverseForward_def invokeCB_def split: option.split)

lemma shut_out_step: "page_step no_consent s s' \<Longrightarrow> shut_out r s \<Longrightarrow> shut_out r s'"
proof (induction rule: page_step.induct)
  case (init E args s)
  then show ?case
    using init_refused [OF init(1), of "pr_page s" "pr_remote s"]
    by (auto simp: shut_out_def run_init_def after_init_def disconnected_def split: prod.split)
next
  case (window E args s)
  then show ?case
    by (simp add: shut_out_def run_window_def changeWindowSize_def disconnected_def emit_def)
next
  case (reverse E args s)
  then show ?case
    by (auto simp: shut_out_def run_reverse_def reverse_no_client split: res.split)
next
  case (stop E args s)
  then show ?case by (auto simp: shut_out_def stopReverseForward_def split: option.split)
next
  case (typed s "write" args)
  then show ?case by (simp add: shut_out_def disconnected_def)
next
  case (background s act rev')
  from background(2,3,4) show ?case by (cases rule: rev_step.cases) (auto simp: shut_out_def)
qed (auto simp: shut_out_def run_accept_def run_parse_def disconnected_def file_call_no_client split: res.split option.split)

interpretation refusal: preserved "page_step no_consent" "shut_out r" for r
  by unfold_locales (rule shut_out_step)

text \<open>
  C13. No access without consent: as long as the user accepts no host key and the page does not bypass the
  check, no sequence of calls of the page, with any arguments and against any server, opens a session or
  passes on what is typed, gets an answer of the file browser, starts a reverse forward or changes the remote machine.
\<close>

theorem no_access_without_consent:
  assumes "(page_step no_consent)\<^sup>*\<^sup>* (loaded ms r) s"
  shows "pr_remote s = r \<and> set (pr_replies s) \<subseteq> {NoReply} \<and> rv_pending (pr_rev s) = [] \<and> rv_loops (pr_rev s) = [] \<and>
    \<not> pg_onData (pr_page s) \<and> \<not> pg_session (pr_page s) \<and> (\<forall>e\<in>set (pg_events (pr_page s)). \<not> session_event e)"
proof -
  have "shut_out r (loaded ms r)" by (simp add: shut_out_def loaded_def disconnected_def rev_init_def)
  from refusal.reached [OF assms this] show ?thesis by (simp add: shut_out_def disconnected_def)
qed

text \<open>A page whose user refuses the key of the server.\<close>

definition refusing_env :: "(bool, unit, unit) page_env" where
  "refusing_env = \<lparr>pe_browser = open_browser, pe_curve = demo_curve, pe_rng = demo_rng, pe_err = (\<lambda>e. []), pe_ssh = demo_ssh,
     pe_selected = None, pe_answers = (\<lambda>h f. [[JSBool False]]), pe_sftp = small_server, pe_depth = 3, pe_fmt = (\<lambda>t. []),
     pe_archive = (\<lambda>es. None), pe_marshal = field_bytes, pe_authorized = (\<lambda>t b. t @ b), pe_credential = (\<lambda>c. Inl ''none''),
     pe_cose = (\<lambda>b. Inl ''none''), pe_hostname = ''example.org''\<rparr>"

theorem no_access_without_consent_witness:
  "\<exists>s. (page_step (no_consent :: (bool, unit, unit) page_env \<Rightarrow> _))\<^sup>*\<^sup>* (loaded live_state ()) s \<and> \<not> pg_session (pr_page s) \<and> pr_page s \<noteq> pr_page (loaded live_state ())"
proof -
  let ?fresh = "loaded live_state () :: (bool, unit) program"
  let ?done = "run_init refusing_env (WebMain.demo_args []) ?fresh"
  have "no_consent refusing_env InitConnection (WebMain.demo_args [])"
    using demo_checks by (simp add: no_consent_def refusing_env_def acceptFP_def js_Bool_def demo_read_args demo_init_def)
  then have "page_step (no_consent :: (bool, unit, unit) page_env \<Rightarrow> _) ?fresh ?done" by (rule init) (simp add: loaded_def)
  then have reach: "(page_step (no_consent :: (bool, unit, unit) page_env \<Rightarrow> _))\<^sup>*\<^sup>* ?fresh ?done" by (rule r_into_rtranclp)
  obtain c ms where con: "con open_browser demo_curve demo_rng ''db'' 22 live_state = Returns (Inr c, ms)" using demo_con by blast
  have "pg_events (pr_page ?done) \<noteq> []"
    unfolding run_init_def initConnection_def demo_read_args
    by (simp add: con refusing_env_def loaded_def after_init_def demo_run_defs Let_def)
  then have "pr_page ?done \<noteq> pr_page ?fresh" by (metis loaded_def page.select_convs(7) program.select_convs(2))
  with reach no_access_without_consent [OF reach] show ?thesis by blast
qed

section \<open>Panics of the file browser\<close>

text \<open>The position of the callback; calls that have it, and arrays and flags where they are expected.\<close>

fun callback_index :: "file_fun \<Rightarrow> nat" where
  "callback_index Copy = 3"
| "callback_index ChangePermission = 3"
| "callback_index Upload = 3"
| "callback_index Rename = 2"
| "callback_index Move = 2"
| "callback_index Edit = 2"
| "callback_index UploadToDownloads = 2"
| "callback_index f = 1"

definition well_typed :: "file_fun \<Rightarrow> js_value list \<Rightarrow> bool" where
  "well_typed f args \<longleftrightarrow> callback_index f < length args \<and> args ! callback_index f = JSFunction \<and>
     (f \<in> {Move, Copy, Remove, ChangePermission, MultipleDownload} \<longrightarrow> (\<exists>vs. args ! 0 = JSArray vs)) \<and>
     (f = ChangePermission \<longrightarrow> (\<exists>b. args ! 2 = JSBool b))"

lemma answers_return [simp]:
  "invoke JSFunction x code r \<noteq> Panics" "apiResponse JSFunction err r \<noteq> Panics"
  by (simp_all add: invoke_def apiResponse_def split: option.split)

text \<open>
  C37. Of all calls of the file browser with a callback where it belongs and arrays and flags where they are
  expected, exactly these take the program down: moving to a target whose attributes the server does not
  give, and every call for which the constructor \<open>Uint8Array\<close> throws. That is an upload (of either kind) of
  something it makes no array of, such as a negative number; the download of a file for which the server reports a size
  it refuses, such as a negative or a huge one; and the download of an archive that is too long for it.
\<close>

theorem file_call_panics_iff:
  assumes "well_typed f args"
  shows "file_call E f client args r = Some Panics \<longleftrightarrow> client \<and>
    (f = Move \<and> isl (sf_Lstat (pe_sftp E) (js_String (args ! 1)) r) \<or>
     f = Upload \<and> js_Uint8Array (pe_sftp E) (args ! 2) = None \<or>
     f = UploadToDownloads \<and> js_Uint8Array (pe_sftp E) (args ! 1) = None \<or>
     f = Download \<and> (\<exists>fs. sf_Lstat (pe_sftp E) (js_String (args ! 0)) r = Inr fs \<and> \<not> IsDir fs \<and>
       sf_Open (pe_sftp E) (js_String (args ! 0)) r = None \<and> js_Uint8Array (pe_sftp E) (JSNumber (si_Size fs)) = None) \<or>
     f = MultipleDownload \<and> (\<exists>items es b. js_items (args ! 0) = Returns items \<and> zip_entries (pe_sftp E) items r = Some es \<and>
       pe_archive E es = Some b \<and> js_Uint8Array (pe_sftp E) (JSNumber (int (length b))) = None))"
proof (cases client)
  case True
  have cb: "callback_index f < length args" "args ! callback_index f = JSFunction" using assms by (simp_all add: well_typed_def)
  show ?thesis
  proof (cases f)
    case Move
    with assms cb True show ?thesis
      by (auto simp: well_typed_def file_call_def move_def api_def js_items_def Let_def split: sum.splits prod.splits)
  next
    case Copy
    with assms cb True show ?thesis
      by (auto simp: well_typed_def file_call_def copy_files_def api_def js_items_def arg_def Let_def split: prod.splits)
  next
    case Remove
    with assms cb True show ?thesis
      by (auto simp: well_typed_def file_call_def delete_def js_items_def split: prod.splits)
  next
    case ChangePermission
    with assms cb True show ?thesis
      by (auto simp: well_typed_def file_call_def changePerm_def js_items_def js_Bool_def split: option.splits prod.splits)
  next
    case MultipleDownload
    with assms cb True show ?thesis
      by (auto simp: well_typed_def file_call_def downloadMultiple_def api_def js_items_def split: option.splits)
  next
    case Download
    with cb True show ?thesis
      by (auto simp: file_call_def download_def api_def Let_def split: sum.splits option.splits)
  next
    case Upload
    with cb True show ?thesis
      by (auto simp: file_call_def upload_def api_def Let_def split: sum.splits option.splits prod.splits)
  next
    case UploadToDownloads
    with cb True show ?thesis
      by (auto simp: file_call_def uploadToDownloads_def api_def Let_def split: sum.splits option.splits prod.splits)
  qed (use cb True in \<open>auto simp: file_call_def list_files_def rename_def edit_def getContent_def createFolder_def api_def Let_def
      split: sum.splits option.splits prod.splits\<close>)
next
  case False
  then show ?thesis by (simp add: file_call_no_client)
qed

theorem file_call_panics_iff_witness:
  "file_call refusing_env Move True [JSArray [JSString ''a''], JSString ''nowhere'', JSFunction] () = Some Panics \<and>
   file_call refusing_env Upload True [JSString ''d'', JSString ''g'', JSNumber (- 1), JSFunction] () = Some Panics \<and>
   file_call refusing_env Upload True [JSString ''d'', JSString ''g'', JSBytes ''abc'', JSFunction] () \<noteq> Some Panics"
  using file_call_panics_iff [of Move "[JSArray [JSString ''a''], JSString ''nowhere'', JSFunction]" refusing_env True "()"]
    file_call_panics_iff [of Upload "[JSString ''d'', JSString ''g'', JSNumber (- 1), JSFunction]" refusing_env True "()"]
    file_call_panics_iff [of Upload "[JSString ''d'', JSString ''g'', JSBytes ''abc'', JSFunction]" refusing_env True "()"]
  by (simp add: well_typed_def refusing_env_def small_server_def js_String_def demo_Uint8Array_def)

end
