(* ===== verification/Spec2Isabelle.thy ===== *)
theory Spec2Isabelle
  imports Startup Shutdown ReversePorts SftpTree PageApi
begin

text \<open>
  \<^bold>\<open>ssheasy: an SSH client in the browser and the proxy behind it\<close>

  The system has two Go programs. The \<^emph>\<open>proxy\<close> (\<open>src/proxy\<close>) serves the pages, guards them with a login
  gate, and connects websockets to TCP targets. The \<^emph>\<open>browser program\<close> (\<open>src/web\<close>, compiled to
  WebAssembly) opens such websockets, runs the SSH protocol over them and offers a terminal, a file
  browser and reverse port forwards to the page. Between the two runs an obfuscation layer (a
  handshake, then AES-CTR in both directions) and, on top of it, a stream multiplexer, so that all connections
  of a page share one websocket (\<open>/pm\<close>); the older protocol uses one websocket per connection (\<open>/p\<close>).

  A request to the proxy passes \<open>authMiddleware\<close> (unless its path is public) and reaches a handler:
  login and logout, the static site with its file server, \<open>handleWss\<close> or \<open>handleMuxWss\<close>. The last two check the
  target against the blacklist, dial it and relay bytes. An administration server beside it reads
  and changes the limits.

  \<^bold>\<open>Theories\<close>

  \<^item> \<open>Prelude\<close>: calls that may panic (\<open>res\<close>), 64-bit integers with their wrap-around, instants of time; the
    locale \<open>preserved\<close>, which every step relation with an invariant interprets.
  \<^item> \<open>GoLib\<close>, \<open>GoHttp\<close>, \<open>GoJson\<close>, \<open>GoCrypto\<close>, \<open>GoAes\<close>, \<open>Transport\<close>: what the programs use of Go's standard
    library (strings, numbers, paths; requests and the response writer; JSON; SHA-1, SHA-256, HMAC,
    base32; AES-CTR; byte streams), executable and checked against published vectors. A connection may
    break at any byte: the write that hits the end delivers and reports the part before it (\<open>write_result\<close>).
  \<^item> \<open>Ranges\<close>, \<open>Preconditions\<close>, \<open>FileServer\<close> (\<open>proxy/fileserver.go\<close>) and \<open>StaticSite\<close> (\<open>proxy/static.go\<close>,
    \<open>proxy/page.go\<close>): the \<open>Range\<close> parser, conditional requests, \<open>serveContent\<close>, \<open>serveFile\<close>, \<open>Dir\<close>, the branded
    single-page site. A file system is a function from paths to errors or files.
  \<^item> \<open>Auth\<close> (\<open>proxy/auth.go\<close>): \<open>initAuth\<close>, \<open>authMiddleware\<close>, \<open>handleLogin\<close>, session tokens, TOTP, and the table of failed
    logins. Session tokens and the lockout are stated as locales (\<open>session_tokens\<close>, \<open>login_guard\<close>) that
    the code's functions interpret. Concurrent logins are the step relation \<open>login_step\<close>: a clock, the table, and the
    phase of \<open>handleLogin\<close> every request is in; a request that runs alone does what \<open>handleLogin\<close> does.
  \<^item> \<open>Obfs\<close> (\<open>proxy/obfs.go\<close>) and \<open>WebObfs\<close> (\<open>web/obfs.go\<close>): \<open>obfConn\<close> with both handshakes, \<open>Read\<close> and \<open>Write\<close>; the
    second theory shows that the two copies agree and puts the two ends together.
  \<^item> \<open>Limits\<close> (\<open>proxy/main.go\<close>): \<open>getIPAdress\<close>, \<open>isAllowedTarger\<close> with the lock it holds, the limited and the metered
    writer, the audit log. The step relation \<open>target_step\<close> is the life of the blacklist's lock.
  \<^item> \<open>Relay\<close> (\<open>proxy/main.go\<close>, \<open>proxy/mux.go\<close>): the two concurrent copies of a connection. The locale \<open>copy_side\<close> states what
    a direction promises, \<open>relay_pair\<close> what two directions need of each other; both are interpreted on the
    websocket relay and on the relay of a multiplexed stream.
  \<^item> \<open>Proxy\<close> (\<open>handleWss\<close>, \<open>ping\<close>, the shutdown loop of \<open>main\<close>) and \<open>Mux\<close> (\<open>proxy/mux.go\<close>): the two handlers over the state of the
    process (record \<open>proxy\<close>: counters, sources, targets, limits, audit log, dials).
  \<^item> \<open>Admin\<close> (\<open>proxy/admin.go\<close>) and \<open>Startup\<close> (\<open>main\<close> of \<open>proxy/main.go\<close>): metrics, handlers, key check and routes; the start
    of the program from its package variables to the servers (\<open>program_start\<close>), the public routes
    behind the gate, and \<open>site_step\<close>, which allows every sequence of public and administration requests.
  \<^item> \<open>Shutdown\<close> (the end of \<open>main\<close>): \<open>process_step\<close>, the concurrent connections of the process from serving over
    an interrupt and the polling of \<open>activeWebsocks\<close> to the exit.
  \<^item> \<open>WebMux\<close> (\<open>web/mux.go\<close>, \<open>con\<close> and \<open>conLegacy\<close> of \<open>web/main.go\<close>): the shared session with its retry, stream headers, the dedicated
    connection; together with \<open>Mux\<close> and \<open>Proxy\<close> the two ends of both protocols.
  \<^item> \<open>WebMain\<close> (the rest of \<open>web/main.go\<close>): a connection attempt as a log of events, from the arguments of the
    page over credentials, host key dialogue and session to the callbacks that stay behind.
  \<^item> \<open>WebAuthn\<close> (\<open>web/webauth.go\<close>): security keys, their registration and their signatures.
  \<^item> \<open>Reverse\<close> (\<open>web/reverse.go\<close>): the forwards as objects in a store, with the step relation \<open>rev_step\<close>; \<open>ReversePorts\<close> has
    the table of ports that they implement, with the abstraction \<open>ports_of\<close>.
  \<^item> \<open>Sftp\<close>, \<open>SftpTree\<close> (\<open>web/browser.go\<close>): the functions of the file browser over an SFTP client, and recursive deletion
    as the removal of a subtree.
  \<^item> \<open>PageApi\<close> (the registrations in \<open>web/main.go\<close> and \<open>web/browser.go\<close>): the browser program as a whole. \<open>page_step\<close>
    allows every sequence of calls of the registered functions, with any arguments, and the
    goroutines of the reverse forwards between them.

  \<^bold>\<open>What is shown\<close>

  \<^item> The process as a whole (C1, C2, C16): without a session no request changes the state of the proxy; from the start
    of the program over every sequence of requests no blacklisted target is dialled, the counters balance and the limits
    stay positive; what an exit waits for.
  \<^item> Data (C3 to C8, C15): relays deliver prefixes in order, count them exactly, and deliver everything when they report
    no error, under every interleaving and wherever a connection breaks; both handshakes agree on keys, and what one end writes the other reads; stream headers survive.
  \<^item> Handlers (C9 to C11): they return on every path, leave the counters balanced and dial only what is allowed.
  \<^item> The browser's connection (C12 to C14): no session without an accepted host key, and no other access to the remote
    machine through any function of the page; when a connection is left open.
  \<^item> The login gate (C17 to C23): tokens and codes are accepted exactly when they should be, the gate fails closed,
    and the lockout bounds the wrong codes of serial requests (ten, and ten more for every right one), but not those of
    concurrent ones.
  \<^item> Files (C24 to C29): confinement, ranges and conditions, with the cases in which the code departs from RFC 7233; when
    the handler panics.
  \<^item> Refinements (C30, C31): recursive deletion removes a subtree, reverse forwards implement a table of ports.
  \<^item> The remaining properties treat the registrations of forwards, robustness of the obfuscation layer,
    administration, the limits, panics of the file browser, refused streams and security keys.

  \<^bold>\<open>Bounds and termination\<close>

  Functions are total. Loops over strings and lists terminate by their length, loops over a
  connection by the input that is left (\<open>rx_size\<close>). A schedule of a relay is a list of turns; \<open>run_relay\<close> goes on
  with as many turns of each direction as its input can need, so that both always end. \<open>recDelete\<close> and \<open>chmod\<close> take fuel,
  and C30 shows that the depth of the tree is enough. Counters of the process and numbers read from
  headers are 64-bit integers with their wrap-around. A wait that may last for ever (a missing answer
  of the user) is a value of its own (\<open>Blocks\<close>).

  \<^bold>\<open>Parameters\<close>

  The operating system, the clock, random numbers, X25519, the rate limiter, floating-point numbers, the routers
  and the websocket upgrade, yamux, the SSH and SFTP libraries, the engine's constructor of typed arrays
  (\<open>js_Uint8Array\<close>), the browser's authenticator and the parsers of its answers are arguments of the definitions that use them. Where a theorem relies on their behaviour it
  says so in a named hypothesis (\<open>curve_laws\<close>, \<open>world_ok\<close>, \<open>checks_host_key\<close>, \<open>typed_arrays\<close>, the laws of the SFTP server), and its
  witness has a concrete instance.

  \<^bold>\<open>Not modelled\<close>

  The page itself (\<open>src/web/html\<close>), log messages other than the audit log and the final line of a
  connection, the rendering of the metrics, the listeners of the HTTP servers and their timeouts, TLS, memory
  exhaustion, and data races other than those that are stated (the lockout, the lock of the
  blacklist, the relay, the counter of websockets at the exit, the reverse forwards). In \<open>page_step\<close> a call runs to its
  end before the next one: goroutines of the file browser are not interleaved with each other, and the page's callbacks return. \<open>rev_step\<close> leaves
  out servers with two listeners for one address and port.
\<close>

end
